(* ===== verification/Prelude.thy ===== *)
theory Prelude
  imports Complex_Main "HOL-Library.AList" "HOL-Library.Word" "HOL-Library.Char_ord"
    "HOL-Library.List_Lexorder"
begin

text \<open>
  Shared vocabulary of the development: JavaScript exceptions as values of a sum type,
  \<open>Map\<close> objects as association lists in insertion order, decimal text of integers,
  \<open>split\<close> and \<open>join\<close>, the character classes the regular expressions of the source use, and
  the generic interfaces (a journalled fold, a codec with a canonical text, an invariant of
  a step function) that the components instantiate.

  Reading of the source types: a \<open>bigint\<close> is an \<open>int\<close>; a \<open>number\<close> that holds a count, an
  index or Unix seconds is an \<open>int\<close>; a \<open>number\<close> decoded from JSON is a \<open>rat\<close>; a \<open>string\<close>
  is a \<open>string\<close>; \<open>null\<close> and \<open>undefined\<close> are \<open>None\<close>.
\<close>

named_theorems exn_simps \<open>rewriting of the exception monad\<close>
named_theorems text_simps \<open>decimal text, split and join\<close>
named_theorems handler_defs \<open>unfolding of the commands of the signer\<close>

section \<open>Exceptions\<close>

text \<open>
  What the modelled code throws. \<open>SignerError\<close> carries code and detail (\<open>signer/validate.ts\<close>);
  the others carry the field or code of their class, \<open>PlainError\<close> the message of an \<open>Error\<close>; \<open>TypeErr\<close> and \<open>RangeErr\<close> are the errors of the
  language (property of \<open>undefined\<close>, \<open>BigInt\<close> of a fraction), \<open>LibErr\<close> an error thrown by a library.
\<close>

datatype exn =
    SignerError string "string option"
  | IntentError string
  | MandateError string
  | AmountError string
  | SpendError string
  | WebAuthnFailure string
  | KeyError string
  | JournalError string int
  | PlainError string
  | TypeErr
  | RangeErr
  | LibErr

type_synonym 'a res = "exn + 'a"

definition andThen :: "'a res \<Rightarrow> ('a \<Rightarrow> 'b res) \<Rightarrow> 'b res" where
  "andThen m f = (case m of Inl e \<Rightarrow> Inl e | Inr x \<Rightarrow> f x)"

fun mapR :: "('a \<Rightarrow> 'b res) \<Rightarrow> 'a list \<Rightarrow> 'b list res" where
  "mapR f [] = Inr []"
| "mapR f (x # xs) = andThen (f x) (\<lambda>y. andThen (mapR f xs) (\<lambda>ys. Inr (y # ys)))"

section \<open>Maps in insertion order\<close>

text \<open>
  \<open>Map.prototype.set\<close> overwrites in place and appends a new key at the end, which is what
  \<open>AList.update\<close> does; iteration runs over the list.
\<close>

type_synonym ('k, 'v) jsmap = "('k \<times> 'v) list"

abbreviation mapGet :: "('k, 'v) jsmap \<Rightarrow> 'k \<Rightarrow> 'v option" where
  "mapGet m k \<equiv> map_of m k"

abbreviation mapSet :: "('k, 'v) jsmap \<Rightarrow> 'k \<Rightarrow> 'v \<Rightarrow> ('k, 'v) jsmap" where
  "mapSet m k v \<equiv> AList.update k v m"

abbreviation mapValues :: "('k, 'v) jsmap \<Rightarrow> 'v list" where
  "mapValues m \<equiv> map snd m"

abbreviation mapKeys :: "('k, 'v) jsmap \<Rightarrow> 'k list" where
  "mapKeys m \<equiv> map fst m"

text \<open>\<open>[...new Set(xs)]\<close>: first occurrences in order.\<close>

definition uniq :: "'a list \<Rightarrow> 'a list" where
  "uniq xs = rev (remdups (rev xs))"

section \<open>Text\<close>

definition cval :: "char \<Rightarrow> nat" where
  "cval c = of_char c"

definition is_digit :: "char \<Rightarrow> bool" where
  "is_digit c \<longleftrightarrow> 48 \<le> cval c \<and> cval c \<le> 57"

definition is_lhex :: "char \<Rightarrow> bool" where
  "is_lhex c \<longleftrightarrow> is_digit c \<or> (97 \<le> cval c \<and> cval c \<le> 102)"

definition is_hex :: "char \<Rightarrow> bool" where
  "is_hex c \<longleftrightarrow> is_lhex c \<or> (65 \<le> cval c \<and> cval c \<le> 70)"

definition is_upper :: "char \<Rightarrow> bool" where
  "is_upper c \<longleftrightarrow> 65 \<le> cval c \<and> cval c \<le> 90"

definition is_lower :: "char \<Rightarrow> bool" where
  "is_lower c \<longleftrightarrow> 97 \<le> cval c \<and> cval c \<le> 122"

definition is_b64u :: "char \<Rightarrow> bool" where
  "is_b64u c \<longleftrightarrow> is_upper c \<or> is_lower c \<or> is_digit c \<or> c = CHR ''_'' \<or> c = CHR ''-''"

definition is_space :: "char \<Rightarrow> bool" where
  "is_space c \<longleftrightarrow> cval c = 32 \<or> (9 \<le> cval c \<and> cval c \<le> 13) \<or> cval c = 160"

definition to_lower :: "char \<Rightarrow> char" where
  "to_lower c = (if is_upper c then char_of (cval c + 32) else c)"

definition to_upper :: "char \<Rightarrow> char" where
  "to_upper c = (if is_lower c then char_of (cval c - 32) else c)"

abbreviation toLowerCase :: "string \<Rightarrow> string" where
  "toLowerCase s \<equiv> map to_lower s"

abbreviation toUpperCase :: "string \<Rightarrow> string" where
  "toUpperCase s \<equiv> map to_upper s"

definition trim :: "string \<Rightarrow> string" where
  "trim s = rev (dropWhile is_space (rev (dropWhile is_space s)))"

definition startsWith :: "string \<Rightarrow> string \<Rightarrow> bool" where
  "startsWith s p \<longleftrightarrow> take (length p) s = p"

definition padStart :: "nat \<Rightarrow> string \<Rightarrow> string" where
  "padStart n s = replicate (n - length s) (CHR ''0'') @ s"

definition padEnd :: "nat \<Rightarrow> string \<Rightarrow> string" where
  "padEnd n s = s @ replicate (n - length s) (CHR ''0'')"

text \<open>\<open>String.prototype.split\<close> and \<open>Array.prototype.join\<close> at a one-character separator.\<close>

fun split_on :: "char \<Rightarrow> string \<Rightarrow> string list" where
  "split_on c [] = [[]]"
| "split_on c (x # xs) =
     (if x = c then [] # split_on c xs
      else (case split_on c xs of [] \<Rightarrow> [[x]] | y # ys \<Rightarrow> (x # y) # ys))"

fun join :: "char \<Rightarrow> string list \<Rightarrow> string" where
  "join c [] = []"
| "join c [x] = x"
| "join c (x # y # zs) = x @ c # join c (y # zs)"

text \<open>Decimal text of integers: \<open>String(n)\<close> and \<open>BigInt(text)\<close> on digit strings.\<close>

definition digit_char :: "nat \<Rightarrow> char" where
  "digit_char d = char_of (48 + d)"

definition digit_val :: "char \<Rightarrow> nat" where
  "digit_val c = cval c - 48"

fun show_nat :: "nat \<Rightarrow> string" where
  "show_nat n = (if n < 10 then [digit_char n] else show_nat (n div 10) @ [digit_char (n mod 10)])"

declare show_nat.simps [simp del]

definition read_nat :: "string \<Rightarrow> nat" where
  "read_nat s = foldl (\<lambda>a c. 10 * a + digit_val c) 0 s"

definition show_int :: "int \<Rightarrow> string" where
  "show_int n = (if n < 0 then CHR ''-'' # show_nat (nat (- n)) else show_nat (nat n))"

definition bigInt :: "string \<Rightarrow> int" where
  "bigInt s = int (read_nat s)"

definition digits :: "string \<Rightarrow> bool" where
  "digits s \<longleftrightarrow> s \<noteq> [] \<and> list_all is_digit s"

text \<open>\<open>[1-9][0-9]{lo,hi}\<close>: \<open>posDigits lo hi\<close>.\<close>

definition posDigits :: "nat \<Rightarrow> nat \<Rightarrow> string \<Rightarrow> bool" where
  "posDigits lo hi s \<longleftrightarrow>
     (case s of [] \<Rightarrow> False
      | c # cs \<Rightarrow> is_digit c \<and> c \<noteq> CHR ''0'' \<and> list_all is_digit cs \<and> lo \<le> length cs \<and> length cs \<le> hi)"

definition re_uint :: "string \<Rightarrow> bool" where
  "re_uint s \<longleftrightarrow> s = ''0'' \<or> posDigits 0 39 s"

definition re_posint :: "string \<Rightarrow> bool" where
  "re_posint s \<longleftrightarrow> posDigits 0 39 s"

definition re_seconds :: "string \<Rightarrow> bool" where
  "re_seconds s \<longleftrightarrow> posDigits 8 10 s"

definition re_uuid :: "string \<Rightarrow> bool" where
  "re_uuid s \<longleftrightarrow> length s = 36 \<and>
     list_all (\<lambda>(i, c). if i = 8 \<or> i = 13 \<or> i = 18 \<or> i = 23 then c = CHR ''-'' else is_lhex c)
       (List.enumerate 0 s)"

definition re_hexn :: "nat \<Rightarrow> string \<Rightarrow> bool" where
  "re_hexn n s \<longleftrightarrow> length s = n \<and> list_all is_lhex s"

definition is_alnum :: "char \<Rightarrow> bool" where
  "is_alnum c \<longleftrightarrow> is_upper c \<or> is_lower c \<or> is_digit c"

text \<open>\<open>[\x21-\x7e]\<close>\<close>

definition is_graph :: "char \<Rightarrow> bool" where
  "is_graph c \<longleftrightarrow> 33 \<le> cval c \<and> cval c \<le> 126"

text \<open>\<open>check(ok, field)\<close>: throws unless the condition holds.\<close>

definition checkThat :: "exn \<Rightarrow> bool \<Rightarrow> unit res" where
  "checkThat e ok = (if ok then Inr () else Inl e)"

text \<open>Bytes: \<open>Buffer\<close> and \<open>Uint8Array\<close>; \<open>TextEncoder\<close> on one-byte characters.\<close>

type_synonym bytes = "8 word list"

definition utf8 :: "string \<Rightarrow> bytes" where
  "utf8 s = map of_char s"

text \<open>\<open>String.prototype.length\<close> counts UTF-16 units; strings here are their UTF-8 bytes.\<close>

definition utf16Length :: "string \<Rightarrow> nat" where
  "utf16Length s = sum_list (map (\<lambda>c. if 128 \<le> cval c \<and> cval c < 192 then 0 else if 240 \<le> cval c then 2 else 1) s)"

definition nibble_char :: "nat \<Rightarrow> char" where
  "nibble_char n = (if n < 10 then char_of (48 + n) else char_of (87 + n))"

definition hexEncode :: "bytes \<Rightarrow> string" where
  "hexEncode bs = concat (map (\<lambda>b. [nibble_char (unat b div 16), nibble_char (unat b mod 16)]) bs)"

section \<open>Lemmas: exceptions\<close>

lemma andThen_Inl [simp, exn_simps]: "andThen (Inl e) f = Inl e"
  by (simp add: andThen_def)

lemma andThen_Inr [simp, exn_simps]: "andThen (Inr x) f = f x"
  by (simp add: andThen_def)

lemma andThen_eq_Inr [exn_simps]: "andThen m f = Inr y \<longleftrightarrow> (\<exists>x. m = Inr x \<and> f x = Inr y)"
  by (cases m) simp_all

lemma andThen_eq_Inl [exn_simps]:
  "andThen m f = Inl e \<longleftrightarrow> m = Inl e \<or> (\<exists>x. m = Inr x \<and> f x = Inl e)"
  by (cases m) auto

lemma andThen_assoc: "andThen (andThen m f) g = andThen m (\<lambda>x. andThen (f x) g)"
  by (cases m) simp_all

lemma andThen_cong [fundef_cong]:
  "m = m' \<Longrightarrow> (\<And>x. m' = Inr x \<Longrightarrow> f x = f' x) \<Longrightarrow> andThen m f = andThen m' f'"
  by (cases m') auto

lemma ex_unit: "(\<exists>u :: unit. P u) \<longleftrightarrow> P ()"
  by (metis (full_types) old.unit.exhaust)

lemma if_Inl_eq_Inr [exn_simps]: "(if b then Inl e else m) = Inr y \<longleftrightarrow> \<not> b \<and> m = Inr y"
  by simp

lemma checkThat_True [simp]: "checkThat e True = Inr ()"
  by (simp add: checkThat_def)

lemma checkThat_eq_Inr [simp, exn_simps]: "checkThat e b = Inr u \<longleftrightarrow> b"
  by (simp add: checkThat_def)

lemma checkThat_eq_Inl [exn_simps]: "checkThat e b = Inl f \<longleftrightarrow> \<not> b \<and> f = e"
  by (auto simp: checkThat_def)

lemma mapR_length: "mapR f xs = Inr ys \<Longrightarrow> length ys = length xs"
  by (induction xs arbitrary: ys) (auto simp: exn_simps)

lemma mapR_nth: "mapR f xs = Inr ys \<Longrightarrow> i < length xs \<Longrightarrow> f (xs ! i) = Inr (ys ! i)"
  by (induction xs arbitrary: ys i) (auto simp: exn_simps nth_Cons split: nat.splits)

lemma mapR_set: "mapR f xs = Inr ys \<Longrightarrow> y \<in> set ys \<Longrightarrow> \<exists>x\<in>set xs. f x = Inr y"
  by (induction xs arbitrary: ys) (auto simp: exn_simps)

lemma div_lt_int:
  fixes m n q :: int
  assumes "0 < q" "m < n * q"
  shows "m div q < n"
proof (rule ccontr)
  assume "\<not> m div q < n"
  then have "n * q \<le> (m div q) * q" using assms(1) by (intro mult_right_mono) simp_all
  moreover have "(m div q) * q \<le> m" using div_mult_mod_eq [of m q] pos_mod_sign [OF assms(1), of m] by linarith
  ultimately show False using assms(2) by simp
qed

section \<open>Lemmas: maps and sets\<close>

lemma mapGet_mapSet [simp]:
  "mapGet (mapSet m k v) x = (if x = k then Some v else mapGet m x)"
  by (simp add: update_conv')

lemma distinct_mapKeys_mapSet: "distinct (mapKeys m) \<Longrightarrow> distinct (mapKeys (mapSet m k v))"
  by (rule distinct_update)

lemma set_mapKeys_mapSet [simp]: "set (mapKeys (mapSet m k v)) = insert k (set (mapKeys m))"
  by (induction m) auto

lemma mapSet_fresh: "k \<notin> set (mapKeys m) \<Longrightarrow> mapSet m k v = m @ [(k, v)]"
  by (induction m) auto

lemma mapGet_None_iff: "mapGet m k = None \<longleftrightarrow> k \<notin> set (mapKeys m)"
  by (metis map_of_eq_None_iff set_map)

lemma mapGet_mem: "mapGet m k = Some v \<Longrightarrow> (k, v) \<in> set m"
  by (rule map_of_SomeD)

lemma mapGet_iff_mem: "distinct (mapKeys m) \<Longrightarrow> (k, v) \<in> set m \<longleftrightarrow> mapGet m k = Some v"
  by simp

lemma set_mapSet_subset: "set (mapSet m k v) \<subseteq> insert (k, v) (set m)"
  by (induction m) auto

lemma set_uniq [simp]: "set (uniq xs) = set xs"
  by (simp add: uniq_def)

lemma distinct_uniq [simp]: "distinct (uniq xs)"
  by (simp add: uniq_def)

lemma uniq_distinct: "distinct xs \<Longrightarrow> uniq xs = xs"
  by (simp add: uniq_def distinct_remdups_id)

section \<open>Lemmas: split and join\<close>

lemma split_on_ne [simp]: "split_on c s \<noteq> []"
  by (induction s) (auto split: list.splits)

lemma split_on_append_sep: "c \<notin> set x \<Longrightarrow> split_on c (x @ c # s) = x # split_on c s"
  by (induction x) auto

lemma split_on_no_sep: "c \<notin> set x \<Longrightarrow> split_on c x = [x]"
  by (induction x) auto

lemma split_on_join [text_simps]:
  "xs \<noteq> [] \<Longrightarrow> (\<forall>x\<in>set xs. c \<notin> set x) \<Longrightarrow> split_on c (join c xs) = xs"
  by (induction c xs rule: join.induct) (auto simp: split_on_append_sep split_on_no_sep)

lemma join_split_on [text_simps]: "join c (split_on c s) = s"
proof (induction s)
  case Nil
  then show ?case by simp
next
  case (Cons x s)
  obtain y ys where "split_on c s = y # ys"
    by (cases "split_on c s") auto
  with Cons show ?case
    by (cases ys) auto
qed

lemma split_on_no_sep_mem: "x \<in> set (split_on c s) \<Longrightarrow> c \<notin> set x"
  by (induction s arbitrary: x) (auto split: if_splits list.splits)

lemma set_split_on: "x \<in> set (split_on c s) \<Longrightarrow> set x \<subseteq> set s"
  by (induction s arbitrary: x) (fastforce split: if_splits list.splits)+

lemma set_join: "set (join c xs) \<subseteq> insert c (\<Union> (set ` set xs))"
  by (induction c xs rule: join.induct) auto

lemma join_inj:
  assumes "join c xs = join c ys" "xs \<noteq> []" "ys \<noteq> []"
    and "\<forall>x\<in>set xs. c \<notin> set x" "\<forall>y\<in>set ys. c \<notin> set y"
  shows "xs = ys"
  by (metis assms split_on_join)

section \<open>Lemmas: decimal text\<close>

lemma cval_digit_char [simp]: "d < 10 \<Longrightarrow> cval (digit_char d) = 48 + d"
  by (simp add: cval_def digit_char_def)

lemma digit_val_char [simp]: "d < 10 \<Longrightarrow> digit_val (digit_char d) = d"
  by (simp add: digit_val_def)

lemma is_digit_char [simp]: "d < 10 \<Longrightarrow> is_digit (digit_char d)"
  by (simp add: is_digit_def)

lemma digit_char_val [simp]: "is_digit c \<Longrightarrow> digit_char (digit_val c) = c"
  by (simp add: is_digit_def digit_char_def digit_val_def cval_def)

lemma digit_val_lt [simp]: "is_digit c \<Longrightarrow> digit_val c < 10"
  by (auto simp: is_digit_def digit_val_def)

lemma digit_char_0_iff [simp]: "d < 10 \<Longrightarrow> digit_char d = CHR ''0'' \<longleftrightarrow> d = 0"
proof -
  assume d: "d < 10"
  have "digit_char 0 = CHR ''0''" by (simp add: digit_char_def char_of_def bit_iff_odd)
  moreover have "digit_char d = digit_char 0 \<Longrightarrow> d = 0"
    using digit_val_char [OF d] digit_val_char [of 0] by simp
  ultimately show ?thesis by auto
qed

lemma digit_val_0_iff [simp]: "is_digit c \<Longrightarrow> digit_val c = 0 \<longleftrightarrow> c = CHR ''0''"
  by (metis digit_char_0_iff digit_char_val digit_val_lt)

lemma digit_val_pos: "is_digit c \<Longrightarrow> c \<noteq> CHR ''0'' \<Longrightarrow> 0 < digit_val c"
  by (metis digit_val_0_iff gr0I)

lemma read_nat_snoc [simp]: "read_nat (s @ [c]) = 10 * read_nat s + digit_val c"
  by (simp add: read_nat_def)

lemma read_nat_Nil [simp]: "read_nat [] = 0"
  by (simp add: read_nat_def)

lemma read_nat_Cons: "read_nat (c # s) = digit_val c * 10 ^ length s + read_nat s"
proof (induction s rule: rev_induct)
  case Nil
  then show ?case by (simp add: read_nat_def)
next
  case (snoc x s)
  have "read_nat (c # s @ [x]) = 10 * read_nat (c # s) + digit_val x"
    using read_nat_snoc [of "c # s" x] by simp
  with snoc show ?case by (simp add: algebra_simps)
qed

lemma read_nat_append: "read_nat (s @ t) = read_nat s * 10 ^ length t + read_nat t"
  by (induction s) (simp_all add: read_nat_Cons algebra_simps power_add)

lemma read_nat_replicate0 [simp]: "read_nat (replicate n (CHR ''0'')) = 0"
  by (induction n) (simp_all add: read_nat_Cons digit_val_def cval_def)

lemma read_nat_lt: "list_all is_digit s \<Longrightarrow> read_nat s < 10 ^ length s"
proof (induction s rule: rev_induct)
  case Nil
  then show ?case by simp
next
  case (snoc c s)
  then have "read_nat s < 10 ^ length s" "digit_val c < 10" by auto
  then have "10 * read_nat s + digit_val c < 10 * 10 ^ length s"
    by linarith
  then show ?case by simp
qed

lemma show_nat_digits: "list_all is_digit (show_nat n)"
  by (induction n rule: show_nat.induct) (subst show_nat.simps, auto)

lemma show_nat_ne [simp]: "show_nat n \<noteq> []"
  by (subst show_nat.simps) simp

lemma read_show_nat [simp, text_simps]: "read_nat (show_nat n) = n"
proof (induction n rule: show_nat.induct)
  case (1 n)
  then show ?case by (subst show_nat.simps) (auto simp: read_nat_Cons)
qed

lemma hd_show_nat: "0 < n \<Longrightarrow> hd (show_nat n) \<noteq> CHR ''0''"
proof (induction n rule: show_nat.induct)
  case (1 n)
  show ?case
  proof (cases "n < 10")
    case True
    with "1.prems" show ?thesis by (subst show_nat.simps) simp
  next
    case False
    then have "hd (show_nat (n div 10)) \<noteq> CHR ''0''" using 1 by simp
    with False show ?thesis by (subst show_nat.simps) (simp add: hd_append)
  qed
qed

lemma show_read_nat:
  "list_all is_digit s \<Longrightarrow> s \<noteq> [] \<Longrightarrow> s = ''0'' \<or> hd s \<noteq> CHR ''0'' \<Longrightarrow> show_nat (read_nat s) = s"
proof (induction s rule: rev_induct)
  case Nil
  then show ?case by simp
next
  case (snoc c s)
  show ?case
  proof (cases "s = []")
    case True
    with snoc.prems show ?thesis by (subst show_nat.simps) (simp add: read_nat_Cons)
  next
    case False
    with snoc.prems have hd: "hd s \<noteq> CHR ''0''" by auto
    from False obtain d ds where s: "s = d # ds" by (cases s) auto
    from snoc.prems s hd have "1 \<le> digit_val d" by (simp add: Suc_leI digit_val_pos)
    then have "1 \<le> read_nat s" using s by (simp add: read_nat_Cons trans_le_add1)
    moreover have "show_nat (read_nat s) = s" using snoc False hd by simp
    ultimately show ?thesis
      using snoc.prems by (subst show_nat.simps) auto
  qed
qed

lemma show_nat_length: "n < 10 ^ k \<Longrightarrow> 0 < k \<Longrightarrow> length (show_nat n) \<le> k"
proof (induction k arbitrary: n)
  case 0
  then show ?case by simp
next
  case (Suc k)
  show ?case
  proof (cases "n < 10")
    case True
    then show ?thesis by (subst show_nat.simps) simp
  next
    case False
    with Suc.prems have "0 < k" by (cases k) auto
    moreover have "n div 10 < 10 ^ k" using Suc.prems by (simp add: less_mult_imp_div_less mult.commute)
    ultimately have "length (show_nat (n div 10)) \<le> k" by (rule Suc.IH [rotated])
    with False show ?thesis by (subst show_nat.simps) simp
  qed
qed

lemma show_nat_cases:
  obtains c cs where "show_nat n = c # cs" "is_digit c" "list_all is_digit cs" "0 < n \<Longrightarrow> c \<noteq> CHR ''0''"
proof -
  obtain c cs where c: "show_nat n = c # cs" by (cases "show_nat n") auto
  with show_nat_digits [of n] hd_show_nat [of n] that show ?thesis by auto
qed

lemma posDigits_show_nat:
  assumes "0 < n" "n < 10 ^ Suc hi"
  shows "posDigits 0 hi (show_nat n)"
  using show_nat_length [OF assms(2)] assms(1) by (cases rule: show_nat_cases [of n]) (auto simp: posDigits_def)

lemma posDigits_show_read: "posDigits lo hi s \<Longrightarrow> show_nat (read_nat s) = s"
  by (rule show_read_nat) (auto simp: posDigits_def split: list.splits)

lemma posDigits_digits: "posDigits lo hi s \<Longrightarrow> list_all is_digit s"
  by (auto simp: posDigits_def split: list.splits)

lemma posDigits_read_pos: "posDigits lo hi s \<Longrightarrow> 0 < read_nat s"
  by (auto simp: posDigits_def read_nat_Cons digit_val_pos split: list.splits)

lemma re_uint_show_read: "re_uint s \<Longrightarrow> show_nat (read_nat s) = s"
  by (auto simp: re_uint_def posDigits_show_read intro: show_read_nat simp: is_digit_def cval_def)

lemma show_bigInt:
  "re_uint s \<Longrightarrow> show_int (bigInt s) = s" "re_posint s \<Longrightarrow> show_int (bigInt s) = s"
  "re_seconds s \<Longrightarrow> show_int (bigInt s) = s"
  by (simp_all add: show_int_def bigInt_def re_uint_show_read re_posint_def re_seconds_def
      posDigits_show_read)

lemma bigInt_show [simp, text_simps]: "0 \<le> n \<Longrightarrow> bigInt (show_int n) = n"
  by (simp add: show_int_def bigInt_def)

lemma bigInt_nonneg [simp]: "0 \<le> bigInt s"
  by (simp add: bigInt_def)

lemma re_posint_pos: "re_posint s \<Longrightarrow> 0 < bigInt s"
  by (simp add: re_posint_def bigInt_def posDigits_read_pos)

lemma re_posint_show: "0 < n \<Longrightarrow> n < 10 ^ 40 \<Longrightarrow> re_posint (show_int n)"
  using posDigits_show_nat [of "nat n" 39] by (simp add: re_posint_def show_int_def nat_less_iff)

lemma re_uint_show: "0 \<le> n \<Longrightarrow> n < 10 ^ 40 \<Longrightarrow> re_uint (show_int n)"
proof (cases "n = 0")
  case True
  then show ?thesis by (simp add: re_uint_def show_int_def) (subst show_nat.simps, simp)
next
  case False
  then show "0 \<le> n \<Longrightarrow> n < 10 ^ 40 \<Longrightarrow> re_uint (show_int n)"
    using re_posint_show [of n] by (simp add: re_uint_def re_posint_def)
qed

lemma show_int_inj: "0 \<le> m \<Longrightarrow> 0 \<le> n \<Longrightarrow> show_int m = show_int n \<Longrightarrow> m = n"
  by (metis bigInt_show)

lemma show_int_digits: "0 \<le> n \<Longrightarrow> list_all is_digit (show_int n)"
  by (simp add: show_int_def show_nat_digits)

lemma show_int_length: "0 \<le> n \<Longrightarrow> n < 10 ^ k \<Longrightarrow> 0 < k \<Longrightarrow> length (show_int n) \<le> k"
  using show_nat_length [of "nat n" k] by (simp add: show_int_def nat_less_iff)

lemma digit_not: "is_digit c \<Longrightarrow> \<not> is_digit d \<Longrightarrow> c \<noteq> d"
  by auto

lemma digits_no_char: "list_all is_digit s \<Longrightarrow> \<not> is_digit c \<Longrightarrow> c \<notin> set s"
  by (auto simp: list_all_iff)

lemma lhex_no_char: "list_all is_lhex s \<Longrightarrow> \<not> is_lhex c \<Longrightarrow> c \<notin> set s"
  by (auto simp: list_all_iff)

lemma char_class_eval [simp]:
  "\<not> is_digit (CHR ''|'')" "\<not> is_lhex (CHR ''|'')" "\<not> is_digit (CHR '','')"
  "\<not> is_lhex (CHR '','')" "\<not> is_digit (CHR ''-'')" "\<not> is_lhex (CHR ''-'')"
  by (simp_all add: is_lhex_def is_digit_def cval_def)

lemma cval_to_lower: "cval (to_lower c) = (if is_upper c then cval c + 32 else cval c)"
proof -
  have "is_upper c \<Longrightarrow> (cval c + 32) mod 256 = cval c + 32" by (simp add: is_upper_def)
  moreover have "cval (char_of n) = n mod 256" for n :: nat by (simp add: cval_def)
  ultimately show ?thesis by (simp add: to_lower_def)
qed

lemma re_uuid_chars: "re_uuid s \<Longrightarrow> x \<in> set s \<Longrightarrow> x = CHR ''-'' \<or> is_lhex x"
proof -
  assume u: "re_uuid s" and x: "x \<in> set s"
  from x obtain i where i: "i < length s" "x = s ! i" by (auto simp: in_set_conv_nth)
  then have "(i, x) \<in> set (List.enumerate 0 s)" by (simp add: in_set_enumerate_eq)
  with u show ?thesis by (auto simp: re_uuid_def list_all_iff split: if_splits)
qed

lemma re_uuid_ne [simp]: "re_uuid s \<Longrightarrow> s \<noteq> ''-''"
  by (auto simp: re_uuid_def)

lemma re_uuid_no_sep [simp]: "re_uuid s \<Longrightarrow> CHR ''|'' \<notin> set s"
  using re_uuid_chars by fastforce

lemma re_hexn_no_sep [simp]: "re_hexn n s \<Longrightarrow> CHR ''|'' \<notin> set s"
  by (simp add: re_hexn_def lhex_no_char)

section \<open>Evaluation\<close>

text \<open>
  Code equations over \<open>int\<close>, so that the kernel evaluates character classes and decimal text
  on binary numerals.
\<close>

lemma cval_int: "int (cval c) = of_char c"
  unfolding cval_def by (rule of_nat_of_char)

lemma is_digit_code [code]: "is_digit c \<longleftrightarrow> 48 \<le> (of_char c :: int) \<and> (of_char c :: int) \<le> 57"
  unfolding is_digit_def cval_int [symmetric] by linarith

lemma is_lhex_code [code]: "is_lhex c \<longleftrightarrow> is_digit c \<or> (97 \<le> (of_char c :: int) \<and> (of_char c :: int) \<le> 102)"
  unfolding is_lhex_def cval_int [symmetric] by linarith

lemma is_hex_code [code]: "is_hex c \<longleftrightarrow> is_lhex c \<or> (65 \<le> (of_char c :: int) \<and> (of_char c :: int) \<le> 70)"
  unfolding is_hex_def cval_int [symmetric] by linarith

lemma is_upper_code [code]: "is_upper c \<longleftrightarrow> 65 \<le> (of_char c :: int) \<and> (of_char c :: int) \<le> 90"
  unfolding is_upper_def cval_int [symmetric] by linarith

lemma is_lower_code [code]: "is_lower c \<longleftrightarrow> 97 \<le> (of_char c :: int) \<and> (of_char c :: int) \<le> 122"
  unfolding is_lower_def cval_int [symmetric] by linarith

lemma is_graph_code [code]: "is_graph c \<longleftrightarrow> 33 \<le> (of_char c :: int) \<and> (of_char c :: int) \<le> 126"
  unfolding is_graph_def cval_int [symmetric] by linarith

lemma is_space_code [code]:
  "is_space c \<longleftrightarrow> (of_char c :: int) = 32 \<or> (9 \<le> (of_char c :: int) \<and> (of_char c :: int) \<le> 13) \<or> (of_char c :: int) = 160"
  unfolding is_space_def cval_int [symmetric] by linarith

definition digit_int :: "char \<Rightarrow> int" where
  "digit_int c = max 0 (of_char c - 48)"

lemma digit_int: "digit_int c = int (digit_val c)"
  unfolding digit_int_def digit_val_def cval_int [symmetric] by linarith

lemma bigInt_code [code]: "bigInt s = foldl (\<lambda>a c. 10 * a + digit_int c) 0 s"
  unfolding bigInt_def by (induction s rule: rev_induct) (simp_all add: digit_int)

lemma read_nat_code [code]: "read_nat s = nat (bigInt s)"
  by (simp add: bigInt_def)

function show_pos :: "int \<Rightarrow> string" where
  "show_pos n = (if n < 10 then [char_of (48 + n)] else show_pos (n div 10) @ [char_of (48 + n mod 10)])"
  by pat_completeness auto
termination by (relation "measure nat") auto

declare show_pos.simps [simp del]

lemma char_of_int: "(char_of (int n) :: char) = char_of n"
  by (rule char_of_nat)

lemma show_pos_nat: "show_pos (int n) = show_nat n"
proof (induction n rule: show_nat.induct)
  case (1 n)
  have c: "(char_of (48 + int m) :: char) = digit_char m" for m
    using char_of_int [of "48 + m"] by (simp add: digit_char_def)
  show ?case
  proof (cases "n < 10")
    case True
    then show ?thesis by (subst show_pos.simps, subst show_nat.simps) (simp add: c)
  next
    case False
    with 1 show ?thesis
      by (subst show_pos.simps, subst show_nat.simps)
        (simp add: c [symmetric] zdiv_int zmod_int)
  qed
qed

lemma show_int_code [code]: "show_int n = (if n < 0 then CHR ''-'' # show_pos (- n) else show_pos n)"
proof (cases "n < 0")
  case True
  then show ?thesis using show_pos_nat [of "nat (- n)"] by (simp add: show_int_def)
next
  case False
  then show ?thesis using show_pos_nat [of "nat n"] by (simp add: show_int_def)
qed

lemma show_nat_code [code]: "show_nat n = show_pos (int n)"
  by (simp add: show_pos_nat)

section \<open>Interfaces\<close>

text \<open>
  A step function with an invariant: the contract every component with state offers its
  clients. The invariant holds at the start and every step keeps it, so it holds after any
  sequence of steps.
\<close>

locale step_invariant =
  fixes step :: "'s \<Rightarrow> 'e \<Rightarrow> 's" and inv :: "'s \<Rightarrow> bool" and start :: 's
  assumes inv_start: "inv start"
    and inv_step: "inv s \<Longrightarrow> inv (step s e)"
begin

lemma inv_run_from: "inv s \<Longrightarrow> inv (foldl step s es)"
  by (induction es arbitrary: s) (auto intro: inv_step)

lemma inv_run: "inv (foldl step start es)"
  by (rule inv_run_from [OF inv_start])

end

text \<open>
  A codec with one canonical text per value: what \<open>encode\<close> writes for a value of the domain,
  \<open>decode\<close> reads back, and \<open>decode\<close> accepts a text only if it is the one \<open>encode\<close> writes.
\<close>

locale canonical_codec =
  fixes encode :: "'a \<Rightarrow> exn + 'b" and decode :: "'b \<Rightarrow> exn + 'a" and dom :: "'a \<Rightarrow> bool"
  assumes decode_encode: "dom x \<Longrightarrow> encode x = Inr t \<Longrightarrow> decode t = Inr x"
    and encode_decode: "decode t = Inr x \<Longrightarrow> encode x = Inr t"
    and decode_dom: "decode t = Inr x \<Longrightarrow> dom x"
begin

lemma encode_inj: "dom x \<Longrightarrow> dom y \<Longrightarrow> encode x = Inr t \<Longrightarrow> encode y = Inr t \<Longrightarrow> x = y"
  by (metis decode_encode sum.inject(2))

lemma decode_inj: "decode t = Inr x \<Longrightarrow> decode u = Inr x \<Longrightarrow> t = u"
  by (metis encode_decode sum.inject(2))

lemma decode_iff: "decode t = Inr x \<longleftrightarrow> dom x \<and> encode x = Inr t"
  using decode_encode encode_decode decode_dom by blast

end

end
