(* ===== verification/Networks.thy ===== *)
theory Networks
  imports Prelude
begin

text \<open>
  \<open>lib/wallet/core/networks.ts\<close>, \<open>assets.ts\<close> and \<open>address.ts\<close>: the fixed tables of networks and
  assets, the licence rules for client funds, and the check of destination addresses. Network
  and asset names stay strings, as in the source, because policies and intents arrive as JSON
  and carry names the tables may not know; a lookup of an unknown name is \<open>None\<close>.

  The record \<open>lib\<close> collects what the source imports from packages outside the repository
  (\<open>@noble\<close>, \<open>@scure\<close>, \<open>micro-eth-signer\<close>) and from \<open>node:crypto\<close>; every definition that calls
  them takes it as an argument.
\<close>

section \<open>Functions from outside the repository\<close>

text \<open>
  Two entries stand for the platform: \<open>unicodeText\<close> for the Unicode tables behind
  \<open>/^[\p{L}\p{N}\p{P}\p{Zs}]+$/u\<close>, \<open>urlHostname\<close> for \<open>new URL(text).hostname\<close>.
\<close>

text \<open>
  A previous Bitcoin transaction as \<open>Transaction.fromRaw\<close> delivers it: its id and \<open>getOutput\<close>,
  which may throw or return \<open>undefined\<close>, with script and amount where the output has them.
\<close>

record prevTx =
  prevId :: string
  prevGet :: "int \<Rightarrow> (bytes option \<times> int option) option res"

text \<open>The transactions handed to the signing libraries and what they return.\<close>

record btcTx =
  txInputs :: "(string \<times> int \<times> bytes \<times> int) list"
  txOutputs :: "(string + bytes) list"
  txAmounts :: "int list"

record btcSigned =
  bsRaw :: string
  bsId :: string
  bsVsize :: int
  bsFee :: int

record ethTx =
  etChainId :: int
  etNonce :: int
  etTo :: string
  etValue :: int
  etData :: string
  etGasLimit :: int
  etMaxFeePerGas :: int
  etMaxPriorityFeePerGas :: int

record ethSigned =
  esRaw :: string
  esHash :: string
  esSender :: string
  esVerified :: bool

type_synonym hdkey = bytes

record lib =
  unicodeText :: "string \<Rightarrow> bool"
  urlHostname :: "string \<Rightarrow> string"
  sha256 :: "bytes \<Rightarrow> bytes"
  hmac256 :: "bytes \<Rightarrow> bytes \<Rightarrow> bytes"
  ecVerify :: "bytes \<Rightarrow> bytes \<Rightarrow> bytes \<Rightarrow> bool option"
  btcDecode :: "bool \<Rightarrow> string \<Rightarrow> bool"
  ethIsValid :: "string \<Rightarrow> bool"
  ethAddChecksum :: "string \<Rightarrow> string"
  ethFromPrivate :: "bytes \<Rightarrow> string"
  btcFromRaw :: "string \<Rightarrow> prevTx option"
  p2wpkhScript :: "bool \<Rightarrow> bytes \<Rightarrow> bytes"
  p2wpkhAddress :: "bool \<Rightarrow> bytes \<Rightarrow> string"
  btcSign :: "btcTx \<Rightarrow> bytes list \<Rightarrow> btcSigned option"
  ethSign :: "ethTx \<Rightarrow> bytes \<Rightarrow> ethSigned option"
  ethFromPublic :: "bytes \<Rightarrow> string"
  b58Decode :: "string \<Rightarrow> bytes option"
  b58Encode :: "bytes \<Rightarrow> string"
  mnemonic :: "bytes \<Rightarrow> string"
  mnemonicEntropy :: "string \<Rightarrow> bytes option"
  hdMaster :: "bool \<Rightarrow> string \<Rightarrow> hdkey"
  hdFingerprint :: "hdkey \<Rightarrow> nat"
  hdDerive :: "hdkey \<Rightarrow> string \<Rightarrow> hdkey"
  hdChild :: "hdkey \<Rightarrow> int \<Rightarrow> hdkey"
  hdPrivate :: "hdkey \<Rightarrow> bytes option"
  hdPublic :: "hdkey \<Rightarrow> bytes option"
  hdXpub :: "hdkey \<Rightarrow> string"
  hdFromXpub :: "string \<Rightarrow> nat \<Rightarrow> nat \<Rightarrow> hdkey option"
  hdDepth :: "hdkey \<Rightarrow> int"
  secpSelfTest :: "bytes \<Rightarrow> bytes \<Rightarrow> bytes \<Rightarrow> bool"
  aesSeal :: "bytes \<Rightarrow> bytes \<Rightarrow> bytes \<Rightarrow> bytes \<Rightarrow> bytes \<times> bytes"
  aesOpen :: "bytes \<Rightarrow> bytes \<Rightarrow> bytes \<Rightarrow> bytes \<Rightarrow> bytes \<Rightarrow> bytes option"

section \<open>Networks\<close>

definition WALLET_NETWORKS :: "string list" where
  "WALLET_NETWORKS = [''bitcoin_signet'', ''bitcoin_mainnet'', ''ethereum_sepolia'', ''ethereum_mainnet'']"

datatype chain = Bitcoin | Ethereum

datatype finality = Confirmations int | Finalized

record networkInfo =
  chain :: chain
  live :: bool
  netLabel :: string
  bech32 :: "string option"
  chainId :: "int option"
  netFinality :: finality

definition NETWORKS :: "string \<Rightarrow> networkInfo option" where
  "NETWORKS n =
     (if n = ''bitcoin_signet'' then
        Some \<lparr>chain = Bitcoin, live = False, netLabel = ''Bitcoin Signet (Testnetz)'', bech32 = Some ''tb'',
              chainId = None, netFinality = Confirmations 1\<rparr>
      else if n = ''bitcoin_mainnet'' then
        Some \<lparr>chain = Bitcoin, live = True, netLabel = ''Bitcoin'', bech32 = Some ''bc'',
              chainId = None, netFinality = Confirmations 3\<rparr>
      else if n = ''ethereum_sepolia'' then
        Some \<lparr>chain = Ethereum, live = False, netLabel = ''Ethereum Sepolia (Testnetz)'', bech32 = None,
              chainId = Some 11155111, netFinality = Finalized\<rparr>
      else if n = ''ethereum_mainnet'' then
        Some \<lparr>chain = Ethereum, live = True, netLabel = ''Ethereum'', bech32 = None,
              chainId = Some 1, netFinality = Finalized\<rparr>
      else None)"

definition isWalletNetwork :: "string \<Rightarrow> bool" where
  "isWalletNetwork v \<longleftrightarrow> v \<in> set WALLET_NETWORKS"

definition networksOf :: "chain \<Rightarrow> string list" where
  "networksOf c = filter (\<lambda>n. map_option chain (NETWORKS n) = Some c) WALLET_NETWORKS"

text \<open>\<open>NETWORKS[n].live\<close> raises a \<open>TypeError\<close> on an unknown name.\<close>

definition networkLive :: "string \<Rightarrow> bool res" where
  "networkLive n = (case NETWORKS n of None \<Rightarrow> Inl TypeErr | Some i \<Rightarrow> Inr (live i))"

definition networkAllowed :: "string \<Rightarrow> bool \<Rightarrow> bool res" where
  "networkAllowed n liveEnabled = andThen (networkLive n) (\<lambda>l. Inr (\<not> l \<or> liveEnabled))"

definition clientFundsAllowed :: "string \<Rightarrow> bool \<Rightarrow> bool \<Rightarrow> bool \<Rightarrow> bool res" where
  "clientFundsAllowed n caspLicensed zagLicensed emt =
     andThen (networkLive n) (\<lambda>l.
       if \<not> l then Inr True
       else if \<not> caspLicensed then Inr False
       else Inr (\<not> emt \<or> zagLicensed))"

section \<open>Assets\<close>

datatype assetKind = Native | Erc20

record assetInfo =
  code :: string
  assetName :: string
  decimals :: nat
  kindOf :: assetKind
  emt :: bool
  contract :: "string option"

definition BTC :: assetInfo where
  "BTC = \<lparr>code = ''BTC'', assetName = ''Bitcoin'', decimals = 8, kindOf = Native, emt = False, contract = None\<rparr>"

definition ETH :: assetInfo where
  "ETH = \<lparr>code = ''ETH'', assetName = ''Ether'', decimals = 18, kindOf = Native, emt = False, contract = None\<rparr>"

definition USDC_sepolia :: assetInfo where
  "USDC_sepolia = \<lparr>code = ''USDC'', assetName = ''USD Coin (Test)'', decimals = 6, kindOf = Erc20, emt = True,
     contract = Some ''0x1c7D4B196Cb0C7B01d743Fbc6116a902379C7238''\<rparr>"

definition EURC_sepolia :: assetInfo where
  "EURC_sepolia = \<lparr>code = ''EURC'', assetName = ''Euro Coin (Test)'', decimals = 6, kindOf = Erc20, emt = True,
     contract = Some ''0x08210F9170F89Ab7658F0B5E3fF39b0E03C594D4''\<rparr>"

definition USDC_mainnet :: assetInfo where
  "USDC_mainnet = \<lparr>code = ''USDC'', assetName = ''USD Coin'', decimals = 6, kindOf = Erc20, emt = True,
     contract = Some ''0xA0b86991c6218b36c1d19D4a2e9Eb0cE3606eB48''\<rparr>"

definition EURC_mainnet :: assetInfo where
  "EURC_mainnet = \<lparr>code = ''EURC'', assetName = ''Euro Coin'', decimals = 6, kindOf = Erc20, emt = True,
     contract = Some ''0x1aBaEA1f7C830bD89Acc67eC4af516284b1bC33c''\<rparr>"

definition ASSETS :: "string \<Rightarrow> assetInfo list option" where
  "ASSETS n =
     (if n = ''bitcoin_signet'' \<or> n = ''bitcoin_mainnet'' then Some [BTC]
      else if n = ''ethereum_sepolia'' then Some [ETH, USDC_sepolia, EURC_sepolia]
      else if n = ''ethereum_mainnet'' then Some [ETH, USDC_mainnet, EURC_mainnet]
      else None)"

definition assetsFor :: "string \<Rightarrow> assetInfo list option" where
  "assetsFor n = ASSETS n"

text \<open>\<open>ASSETS[network].find(...)\<close> raises a \<open>TypeError\<close> on an unknown network.\<close>

definition assetOf :: "string \<Rightarrow> string \<Rightarrow> assetInfo option res" where
  "assetOf n c = (case ASSETS n of None \<Rightarrow> Inl TypeErr | Some as \<Rightarrow> Inr (List.find (\<lambda>a. code a = c) as))"

definition assetByContract :: "string \<Rightarrow> string \<Rightarrow> assetInfo option res" where
  "assetByContract n con =
     (case ASSETS n of None \<Rightarrow> Inl TypeErr
      | Some as \<Rightarrow> Inr (List.find (\<lambda>a. map_option toLowerCase (contract a) = Some (toLowerCase con)) as))"

section \<open>Addresses\<close>

datatype addressCheck = AddrOk string | AddrErr string

definition re_ethAddress :: "string \<Rightarrow> bool" where
  "re_ethAddress s \<longleftrightarrow> length s = 42 \<and> startsWith s ''0x'' \<and> list_all is_hex (drop 2 s)"

definition checkAddress :: "lib \<Rightarrow> string \<Rightarrow> string \<Rightarrow> addressCheck res" where
  "checkAddress L network raw =
     (let value = trim raw in
      case NETWORKS network of
        None \<Rightarrow> Inl TypeErr
      | Some info \<Rightarrow>
          if chain info = Bitcoin then
            (let mainnet = (bech32 info = Some ''bc''); lower = toLowerCase value;
                 hrp = (case bech32 info of None \<Rightarrow> ''undefined'' | Some h \<Rightarrow> h) in
             if btcDecode L mainnet value
             then Inr (AddrOk (if startsWith lower (hrp @ ''1'') then lower else value))
             else if btcDecode L (\<not> mainnet) value then Inr (AddrErr ''network'')
             else Inr (AddrErr ''format''))
          else if \<not> re_ethAddress value then Inr (AddrErr ''format'')
          else
            (let body = drop 2 value;
                 mixed = (body \<noteq> toLowerCase body \<and> body \<noteq> toUpperCase body) in
             if mixed \<and> \<not> ethIsValid L value then Inr (AddrErr ''checksum'')
             else Inr (AddrOk (ethAddChecksum L (toLowerCase value)))))"

definition sameAddress :: "string \<Rightarrow> string \<Rightarrow> string \<Rightarrow> bool res" where
  "sameAddress network a b =
     (case NETWORKS network of None \<Rightarrow> Inl TypeErr
      | Some info \<Rightarrow> Inr (if chain info = Ethereum then toLowerCase a = toLowerCase b else a = b))"

text \<open>A destination in the normal form that \<open>checkAddress\<close> returns for it.\<close>

definition normalAddress :: "lib \<Rightarrow> string \<Rightarrow> string \<Rightarrow> bool" where
  "normalAddress L network d \<longleftrightarrow> checkAddress L network d = Inr (AddrOk d)"

section \<open>Lemmas\<close>

lemma networks_unknown: "NETWORKS n = None \<longleftrightarrow> n \<notin> set WALLET_NETWORKS"
  by (simp add: NETWORKS_def WALLET_NETWORKS_def)

lemma networks_known: "(\<exists>i. NETWORKS n = Some i) \<longleftrightarrow> n \<in> set WALLET_NETWORKS"
  using networks_unknown [of n] by (metis option.exhaust option.simps(3))

lemma assets_unknown: "ASSETS n = None \<longleftrightarrow> n \<notin> set WALLET_NETWORKS"
  by (simp add: ASSETS_def WALLET_NETWORKS_def)

lemma assets_known: "(\<exists>as. ASSETS n = Some as) \<longleftrightarrow> n \<in> set WALLET_NETWORKS"
  using assets_unknown [of n] by (metis option.exhaust option.simps(3))

lemma networkLive_total: "n \<in> set WALLET_NETWORKS \<Longrightarrow> \<exists>b. networkLive n = Inr b"
  using networks_unknown [of n] by (cases "NETWORKS n") (simp_all add: networkLive_def)

lemma network_no_sep: "n \<in> set WALLET_NETWORKS \<Longrightarrow> CHR ''|'' \<notin> set n \<and> n \<noteq> []"
  by (auto simp: WALLET_NETWORKS_def)

lemma chainId_ethereum:
  "NETWORKS n = Some i \<Longrightarrow> (chain i = Ethereum \<longleftrightarrow> chainId i \<noteq> None)"
  by (auto simp: NETWORKS_def split: if_splits)

lemma chainId_pos: "NETWORKS n = Some i \<Longrightarrow> chainId i = Some c \<Longrightarrow> 0 < c"
  by (auto simp: NETWORKS_def split: if_splits)

lemma asset_codes:
  "code BTC = ''BTC''" "code ETH = ''ETH''" "code USDC_sepolia = ''USDC''" "code EURC_sepolia = ''EURC''"
  "code USDC_mainnet = ''USDC''" "code EURC_mainnet = ''EURC''"
  by (simp_all add: BTC_def ETH_def USDC_sepolia_def EURC_sepolia_def USDC_mainnet_def EURC_mainnet_def)

lemma asset_no_sep: "assetOf n c = Inr (Some a) \<Longrightarrow> code a = c \<and> c \<in> {''BTC'', ''ETH'', ''USDC'', ''EURC''}"
  by (auto simp: assetOf_def ASSETS_def asset_codes split: if_splits)

lemma asset_contract: "assetOf n c = Inr (Some a) \<Longrightarrow> (kindOf a = Erc20 \<longleftrightarrow> contract a \<noteq> None)"
  by (auto simp: assetOf_def ASSETS_def BTC_def ETH_def USDC_sepolia_def EURC_sepolia_def USDC_mainnet_def EURC_mainnet_def
      split: if_splits)

lemma sameAddress_refl: "n \<in> set WALLET_NETWORKS \<Longrightarrow> sameAddress n a a = Inr True"
  by (auto simp: sameAddress_def networks_known [symmetric])

text \<open>
  Stablecoins held for clients on a live network need both licences; on test networks
  nothing does.
\<close>

lemma clientFundsAllowed_iff:
  "clientFundsAllowed n casp zag e = Inr True \<longleftrightarrow>
     networkLive n = Inr False \<or> (networkLive n = Inr True \<and> casp \<and> (e \<longrightarrow> zag))"
  by (auto simp: clientFundsAllowed_def exn_simps split: if_splits)

lemma assetByContract_case:
  "toLowerCase c = toLowerCase d \<Longrightarrow> assetByContract n c = assetByContract n d"
  by (simp add: assetByContract_def split: option.split)

section \<open>A concrete library\<close>

text \<open>
  An executable stand-in for the outside functions, on which the hypotheses about them can
  be checked and witnesses evaluated. It is no cryptography: hashes are short folds, signatures
  constants. No theorem depends on it other than the witnesses.
\<close>

definition demoHash :: "bytes \<Rightarrow> bytes" where
  "demoHash bs = replicate 30 0 @ [foldl (\<lambda>a b. 3 * a + b) 1 bs, foldl (\<lambda>a b. 5 * a + b) 7 bs]"

definition demoLib :: lib where
  "demoLib = \<lparr>unicodeText = (\<lambda>s. s \<noteq> []), urlHostname = drop 8, sha256 = demoHash, hmac256 = (\<lambda>k m. demoHash (k @ m)), ecVerify = (\<lambda>k m s. Some True),
     btcDecode = (\<lambda>m s. startsWith s (if m then ''bc1'' else ''tb1'') \<and> list_all is_alnum s),
     ethIsValid = (\<lambda>s. True), ethAddChecksum = (\<lambda>s. s), ethFromPrivate = (\<lambda>k. ''0x'' @ padStart 40 (hexEncode (demoHash k))),
     btcFromRaw = (\<lambda>h. Some \<lparr>prevId = take 64 h, prevGet = (\<lambda>i. if i = 0 then Inr (Some (Some (utf8 ''pub''), Some 50000)) else Inr None)\<rparr>),
     p2wpkhScript = (\<lambda>m pub. utf8 ''pub''), p2wpkhAddress = (\<lambda>m pub. ''tb1'' @ hexEncode (demoHash pub)),
     btcSign = (\<lambda>tx ks. Some \<lparr>bsRaw = ''00'', bsId = padStart 64 (show_nat (length (txInputs tx))), bsVsize = 150,
        bsFee = sum_list (map (\<lambda>(a, b, c, v). v) (txInputs tx)) - sum_list (txAmounts tx)\<rparr>),
     ethSign = (\<lambda>tx k. Some \<lparr>esRaw = ''02'', esHash = ''ab'' @ show_int (etNonce tx), esSender = ''0x'' @ padStart 40 (hexEncode (demoHash k)),
        esVerified = True\<rparr>),
     ethFromPublic = (\<lambda>k. ''0x'' @ padStart 40 (hexEncode (demoHash k))), b58Decode = (\<lambda>s. Some (utf8 s)), b58Encode = (\<lambda>b. map (\<lambda>w. char_of (unat w)) b),
     mnemonic = hexEncode, mnemonicEntropy = (\<lambda>s. None),
     hdMaster = (\<lambda>t m. utf8 m), hdFingerprint = (\<lambda>k. length k), hdDerive = (\<lambda>k p. k @ utf8 p),
     hdChild = (\<lambda>k i. of_int i # k), hdPrivate = Some, hdPublic = Some, hdXpub = hexEncode,
     hdFromXpub = (\<lambda>s a b. Some (utf8 s)), hdDepth = (\<lambda>k. 3),
     secpSelfTest = (\<lambda>m a b. True), aesSeal = (\<lambda>k iv a p. (p, [])), aesOpen = (\<lambda>k iv a c t. Some c)\<rparr>"

end
