(* ===== verification/Amount.thy ===== *)
theory Amount
  imports Networks
begin

text \<open>
  \<open>lib/wallet/core/amount.ts\<close>: amounts in base units as decimal text. \<open>formatAmount\<close> and
  \<open>parseAmount\<close> are inverse on non-negative amounts; the German display form cuts digits off and
  never shows more than there is.
\<close>

text \<open>\<open>/^(\d{1,30})(?:[.,](\d{1,36}))?$/\<close>: whole and fraction (empty when absent).\<close>

definition amountPattern :: "string \<Rightarrow> (string \<times> string) option" where
  "amountPattern s =
     (let whole = takeWhile is_digit s; rest = dropWhile is_digit s in
      if whole = [] \<or> length whole > 30 then None
      else case rest of [] \<Rightarrow> Some (whole, [])
        | c # fr \<Rightarrow>
            if (c = CHR ''.'' \<or> c = CHR '','') \<and> fr \<noteq> [] \<and> list_all is_digit fr \<and> length fr \<le> 36
            then Some (whole, fr) else None)"

definition parseAmount :: "string \<Rightarrow> nat \<Rightarrow> bool \<Rightarrow> int res" where
  "parseAmount raw dec allowZero =
     (case amountPattern (trim raw) of None \<Rightarrow> Inl (AmountError ''format'')
      | Some (whole, fr) \<Rightarrow>
          if length fr > dec then Inl (AmountError ''precision'')
          else let value = bigInt whole * 10 ^ dec + bigInt (padEnd dec fr) in
               if value = 0 \<and> \<not> allowZero then Inl (AmountError ''zero'') else Inr value)"

definition isAmount :: "string \<Rightarrow> nat \<Rightarrow> bool" where
  "isAmount raw dec = (case parseAmount raw dec False of Inl _ \<Rightarrow> False | Inr _ \<Rightarrow> True)"

text \<open>\<open>.replace(/0+$/, "")\<close>\<close>

definition stripZeros :: "string \<Rightarrow> string" where
  "stripZeros s = rev (dropWhile (\<lambda>c. c = CHR ''0'') (rev s))"

definition formatAmount :: "int \<Rightarrow> nat \<Rightarrow> string" where
  "formatAmount base dec =
     (let neg = base < 0; a = \<bar>base\<bar>; u = 10 ^ dec; whole = a div u;
          fr = stripZeros (padStart dec (show_int (a mod u))) in
      (if neg then ''-'' else []) @ show_int whole @ (if fr = [] then [] else CHR ''.'' # fr))"

text \<open>Thousands separators: a dot before every group of three digits that is not the first.\<close>

fun groupDots :: "string \<Rightarrow> string" where
  "groupDots [] = []"
| "groupDots (c # cs) = c # (if cs \<noteq> [] \<and> length cs mod 3 = 0 then CHR ''.'' # groupDots cs else groupDots cs)"

definition formatAmountDe :: "int \<Rightarrow> nat \<Rightarrow> nat \<Rightarrow> string" where
  "formatAmountDe base dec maxFraction =
     (let canonical = formatAmount base dec; neg = startsWith canonical ''-'';
          parts = split_on (CHR ''.'') (if neg then drop 1 canonical else canonical);
          w = parts ! 0; f = (if length parts > 1 then parts ! 1 else []);
          fr = stripZeros (take maxFraction f) in
      (if neg then ''-'' else []) @ groupDots w @ (if fr = [] then [] else CHR '','' # fr))"

definition sumAmounts :: "int list \<Rightarrow> int" where
  "sumAmounts values = foldl (+) 0 values"

section \<open>Lemmas\<close>

lemma stripZeros_decomp: "\<exists>n. s = stripZeros s @ replicate n (CHR ''0'')"
proof -
  have "rev s = takeWhile (\<lambda>c. c = CHR ''0'') (rev s) @ rev (stripZeros s)"
    by (simp add: stripZeros_def)
  moreover have "takeWhile (\<lambda>c. c = CHR ''0'') (rev s) = replicate (length (takeWhile (\<lambda>c. c = CHR ''0'') (rev s))) (CHR ''0'')"
    by (rule replicate_length_same [symmetric]) (auto dest: set_takeWhileD)
  ultimately have "s = stripZeros s @ rev (replicate (length (takeWhile (\<lambda>c. c = CHR ''0'') (rev s))) (CHR ''0''))"
    by (metis rev_append rev_rev_ident)
  then show ?thesis by auto
qed

lemma stripZeros_length: "length (stripZeros s) \<le> length s"
  using length_dropWhile_le [of "\<lambda>c. c = CHR ''0''" "rev s"] by (simp add: stripZeros_def)

lemma stripZeros_digits: "list_all is_digit s \<Longrightarrow> list_all is_digit (stripZeros s)"
  using stripZeros_decomp [of s] by (metis list_all_append)

lemma padEnd_stripZeros: "length s = n \<Longrightarrow> padEnd n (stripZeros s) = s"
proof -
  assume n: "length s = n"
  obtain k where k: "s = stripZeros s @ replicate k (CHR ''0'')" using stripZeros_decomp by blast
  then have "length s = length (stripZeros s) + k" by (metis length_append length_replicate)
  with n have "n - length (stripZeros s) = k" by simp
  with k show ?thesis unfolding padEnd_def by metis
qed

lemma is_digit_0: "is_digit (CHR ''0'')"
  by (simp add: is_digit_def cval_def)

lemma padStart_digits: "list_all is_digit s \<Longrightarrow> list_all is_digit (padStart n s)"
  by (auto simp: padStart_def list_all_iff is_digit_0)

lemma read_padStart: "read_nat (padStart n s) = read_nat s"
  by (simp add: padStart_def read_nat_append)

lemma length_padStart: "length s \<le> n \<Longrightarrow> length (padStart n s) = n"
  by (simp add: padStart_def)

text \<open>The fraction digits: \<open>dec\<close> digits whose value is the remainder; none when \<open>dec = 0\<close>.\<close>

definition fracDigits :: "int \<Rightarrow> nat \<Rightarrow> string" where
  "fracDigits a dec = padStart dec (show_int (a mod 10 ^ dec))"

lemma fracDigits_ok:
  assumes "0 \<le> a"
  shows "list_all is_digit (fracDigits a dec)" "bigInt (fracDigits a dec) = a mod 10 ^ dec"
    "0 < dec \<Longrightarrow> length (fracDigits a dec) = dec"
proof -
  let ?r = "a mod 10 ^ dec"
  have r: "0 \<le> ?r" "?r < 10 ^ dec" by simp_all
  show "list_all is_digit (fracDigits a dec)" using r by (simp add: fracDigits_def padStart_digits show_int_digits)
  have "bigInt (padStart dec (show_int ?r)) = bigInt (show_int ?r)" by (simp add: bigInt_def read_padStart)
  then show "bigInt (fracDigits a dec) = ?r" using r by (simp add: fracDigits_def)
  assume "0 < dec"
  then have "length (show_int ?r) \<le> dec" by (rule show_int_length [OF r])
  then show "length (fracDigits a dec) = dec" by (simp add: fracDigits_def length_padStart)
qed

text \<open>The canonical form, read apart.\<close>

lemma formatAmount_nonneg:
  assumes "0 \<le> a"
  shows "formatAmount a dec = show_int (a div 10 ^ dec) @
    (if stripZeros (fracDigits a dec) = [] then [] else CHR ''.'' # stripZeros (fracDigits a dec))"
  using assms by (simp add: formatAmount_def fracDigits_def Let_def)

lemma takeWhile_digits_append:
  "list_all is_digit w \<Longrightarrow> (\<And>c r. t = c # r \<Longrightarrow> \<not> is_digit c) \<Longrightarrow> takeWhile is_digit (w @ t) = w \<and> dropWhile is_digit (w @ t) = t"
  by (induction w) (auto simp: neq_Nil_conv, (cases t; simp)+)

lemma not_digit_seps: "\<not> is_digit (CHR ''.'')" "\<not> is_digit (CHR '','')"
  by (simp_all add: is_digit_def cval_def)

lemma amountPattern_parts:
  assumes "list_all is_digit w" "w \<noteq> []" "length w \<le> 30" "list_all is_digit f" "length f \<le> 36"
    and "c = CHR ''.'' \<or> c = CHR '',''"
  shows "amountPattern (w @ (if f = [] then [] else c # f)) = Some (w, f)"
proof -
  let ?t = "if f = [] then [] else c # f"
  have "\<not> is_digit c" using assms(6) not_digit_seps by auto
  then have "takeWhile is_digit (w @ ?t) = w \<and> dropWhile is_digit (w @ ?t) = ?t"
    by (intro takeWhile_digits_append [OF assms(1)]) (auto split: if_splits)
  with assms show ?thesis by (simp add: amountPattern_def Let_def)
qed

lemma trim_no_space: "list_all (\<lambda>c. \<not> is_space c) s \<Longrightarrow> trim s = s"
proof -
  have d: "list_all (\<lambda>c. \<not> is_space c) t \<Longrightarrow> dropWhile is_space t = t" for t by (cases t) auto
  assume "list_all (\<lambda>c. \<not> is_space c) s"
  moreover from this have "list_all (\<lambda>c. \<not> is_space c) (rev s)" by (simp add: list_all_iff)
  ultimately show ?thesis using d by (simp add: trim_def)
qed

lemma digit_not_space: "is_digit c \<Longrightarrow> \<not> is_space c"
  by (auto simp: is_digit_def is_space_def)

lemma trim_amount:
  assumes "list_all is_digit w" "list_all is_digit f" "c = CHR ''.'' \<or> c = CHR '',''"
  shows "trim (w @ (if f = [] then [] else c # f)) = w @ (if f = [] then [] else c # f)"
proof (rule trim_no_space)
  have "\<not> is_space c" using assms(3) by (auto simp: is_space_def cval_def)
  with assms show "list_all (\<lambda>c. \<not> is_space c) (w @ (if f = [] then [] else c # f))"
    by (auto simp: list_all_iff digit_not_space)
qed

lemma parseAmount_parts:
  assumes "list_all is_digit w" "w \<noteq> []" "length w \<le> 30" "list_all is_digit f" "length f \<le> 36"
    "c = CHR ''.'' \<or> c = CHR '',''" "length f \<le> dec"
  shows "parseAmount (w @ (if f = [] then [] else c # f)) dec True = Inr (bigInt w * 10 ^ dec + bigInt (padEnd dec f))"
  using trim_amount [OF assms(1,4,6)] amountPattern_parts [OF assms(1-6)] assms(7) by (simp add: parseAmount_def Let_def)

lemma show_whole:
  assumes "0 \<le> w" "w < 10 ^ 30"
  shows "list_all is_digit (show_int w)" "show_int w \<noteq> []" "length (show_int w) \<le> 30"
proof -
  show "length (show_int w) \<le> 30" by (rule show_int_length [OF assms]) simp
  show "list_all is_digit (show_int w)" using assms(1) by (rule show_int_digits)
  show "show_int w \<noteq> []" using assms(1) by (simp add: show_int_def)
qed

lemma padEnd_frac:
  assumes "0 \<le> a"
  shows "bigInt (padEnd dec (stripZeros (fracDigits a dec))) = a mod 10 ^ dec"
proof (cases "dec = 0")
  case True
  have "stripZeros ''0'' = []" by (simp add: stripZeros_def)
  moreover have "show_int 0 = ''0''" by code_simp
  ultimately show ?thesis using True by (simp add: fracDigits_def padStart_def padEnd_def bigInt_def)
next
  case False
  then have "padEnd dec (stripZeros (fracDigits a dec)) = fracDigits a dec"
    using fracDigits_ok(3) [OF assms, of dec] by (intro padEnd_stripZeros) simp
  then show ?thesis using fracDigits_ok(2) [OF assms, of dec] by simp
qed

lemma frac_strip:
  assumes "0 \<le> a"
  shows "list_all is_digit (stripZeros (fracDigits a dec))" "length (stripZeros (fracDigits a dec)) \<le> dec"
proof -
  show "list_all is_digit (stripZeros (fracDigits a dec))"
    by (rule stripZeros_digits [OF fracDigits_ok(1) [OF assms]])
  show "length (stripZeros (fracDigits a dec)) \<le> dec"
  proof (cases "dec = 0")
    case True
    have "stripZeros ''0'' = []" by (simp add: stripZeros_def)
    moreover have "show_int 0 = ''0''" by code_simp
    ultimately show ?thesis using True by (simp add: fracDigits_def padStart_def)
  next
    case False
    then show ?thesis using fracDigits_ok(3) [OF assms, of dec] stripZeros_length by (metis gr0I)
  qed
qed

lemma parse_formatAmount:
  assumes "0 \<le> a" "a < 10 ^ (30 + dec)" "dec \<le> 36"
  shows "parseAmount (formatAmount a dec) dec True = Inr a"
proof -
  have w: "0 \<le> a div 10 ^ dec" "a div 10 ^ dec < 10 ^ 30"
    using assms(1,2) div_lt_int [of "10 ^ dec" a "10 ^ 30"] by (simp_all add: pos_imp_zdiv_nonneg_iff power_add)
  show ?thesis
    unfolding formatAmount_nonneg [OF assms(1)]
    using parseAmount_parts [OF show_whole [OF w] frac_strip(1) [OF assms(1)], of dec "CHR ''.''" dec]
      frac_strip(2) [OF assms(1), of dec] assms(3) padEnd_frac [OF assms(1), of dec] w(1)
    by (simp add: div_mult_mod_eq)
qed

section \<open>The German display form\<close>

lemma filter_groupDots: "CHR ''.'' \<notin> set s \<Longrightarrow> filter (\<lambda>c. c \<noteq> CHR ''.'') (groupDots s) = s"
  by (induction s rule: groupDots.induct) (auto simp: filter_id_conv)

lemma digits_no_dot: "list_all is_digit s \<Longrightarrow> CHR ''.'' \<notin> set s"
  using digits_no_char [of s "CHR ''.''"] not_digit_seps by blast

lemma split_formatAmount:
  assumes "0 \<le> a"
  shows "split_on (CHR ''.'') (formatAmount a dec) =
    (if stripZeros (fracDigits a dec) = [] then [show_int (a div 10 ^ dec)]
     else [show_int (a div 10 ^ dec), stripZeros (fracDigits a dec)])"
proof -
  have "0 \<le> a div 10 ^ dec" using assms by (simp add: pos_imp_zdiv_nonneg_iff)
  then have w: "CHR ''.'' \<notin> set (show_int (a div 10 ^ dec))" by (intro digits_no_dot show_int_digits)
  have f: "CHR ''.'' \<notin> set (stripZeros (fracDigits a dec))" by (intro digits_no_dot frac_strip [OF assms])
  show ?thesis
    unfolding formatAmount_nonneg [OF assms] using w f by (simp add: split_on_append_sep split_on_no_sep)
qed

lemma formatAmount_no_minus: "0 \<le> a \<Longrightarrow> \<not> startsWith (formatAmount a dec) ''-''"
proof -
  assume a: "0 \<le> a"
  then have "0 \<le> a div 10 ^ dec" by (simp add: pos_imp_zdiv_nonneg_iff)
  then have "list_all is_digit (show_int (a div 10 ^ dec))" "show_int (a div 10 ^ dec) \<noteq> []"
    by (simp_all add: show_int_digits) (simp add: show_int_def)
  then show ?thesis unfolding formatAmount_nonneg [OF a]
    by (cases "show_int (a div 10 ^ dec)") (auto simp: startsWith_def)
qed

lemma formatAmountDe_parts:
  assumes "0 \<le> a"
  shows "filter (\<lambda>c. c \<noteq> CHR ''.'') (formatAmountDe a dec k) = show_int (a div 10 ^ dec) @
    (let f = stripZeros (take k (stripZeros (fracDigits a dec))) in if f = [] then [] else CHR '','' # f)"
proof -
  have "0 \<le> a div 10 ^ dec" using assms by (simp add: pos_imp_zdiv_nonneg_iff)
  then have w: "CHR ''.'' \<notin> set (show_int (a div 10 ^ dec))" by (intro digits_no_dot show_int_digits)
  let ?f = "stripZeros (take k (stripZeros (fracDigits a dec)))"
  have "list_all is_digit (take k (stripZeros (fracDigits a dec)))"
    using frac_strip(1) [OF assms, of dec] by (auto simp: list_all_iff dest: in_set_takeD)
  then have f: "CHR ''.'' \<notin> set ?f" by (intro digits_no_dot stripZeros_digits)
  have e: "stripZeros [] = []" by (simp add: stripZeros_def)
  have ff: "filter (\<lambda>c. c \<noteq> CHR ''.'') ?f = ?f" using f by (intro filter_True) auto
  show ?thesis
    using formatAmount_no_minus [OF assms, of dec] w
    by (simp add: formatAmountDe_def Let_def split_formatAmount [OF assms] filter_groupDots e ff)
qed

lemma padEnd_zeros: "length s + j \<le> n \<Longrightarrow> padEnd n (s @ replicate j (CHR ''0'')) = padEnd n s"
  by (simp add: padEnd_def flip: replicate_add)

lemma padEnd_strip: "length s \<le> n \<Longrightarrow> padEnd n (stripZeros s) = padEnd n s"
proof -
  assume n: "length s \<le> n"
  obtain j where j: "s = stripZeros s @ replicate j (CHR ''0'')" using stripZeros_decomp by blast
  then have "length (stripZeros s) + j = length s" by (metis length_append length_replicate)
  with n have "padEnd n (stripZeros s @ replicate j (CHR ''0'')) = padEnd n (stripZeros s)"
    by (intro padEnd_zeros) simp
  with j show ?thesis by metis
qed

lemma padEnd_take_strip:
  assumes "length s \<le> n"
  shows "padEnd n (take k (stripZeros s)) = padEnd n (take k s)"
proof -
  obtain j where j: "s = stripZeros s @ replicate j (CHR ''0'')" using stripZeros_decomp by blast
  then have l: "length (stripZeros s) + j = length s" by (metis length_append length_replicate)
  have "take k s = take k (stripZeros s) @ replicate (min (k - length (stripZeros s)) j) (CHR ''0'')"
    using arg_cong [OF j, of "take k"] by (simp add: take_replicate)
  then show ?thesis using l assms by (simp add: padEnd_zeros)
qed

lemma bigInt_padEnd: "length s \<le> n \<Longrightarrow> bigInt (padEnd n s) = bigInt s * 10 ^ (n - length s)"
  by (simp add: padEnd_def bigInt_def read_nat_append)

lemma bigInt_take:
  assumes "list_all is_digit s" "k \<le> length s"
  shows "bigInt (take k s) = bigInt s div 10 ^ (length s - k)"
proof -
  have "read_nat s = read_nat (take k s) * 10 ^ (length s - k) + read_nat (drop k s)"
    using read_nat_append [of "take k s" "drop k s"] by simp
  moreover have "read_nat (drop k s) < 10 ^ (length s - k)"
    using read_nat_lt [of "drop k s"] assms(1) by (auto simp: list_all_iff dest: in_set_dropD)
  ultimately have "read_nat (take k s) = read_nat s div 10 ^ (length s - k)" by simp
  then show ?thesis by (simp add: bigInt_def zdiv_int)
qed

lemma displayed_frac:
  assumes "0 \<le> a" "k \<le> dec"
  shows "bigInt (padEnd dec (stripZeros (take k (stripZeros (fracDigits a dec))))) =
    (a mod 10 ^ dec) div 10 ^ (dec - k) * 10 ^ (dec - k)"
proof (cases "dec = 0")
  case True
  then have e: "stripZeros (fracDigits a dec) = []" using frac_strip(2) [OF assms(1), of dec] by simp
  show ?thesis unfolding e using True by (simp add: stripZeros_def padEnd_def bigInt_def)
next
  case False
  let ?F = "fracDigits a dec"
  have F: "list_all is_digit ?F" "length ?F = dec" "bigInt ?F = a mod 10 ^ dec"
    using fracDigits_ok [OF assms(1), of dec] False by simp_all
  have len: "length (take k (stripZeros ?F)) \<le> dec"
    using stripZeros_length [of ?F] F(2) by simp
  have "padEnd dec (stripZeros (take k (stripZeros ?F))) = padEnd dec (take k ?F)"
    using padEnd_strip [OF len] padEnd_take_strip [of ?F dec k] F(2) by simp
  moreover have "bigInt (padEnd dec (take k ?F)) = bigInt (take k ?F) * 10 ^ (dec - k)"
    using bigInt_padEnd [of "take k ?F" dec] F(2) assms(2) by (simp add: min_absorb2)
  moreover have "bigInt (take k ?F) = a mod 10 ^ dec div 10 ^ (dec - k)"
    using bigInt_take [OF F(1), of k] F(2,3) assms(2) by simp
  ultimately show ?thesis by simp
qed

lemma cut_off_bounds:
  fixes a u v :: int
  assumes "0 < u" "0 < v"
  shows "a div u * u + (a mod u) div v * v \<le> a \<and> a < a div u * u + (a mod u) div v * v + v"
  using div_mult_mod_eq [of a u] div_mult_mod_eq [of "a mod u" v] pos_mod_sign [OF assms(2), of "a mod u"]
    pos_mod_bound [OF assms(2), of "a mod u"] by linarith

text \<open>
  Amounts survive their text: the canonical text of a non-negative amount with at most 30
  digits before the point reads back as the same amount.
\<close>

theorem amount_roundtrip:
  assumes "0 \<le> a" "a < 10 ^ (30 + dec)" "dec \<le> 36"
  shows "parseAmount (formatAmount a dec) dec True = Inr a"
  using assms by (rule parse_formatAmount)

theorem amount_roundtrip_witness:
  "formatAmount 50000000 8 = ''0.5'' \<and> parseAmount (formatAmount 50000000 8) 8 True = Inr 50000000"
proof -
  have "formatAmount 50000000 8 = ''0.5''" by code_simp
  moreover have "parseAmount (formatAmount 50000000 8) 8 True = Inr 50000000"
    by (rule amount_roundtrip) simp_all
  ultimately show ?thesis by blast
qed

text \<open>
  A balance is never displayed larger than it is: read back without its thousands
  separators, the German display form with at most \<open>k\<close> fraction digits is an amount that is at most
  the balance and less than one unit of its last displayed digit below it.
\<close>

theorem display_cuts_off:
  assumes "0 \<le> a" "a < 10 ^ (30 + dec)" "dec \<le> 36" "k \<le> dec"
  shows "\<exists>v. parseAmount (filter (\<lambda>c. c \<noteq> CHR ''.'') (formatAmountDe a dec k)) dec True = Inr v \<and>
    v \<le> a \<and> a < v + 10 ^ (dec - k)"
proof -
  let ?f = "stripZeros (take k (stripZeros (fracDigits a dec)))"
  have w: "0 \<le> a div 10 ^ dec" "a div 10 ^ dec < 10 ^ 30"
    using assms(1,2) div_lt_int [of "10 ^ dec" a "10 ^ 30"] by (simp_all add: pos_imp_zdiv_nonneg_iff power_add)
  have f: "list_all is_digit ?f"
    using frac_strip(1) [OF assms(1), of dec] by (intro stripZeros_digits) (auto simp: list_all_iff dest: in_set_takeD)
  have "length ?f \<le> dec"
    using stripZeros_length [of "take k (stripZeros (fracDigits a dec))"] frac_strip(2) [OF assms(1), of dec] by simp
  then have "parseAmount (filter (\<lambda>c. c \<noteq> CHR ''.'') (formatAmountDe a dec k)) dec True =
      Inr (a div 10 ^ dec * 10 ^ dec + (a mod 10 ^ dec) div 10 ^ (dec - k) * 10 ^ (dec - k))"
    unfolding formatAmountDe_parts [OF assms(1)] Let_def
    using parseAmount_parts [OF show_whole [OF w] f, of "CHR '',''" dec] assms(3) w(1) displayed_frac [OF assms(1,4)]
    by simp
  with cut_off_bounds [of "10 ^ dec" "10 ^ (dec - k)" a] show ?thesis by simp
qed

theorem display_cuts_off_witness:
  "formatAmountDe 123456789999 8 2 = ''1.234,56'' \<and>
   (\<exists>v. parseAmount (filter (\<lambda>c. c \<noteq> CHR ''.'') (formatAmountDe 123456789999 8 2)) 8 True = Inr v \<and>
    v \<le> 123456789999 \<and> 123456789999 < v + 10 ^ (8 - 2))"
proof -
  have "formatAmountDe 123456789999 8 2 = ''1.234,56''" by code_simp
  moreover have "\<exists>v. parseAmount (filter (\<lambda>c. c \<noteq> CHR ''.'') (formatAmountDe 123456789999 8 2)) 8 True = Inr v \<and>
    v \<le> 123456789999 \<and> 123456789999 < v + 10 ^ (8 - 2)"
    by (rule display_cuts_off) simp_all
  ultimately show ?thesis by blast
qed

end
