(* ===== verification/Payout_Plan.thy ===== *)
theory Payout_Plan
  imports Networks "HOL-Library.Multiset"
begin

text \<open>
  \<open>lib/wallet/core/coin-select.ts\<close> and \<open>lib/wallet/payouts/plan.ts\<close>: the app's side of a payout,
  which chooses coins and fees so that the signer accepts the plan. Fee rates are JavaScript
  numbers; they are rationals here (the rounding of IEEE doubles is not modelled), and
  \<open>Math.ceil\<close> is the ceiling.
\<close>

definition DUST_P2WPKH :: int where
  "DUST_P2WPKH = 294"

record utxo =
  utxoTxid :: string
  utxoVout :: int
  utxoValue :: int
  utxoBranch :: int
  utxoIndex :: int

definition estimateVsize :: "int \<Rightarrow> int \<Rightarrow> int" where
  "estimateVsize inputs outputs = \<lceil>(21 / 2 :: rat) + 68 * of_int inputs + 31 * of_int outputs\<rceil>"

definition feeFor :: "int \<Rightarrow> rat \<Rightarrow> int" where
  "feeFor vsize satPerVb = \<lceil>of_int vsize * satPerVb\<rceil>"

datatype selection = Selected "utxo list" int int | SelError string

text \<open>The loop of \<open>selectCoins\<close> over the sorted coins, with \<open>picked\<close> and \<open>sum\<close>.\<close>

fun pickCoins :: "utxo list \<Rightarrow> int \<Rightarrow> rat \<Rightarrow> utxo list \<Rightarrow> int \<Rightarrow> selection" where
  "pickCoins [] amount rate picked acc = SelError ''insufficient''"
| "pickCoins (u # us) amount rate picked acc =
     (let picked' = picked @ [u]; acc' = acc + utxoValue u;
          withChange = feeFor (estimateVsize (int (length picked')) 2) rate;
          noChange = feeFor (estimateVsize (int (length picked')) 1) rate in
      if acc' \<ge> amount + withChange then
        (let change = acc' - amount - withChange in
         if change \<ge> DUST_P2WPKH then Selected picked' withChange change
         else Selected picked' (acc' - amount) 0)
      else if acc' \<ge> amount + noChange then Selected picked' (acc' - amount) 0
      else pickCoins us amount rate picked' acc')"

definition selectCoins :: "utxo list \<Rightarrow> int \<Rightarrow> rat \<Rightarrow> selection" where
  "selectCoins utxos amount rate =
     (if \<not> rate > 0 then SelError ''fee_rate''
      else pickCoins (sort_key (\<lambda>u. - utxoValue u) utxos) amount rate [] 0)"

section \<open>Planning\<close>

datatype payoutSpeed = Slow | Normal | Fast

definition SPEED_BLOCKS :: "payoutSpeed \<Rightarrow> int" where
  "SPEED_BLOCKS s = (case s of Slow \<Rightarrow> 6 | Normal \<Rightarrow> 3 | Fast \<Rightarrow> 1)"

definition btcFeeRate :: "rat option \<Rightarrow> payoutSpeed \<Rightarrow> rat \<Rightarrow> rat" where
  "btcFeeRate estimate speed cap =
     (let base = (case estimate of Some e \<Rightarrow> if e > 0 then e else 2 | None \<Rightarrow> 2);
          factor = (if speed = Fast then 3 / 2 else if speed = Slow then 4 / 5 else 1) in
      min cap (max 1 (of_int \<lceil>base * factor * 10\<rceil> / 10)))"

definition btcPerKvbToSatPerVb :: "string option \<Rightarrow> rat option" where
  "btcPerKvbToSatPerVb feerate =
     (case feerate of None \<Rightarrow> None
      | Some t \<Rightarrow> if t = [] then None
          else let parts = split_on (CHR ''.'') t; whole = parts ! 0;
                   fr = (if length parts > 1 then parts ! 1 else []);
                   sats = bigInt whole * 100000000 + bigInt (take 8 (padEnd 8 fr)) in
               Some (of_int sats / 1000))"

definition btcFeeCap :: "rat \<Rightarrow> int \<Rightarrow> rat \<Rightarrow> int" where
  "btcFeeCap rate inputs cap = feeFor (estimateVsize (max 1 inputs + 1) 2) (min cap (rate * 2))"

definition bumpBtcFee :: "int \<Rightarrow> int \<Rightarrow> int \<Rightarrow> int option" where
  "bumpBtcFee prevFee vsize feeCap =
     (let nxt = max (prevFee + (prevFee + 1) div 2) (prevFee + vsize + 1) in
      if nxt \<le> feeCap then Some nxt else None)"

record ethFeesT =
  maxFeePerGas :: int
  maxPriorityFeePerGas :: int

definition GWEI :: int where
  "GWEI = 1000000000"

definition ethFees :: "int \<Rightarrow> int \<Rightarrow> payoutSpeed \<Rightarrow> int \<Rightarrow> ethFeesT" where
  "ethFees nextBaseFee priorityFee speed capGwei =
     (let tipFloor = (if speed = Fast then GWEI else GWEI div 10);
          tip = (if priorityFee > tipFloor then priorityFee else tipFloor);
          priority = (if speed = Fast then tip * 2 else tip);
          cap = capGwei * GWEI;
          mx0 = nextBaseFee * 2 + priority;
          mx = (if mx0 > cap then cap else mx0) in
      \<lparr>maxFeePerGas = mx, maxPriorityFeePerGas = (if priority > mx then mx else priority)\<rparr>)"

definition bumpEthFees :: "ethFeesT \<Rightarrow> int \<Rightarrow> ethFeesT option" where
  "bumpEthFees prv capGwei =
     (let up = (\<lambda>v. (v * 125 + 99) div 100);
          nxt = \<lparr>maxFeePerGas = up (maxFeePerGas prv), maxPriorityFeePerGas = up (maxPriorityFeePerGas prv)\<rparr> in
      if maxFeePerGas nxt \<le> capGwei * GWEI then Some nxt else None)"

definition ETH_TRANSFER_GAS :: int where "ETH_TRANSFER_GAS = 21000"
definition MAX_TOKEN_GAS :: int where "MAX_TOKEN_GAS = 100000"

definition tokenGasLimit :: "int option \<Rightarrow> int" where
  "tokenGasLimit estimate =
     (case estimate of None \<Rightarrow> 80000
      | Some e \<Rightarrow> if e = 0 then 80000
          else let padded = (e * 12 + 9) div 10 in if padded > MAX_TOKEN_GAS then MAX_TOKEN_GAS else padded)"

definition outpoint :: "utxo \<Rightarrow> string" where
  "outpoint u = utxoTxid u @ CHR '':'' # show_int (utxoVout u)"

definition selectInputs :: "utxo list \<Rightarrow> int \<Rightarrow> rat \<Rightarrow> string list \<Rightarrow> selection" where
  "selectInputs utxos amount rate exclude =
     selectCoins (filter (\<lambda>u. outpoint u \<notin> set exclude) utxos) amount rate"

record intentViewT =
  vwCancelled :: bool
  vwVetoed :: bool
  vwApprovedAt :: "int option"
  vwExpiresAt :: int
  vwSigned :: bool
  vwSignUntil :: "int option"

datatype payoutStatus = AwaitingApproval | Approved | Signed | Broadcast | Cancelled | Expired

definition payoutStatusFromView :: "intentViewT \<Rightarrow> int \<Rightarrow> payoutStatus" where
  "payoutStatusFromView view nowSec =
     (if vwCancelled view \<or> vwVetoed view then Cancelled
      else if vwApprovedAt view \<noteq> None then
        (if \<not> vwSigned view \<and> (case vwSignUntil view of None \<Rightarrow> False | Some u \<Rightarrow> nowSec > u) then Expired
         else Approved)
      else if nowSec > vwExpiresAt view then Expired else AwaitingApproval)"

section \<open>Coin selection\<close>

lemma estimateVsize_eq: "estimateVsize i n = 11 + 68 * i + 31 * n"
proof -
  have "(21 / 2 :: rat) + 68 * of_int i + 31 * of_int n = 21 / 2 + of_int (68 * i + 31 * n)" by simp
  then have "estimateVsize i n = \<lceil>(21 / 2 :: rat)\<rceil> + (68 * i + 31 * n)"
    unfolding estimateVsize_def by (metis ceiling_add_of_int)
  moreover have "\<lceil>(21 / 2 :: rat)\<rceil> = 11" by (rule ceiling_unique) simp_all
  ultimately show ?thesis by simp
qed

lemma feeFor_mono: "0 < r \<Longrightarrow> v \<le> w \<Longrightarrow> feeFor v r \<le> feeFor w r"
  unfolding feeFor_def by (rule ceiling_mono) (simp add: mult_right_mono)

lemma feeFor_nonneg: "0 < r \<Longrightarrow> 0 \<le> v \<Longrightarrow> 0 \<le> feeFor v r"
proof -
  assume "0 < r" "0 \<le> v"
  then have "0 \<le> of_int v * r" by simp
  then have "(0::int) \<le> \<lceil>of_int v * r\<rceil>" by (metis ceiling_mono ceiling_zero)
  then show ?thesis by (simp add: feeFor_def)
qed

abbreviation valueOf :: "utxo list \<Rightarrow> int" where
  "valueOf us \<equiv> sum_list (map utxoValue us)"

text \<open>What a selection promises: a prefix of the sorted coins, conservation, a sufficient fee and no dust.\<close>

definition selectionOk :: "utxo list \<Rightarrow> utxo list \<Rightarrow> int \<Rightarrow> rat \<Rightarrow> utxo list \<Rightarrow> int \<Rightarrow> int \<Rightarrow> bool" where
  "selectionOk us picked amount rate ins fee change \<longleftrightarrow>
     (\<exists>ps qs. us = ps @ qs \<and> ins = picked @ ps \<and> ps \<noteq> []) \<and>
     valueOf ins = amount + fee + change \<and> (change = 0 \<or> DUST_P2WPKH \<le> change) \<and>
     feeFor (estimateVsize (int (length ins)) (if change = 0 then 1 else 2)) rate \<le> fee"

lemma pickCoins_Selected:
  assumes "pickCoins us amount rate picked acc = Selected ins fee change" "0 < rate" "acc = valueOf picked"
  shows "selectionOk us picked amount rate ins fee change"
  using assms
proof (induction us arbitrary: picked acc)
  case Nil
  then show ?case by simp
next
  case (Cons u us)
  let ?p = "picked @ [u]"
  define t wc nc where "t = acc + utxoValue u" and "wc = feeFor (estimateVsize (int (length ?p)) 2) rate"
    and "nc = feeFor (estimateVsize (int (length ?p)) 1) rate"
  note defs = this
  have le: "nc \<le> wc" unfolding defs by (rule feeFor_mono [OF Cons.prems(2)]) (simp add: estimateVsize_eq)
  have step: "(if t \<ge> amount + wc then
        (if t - amount - wc \<ge> DUST_P2WPKH then Selected ?p wc (t - amount - wc) else Selected ?p (t - amount) 0)
      else if t \<ge> amount + nc then Selected ?p (t - amount) 0
      else pickCoins us amount rate ?p t) = Selected ins fee change"
    using Cons.prems(1) unfolding defs by (simp only: pickCoins.simps Let_def)
  have here: "\<exists>ps qs. u # us = ps @ qs \<and> ?p = picked @ ps \<and> ps \<noteq> []"
    by (rule exI [of _ "[u]"]) simp
  consider (change) "amount + wc \<le> t" "DUST_P2WPKH \<le> t - amount - wc"
    | (exact) "amount + nc \<le> t" "\<not> (amount + wc \<le> t \<and> DUST_P2WPKH \<le> t - amount - wc)"
    | (more) "\<not> amount + wc \<le> t" "\<not> amount + nc \<le> t"
    using le by linarith
  then show ?case
  proof cases
    case change
    with step have "ins = ?p" "fee = wc" "change = t - amount - wc" by simp_all
    with change show ?thesis using Cons.prems(3) here by (simp add: selectionOk_def defs) (simp add: DUST_P2WPKH_def)
  next
    case exact
    with step have "ins = ?p" "fee = t - amount" "change = 0" by (auto split: if_splits)
    with exact show ?thesis using Cons.prems(3) here by (simp add: selectionOk_def defs)
  next
    case more
    with step have "pickCoins us amount rate ?p t = Selected ins fee change" by simp
    then have "selectionOk us ?p amount rate ins fee change"
      by (rule Cons.IH [OF _ Cons.prems(2)]) (simp add: Cons.prems(3) defs)
    then obtain ps qs where "us = ps @ qs" "ins = ?p @ ps" and r: "valueOf ins = amount + fee + change"
      "change = 0 \<or> DUST_P2WPKH \<le> change" "feeFor (estimateVsize (int (length ins)) (if change = 0 then 1 else 2)) rate \<le> fee"
      unfolding selectionOk_def by blast
    then have "\<exists>ps qs. u # us = ps @ qs \<and> ins = picked @ ps \<and> ps \<noteq> []"
      by (intro exI [of _ "u # ps"] exI [of _ qs]) simp
    with r show ?thesis unfolding selectionOk_def by blast
  qed
qed

text \<open>If coins are refused, no number of the largest coins pays for itself.\<close>

lemma pickCoins_SelError:
  assumes "pickCoins us amount rate picked acc = SelError e" "0 < k" "k \<le> length us"
  shows "acc + valueOf (take k us) < amount + feeFor (estimateVsize (int (length picked + k)) 1) rate"
  using assms
proof (induction us arbitrary: picked acc k)
  case Nil
  then show ?case by simp
next
  case (Cons u us)
  have no: "\<not> amount + feeFor (estimateVsize (int (length (picked @ [u]))) 1) rate \<le> acc + utxoValue u"
    and rest: "pickCoins us amount rate (picked @ [u]) (acc + utxoValue u) = SelError e"
    using Cons.prems(1) by (simp_all add: Let_def split: if_splits)
  show ?case
  proof (cases "k = 1")
    case True
    with no show ?thesis by (simp add: algebra_simps)
  next
    case False
    with Cons.prems have "0 < k - 1" "k - 1 \<le> length us" by auto
    from Cons.IH [OF rest this] Cons.prems(2) show ?thesis
      by (cases k) (simp_all add: algebra_simps)
  qed
qed

text \<open>The \<open>k\<close> largest numbers have the largest sum.\<close>

lemma sum_sub_le_take:
  fixes ys :: "int list"
  assumes "sorted_wrt (\<ge>) ys" "X \<subseteq># mset ys"
  shows "sum_mset X \<le> sum_list (take (size X) ys)"
  using assms
proof (induction ys arbitrary: X)
  case Nil
  then show ?case by simp
next
  case (Cons y ys)
  show ?case
  proof (cases "X = {#}")
    case False
    have le: "x \<le> y" if "x \<in># X" for x
      using Cons.prems mset_subset_eqD [OF Cons.prems(2) that] by auto
    obtain x where x: "x \<in># X" "X - {#x#} \<subseteq># mset ys"
    proof (cases "y \<in># X")
      case True
      then show ?thesis using that [of y] Cons.prems(2) by (simp add: subset_eq_diff_conv)
    next
      case False
      obtain x where "x \<in># X" using \<open>X \<noteq> {#}\<close> by blast
      moreover have "X \<subseteq># mset ys"
      proof (rule mset_subset_eqI)
        fix a
        show "count X a \<le> count (mset ys) a"
          using mset_subset_eq_count [OF Cons.prems(2), of a] False by (cases "a = y") (auto simp: not_in_iff)
      qed
      ultimately show ?thesis using that [of x] by (meson diff_subset_eq_self subset_mset.order_trans)
    qed
    have "sum_mset (X - {#x#}) \<le> sum_list (take (size (X - {#x#})) ys)"
      by (rule Cons.IH) (use Cons.prems(1) x(2) in auto)
    moreover have "sum_mset X = x + sum_mset (X - {#x#})" by (rule sum_mset.remove [OF x(1)])
    moreover have "size X = Suc (size (X - {#x#}))" by (metis insert_DiffM size_add_mset x(1))
    ultimately show ?thesis using le [OF x(1)] by simp
  qed simp
qed

lemma sorted_desc: "sorted_wrt (\<ge>) (map utxoValue (sort_key (\<lambda>u. - utxoValue u) us))"
  using sorted_sort_key [of "\<lambda>u. - utxoValue u" us] by (simp add: sorted_wrt_map sorted_wrt_iff_nth_less)

lemma selectCoins_insufficient:
  assumes "selectCoins us amount rate = SelError ''insufficient''" "mset xs \<subseteq># mset us" "xs \<noteq> []"
  shows "valueOf xs < amount + feeFor (estimateVsize (int (length xs)) 1) rate"
proof -
  let ?s = "sort_key (\<lambda>u. - utxoValue u) us"
  have p: "pickCoins ?s amount rate [] 0 = SelError ''insufficient''"
    using assms(1) by (simp add: selectCoins_def split: if_splits)
  have len: "length xs \<le> length ?s" using size_mset_mono [OF assms(2)] by simp
  have "mset (map utxoValue xs) \<subseteq># mset (map utxoValue ?s)"
    using image_mset_subseteq_mono [OF assms(2), of utxoValue] by simp
  from sum_sub_le_take [OF sorted_desc this] have "valueOf xs \<le> valueOf (take (length xs) ?s)"
    by (simp add: take_map sum_mset_sum_list del: mset_map)
  moreover have "valueOf (take (length xs) ?s) < amount + feeFor (estimateVsize (int (length xs)) 1) rate"
    using pickCoins_SelError [OF p, of "length xs"] len assms(3) by simp
  ultimately show ?thesis by linarith
qed

text \<open>
  C25. Coin selection: the coins it returns are coins of the wallet (none twice), their value is
  exactly amount plus fee plus change, the fee covers the estimated size at the given rate, and
  change is either absent or above the dust limit that the signer enforces.
\<close>

theorem selection_conserves_value:
  assumes "selectCoins us amount rate = Selected ins fee change"
  shows "mset ins \<subseteq># mset us \<and> ins \<noteq> [] \<and> valueOf ins = amount + fee + change \<and>
    feeFor (estimateVsize (int (length ins)) (if change = 0 then 1 else 2)) rate \<le> fee \<and>
    (change = 0 \<or> 294 \<le> change)"
proof -
  let ?s = "sort_key (\<lambda>u. - utxoValue u) us"
  have "0 < rate" "pickCoins ?s amount rate [] 0 = Selected ins fee change"
    using assms by (simp_all add: selectCoins_def split: if_splits)
  then have ok: "selectionOk ?s [] amount rate ins fee change" by (intro pickCoins_Selected) simp_all
  then obtain qs where q: "?s = ins @ qs" "ins \<noteq> []" by (auto simp: selectionOk_def)
  then have "mset us = mset ins + mset qs" by (metis mset_append mset_sort)
  with ok q show ?thesis by (simp add: selectionOk_def DUST_P2WPKH_def)
qed

definition demoCoins :: "utxo list" where
  "demoCoins = [\<lparr>utxoTxid = ''a'', utxoVout = 0, utxoValue = 1000, utxoBranch = 0, utxoIndex = 0\<rparr>,
     \<lparr>utxoTxid = ''b'', utxoVout = 1, utxoValue = 5000, utxoBranch = 0, utxoIndex = 1\<rparr>]"

theorem selection_conserves_value_witness:
  "\<exists>ins. selectCoins demoCoins 4000 1 = Selected ins 141 859 \<and> valueOf ins = 4000 + 141 + 859"
proof -
  have "selectCoins demoCoins 4000 1 = Selected [demoCoins ! 1] 141 859" by code_simp
  with selection_conserves_value [OF this] show ?thesis by blast
qed

text \<open>
  C37. Coin selection gives up only when it must: if it reports \<open>insufficient\<close>, no choice of
  coins of the wallet covers the amount and the fee of its own size.
\<close>

theorem insufficient_is_exact:
  assumes "selectCoins us amount rate = SelError ''insufficient''" "mset xs \<subseteq># mset us" "xs \<noteq> []"
  shows "valueOf xs < amount + feeFor (estimateVsize (int (length xs)) 1) rate"
  using assms by (rule selectCoins_insufficient)

theorem insufficient_is_exact_witness:
  "selectCoins demoCoins 6000 2 = SelError ''insufficient'' \<and>
   valueOf demoCoins < 6000 + feeFor (estimateVsize (int (length demoCoins)) 1) 2"
proof -
  have "selectCoins demoCoins 6000 2 = SelError ''insufficient''" by code_simp
  with insufficient_is_exact [OF this, of demoCoins] show ?thesis by (simp add: demoCoins_def)
qed

end
