(* ===== verification/Json.thy ===== *)
theory Json
  imports Prelude
begin

text \<open>
  JSON as the source uses it: values, \<open>JSON.stringify\<close> of strings, the canonical text of
  \<open>signer/journal.ts\<close> (sorted keys, integers only) and \<open>JSON.parse\<close>. Text is a sequence of
  UTF-8 bytes. A missing property is \<open>None\<close> in \<open>jfield\<close>.
\<close>

datatype json =
    JNull
  | JBool bool
  | JNum rat
  | JStr string
  | JArr "json list"
  | JObj "(string \<times> json) list"

abbreviation JInt :: "int \<Rightarrow> json" where
  "JInt n \<equiv> JNum (of_int n)"

definition jfield :: "(string \<times> json) list \<Rightarrow> string \<Rightarrow> json option" where
  "jfield kvs k = map_of kvs k"

text \<open>\<open>Object.keys\<close>: index-like keys first, in numeric order.\<close>

definition isIndexKey :: "string \<Rightarrow> bool" where
  "isIndexKey k \<longleftrightarrow> digits k \<and> show_int (bigInt k) = k \<and> bigInt k < 4294967295"

definition objectEntries :: "(string \<times> 'a) list \<Rightarrow> (string \<times> 'a) list" where
  "objectEntries kvs = sort_key (\<lambda>(k, v). bigInt k) (filter (\<lambda>(k, v). isIndexKey k) kvs) @ filter (\<lambda>(k, v). \<not> isIndexKey k) kvs"

section \<open>Printing\<close>

definition hex4 :: "nat \<Rightarrow> string" where
  "hex4 n = [nibble_char (n div 4096 mod 16), nibble_char (n div 256 mod 16),
             nibble_char (n div 16 mod 16), nibble_char (n mod 16)]"

definition escapeChar :: "char \<Rightarrow> string" where
  "escapeChar c =
     (if c = CHR 0x22 then [CHR 0x5C, CHR 0x22]
      else if c = CHR 0x5C then [CHR 0x5C, CHR 0x5C]
      else if c = CHR 0x08 then [CHR 0x5C, CHR ''b'']
      else if c = CHR 0x0C then [CHR 0x5C, CHR ''f'']
      else if c = CHR 0x0A then [CHR 0x5C, CHR ''n'']
      else if c = CHR 0x0D then [CHR 0x5C, CHR ''r'']
      else if c = CHR 0x09 then [CHR 0x5C, CHR ''t'']
      else if cval c < 32 then CHR 0x5C # CHR ''u'' # hex4 (cval c)
      else [c])"

definition jsonString :: "string \<Rightarrow> string" where
  "jsonString s = CHR 0x22 # concat (map escapeChar s) @ [CHR 0x22]"

definition isInteger :: "rat \<Rightarrow> bool" where
  "isInteger r \<longleftrightarrow> r = of_int \<lfloor>r\<rfloor>"

definition isSafeInteger :: "rat \<Rightarrow> bool" where
  "isSafeInteger r \<longleftrightarrow> isInteger r \<and> \<bar>r\<bar> \<le> 9007199254740991"

text \<open>
  \<open>canonicalJson\<close> of \<open>journal.ts\<close>. The values are written in the order of the object and sorted
  afterwards; the source sorts first, which gives the same text.
\<close>

fun canonicalJson :: "json \<Rightarrow> string res"
  and canonArr :: "json list \<Rightarrow> string list res"
  and canonObj :: "(string \<times> json) list \<Rightarrow> (string \<times> string) list res" where
  "canonicalJson JNull = Inr ''null''"
| "canonicalJson (JBool b) = Inr (if b then ''true'' else ''false'')"
| "canonicalJson (JStr s) = Inr (jsonString s)"
| "canonicalJson (JNum r) = (if isSafeInteger r then Inr (show_int \<lfloor>r\<rfloor>) else Inl TypeErr)"
| "canonicalJson (JArr xs) =
     andThen (canonArr xs) (\<lambda>ts. Inr (CHR ''['' # join (CHR '','') ts @ [CHR '']'']))"
| "canonicalJson (JObj kvs) =
     andThen (canonObj kvs) (\<lambda>ps. Inr (CHR ''{'' #
       join (CHR '','') (map (\<lambda>(k, t). jsonString k @ CHR '':'' # t) (sort_key fst ps)) @ [CHR ''}'']))"
| "canonArr [] = Inr []"
| "canonArr (x # xs) = andThen (canonicalJson x) (\<lambda>t. andThen (canonArr xs) (\<lambda>ts. Inr (t # ts)))"
| "canonObj [] = Inr []"
| "canonObj ((k, x) # kvs) =
     andThen (canonicalJson x) (\<lambda>t. andThen (canonObj kvs) (\<lambda>ts. Inr ((k, t) # ts)))"

section \<open>Parsing\<close>

definition is_ws :: "char \<Rightarrow> bool" where
  "is_ws c \<longleftrightarrow> cval c = 32 \<or> cval c = 9 \<or> cval c = 10 \<or> cval c = 13"

abbreviation skipWs :: "string \<Rightarrow> string" where
  "skipWs s \<equiv> dropWhile is_ws s"

definition nibble_val :: "char \<Rightarrow> nat option" where
  "nibble_val c =
     (if is_digit c then Some (cval c - 48)
      else if 97 \<le> cval c \<and> cval c \<le> 102 then Some (cval c - 87)
      else if 65 \<le> cval c \<and> cval c \<le> 70 then Some (cval c - 55)
      else None)"

definition utf8_of_code :: "nat \<Rightarrow> string" where
  "utf8_of_code n =
     (if n < 128 then [char_of n]
      else if n < 2048 then [char_of (192 + n div 64), char_of (128 + n mod 64)]
      else [char_of (224 + n div 4096), char_of (128 + n div 64 mod 64), char_of (128 + n mod 64)])"

definition unescape :: "char \<Rightarrow> char option" where
  "unescape e =
     (if e = CHR 0x22 then Some (CHR 0x22)
      else if e = CHR 0x5C then Some (CHR 0x5C)
      else if e = CHR ''/'' then Some (CHR ''/'')
      else if e = CHR ''b'' then Some (CHR 0x08)
      else if e = CHR ''f'' then Some (CHR 0x0C)
      else if e = CHR ''n'' then Some (CHR 0x0A)
      else if e = CHR ''r'' then Some (CHR 0x0D)
      else if e = CHR ''t'' then Some (CHR 0x09)
      else None)"

definition hexCode :: "char \<Rightarrow> char \<Rightarrow> char \<Rightarrow> char \<Rightarrow> nat option" where
  "hexCode a b c d =
     (case (nibble_val a, nibble_val b, nibble_val c, nibble_val d) of
        (Some w, Some x, Some y, Some z) \<Rightarrow> Some (4096 * w + 256 * x + 16 * y + z)
      | _ \<Rightarrow> None)"

text \<open>The rest of a string after its opening quote.\<close>

fun pStr :: "string \<Rightarrow> (string \<times> string) option" where
  "pStr [] = None"
| "pStr (c # s) =
     (if c = CHR 0x22 then Some ([], s)
      else if c = CHR 0x5C then
        (case s of
           [] \<Rightarrow> None
         | e # s1 \<Rightarrow>
             if e = CHR ''u'' then
               (case s1 of
                  h1 # h2 # h3 # h4 # s2 \<Rightarrow>
                    (case hexCode h1 h2 h3 h4 of None \<Rightarrow> None
                     | Some n \<Rightarrow> map_option (\<lambda>(t, r). (utf8_of_code n @ t, r)) (pStr s2))
                | _ \<Rightarrow> None)
             else
               (case unescape e of None \<Rightarrow> None
                | Some x \<Rightarrow> map_option (\<lambda>(t, r). (x # t, r)) (pStr s1)))
      else if cval c < 32 then None
      else map_option (\<lambda>(t, r). (c # t, r)) (pStr s))"

definition pInt :: "string \<Rightarrow> (nat \<times> string) option" where
  "pInt s =
     (case s of [] \<Rightarrow> None
      | c # r \<Rightarrow>
          if \<not> is_digit c then None
          else if c = CHR ''0'' then Some (0, r)
          else Some (read_nat (takeWhile is_digit s), dropWhile is_digit s))"

definition pFrac :: "string \<Rightarrow> (rat \<times> string) option" where
  "pFrac s =
     (case s of
        c # r \<Rightarrow>
          if c = CHR ''.'' then
            (let ds = takeWhile is_digit r in
             if ds = [] then None
             else Some (of_nat (read_nat ds) / 10 ^ length ds, dropWhile is_digit r))
          else Some (0, s)
      | [] \<Rightarrow> Some (0, s))"

definition pExp :: "string \<Rightarrow> (rat \<times> string) option" where
  "pExp s =
     (case s of
        c # r \<Rightarrow>
          if c = CHR ''e'' \<or> c = CHR ''E'' then
            (let neg = (case r of d # _ \<Rightarrow> d = CHR ''-'' | [] \<Rightarrow> False);
                 r1 = (case r of d # r' \<Rightarrow> if d = CHR ''-'' \<or> d = CHR ''+'' then r' else r | [] \<Rightarrow> r);
                 ds = takeWhile is_digit r1 in
             if ds = [] then None
             else Some (if neg then 1 / 10 ^ read_nat ds else 10 ^ read_nat ds, dropWhile is_digit r1))
          else Some (1, s)
      | [] \<Rightarrow> Some (1, s))"

definition pNum :: "string \<Rightarrow> (json \<times> string) option" where
  "pNum s =
     (let neg = (case s of d # _ \<Rightarrow> d = CHR ''-'' | [] \<Rightarrow> False);
          s0 = (if neg then tl s else s) in
      case pInt s0 of None \<Rightarrow> None
      | Some (i, r1) \<Rightarrow>
          (case pFrac r1 of None \<Rightarrow> None
           | Some (f, r2) \<Rightarrow>
               (case pExp r2 of None \<Rightarrow> None
                | Some (e, r3) \<Rightarrow>
                    Some (JNum ((if neg then -1 else 1) * (of_nat i + f) * e), r3))))"

fun pVal :: "nat \<Rightarrow> string \<Rightarrow> (json \<times> string) option"
  and pElems :: "nat \<Rightarrow> string \<Rightarrow> (json list \<times> string) option"
  and pMembers :: "nat \<Rightarrow> string \<Rightarrow> ((string \<times> json) list \<times> string) option" where
  "pVal 0 s = None"
| "pVal (Suc n) s =
     (case skipWs s of
        [] \<Rightarrow> None
      | c # r \<Rightarrow>
          if c = CHR 0x22 then map_option (\<lambda>(x, q). (JStr x, q)) (pStr r)
          else if c = CHR ''['' then
            (case skipWs r of
               [] \<Rightarrow> None
             | d # q \<Rightarrow>
                 if d = CHR '']'' then Some (JArr [], q)
                 else map_option (\<lambda>(xs, p). (JArr xs, p)) (pElems n r))
          else if c = CHR ''{'' then
            (case skipWs r of
               [] \<Rightarrow> None
             | d # q \<Rightarrow>
                 if d = CHR ''}'' then Some (JObj [], q)
                 else map_option
                        (\<lambda>(ps, p). (JObj (foldl (\<lambda>m (k, v). mapSet m k v) [] ps), p)) (pMembers n r))
          else if take 4 (c # r) = ''true'' then Some (JBool True, drop 4 (c # r))
          else if take 5 (c # r) = ''false'' then Some (JBool False, drop 5 (c # r))
          else if take 4 (c # r) = ''null'' then Some (JNull, drop 4 (c # r))
          else pNum (c # r))"
| "pElems 0 s = None"
| "pElems (Suc n) s =
     (case pVal n s of None \<Rightarrow> None
      | Some (v, r) \<Rightarrow>
          (case skipWs r of [] \<Rightarrow> None
           | d # q \<Rightarrow>
               if d = CHR '','' then map_option (\<lambda>(vs, p). (v # vs, p)) (pElems n q)
               else if d = CHR '']'' then Some ([v], q)
               else None))"
| "pMembers 0 s = None"
| "pMembers (Suc n) s =
     (case skipWs s of [] \<Rightarrow> None
      | c # r \<Rightarrow>
          if c \<noteq> CHR 0x22 then None
          else (case pStr r of None \<Rightarrow> None
            | Some (k, r1) \<Rightarrow>
                (case skipWs r1 of [] \<Rightarrow> None
                 | d # r2 \<Rightarrow>
                     if d \<noteq> CHR '':'' then None
                     else (case pVal n r2 of None \<Rightarrow> None
                       | Some (v, r3) \<Rightarrow>
                           (case skipWs r3 of [] \<Rightarrow> None
                            | e # r4 \<Rightarrow>
                                if e = CHR '','' then map_option (\<lambda>(ps, p). ((k, v) # ps, p)) (pMembers n r4)
                                else if e = CHR ''}'' then Some ([(k, v)], r4)
                                else None)))))"

text \<open>
  \<open>JSON.parse\<close>: every nested call consumes a character at least every second step, so
  \<open>2 * length s + 2\<close> units of fuel never run out.
\<close>

definition jsonParse :: "string \<Rightarrow> json option" where
  "jsonParse s =
     (case pVal (2 * length s + 2) s of
        None \<Rightarrow> None
      | Some (v, r) \<Rightarrow> if skipWs r = [] then Some v else None)"

text \<open>Values whose canonical text reads back as themselves: keys sorted and distinct, safe integers.\<close>

fun jcanonical :: "json \<Rightarrow> bool" where
  "jcanonical (JNum r) = isSafeInteger r"
| "jcanonical (JArr xs) = list_all jcanonical xs"
| "jcanonical (JObj kvs) = (sorted (map fst kvs) \<and> distinct (map fst kvs) \<and> list_all (\<lambda>(k, v). jcanonical v) kvs)"
| "jcanonical _ = True"

section \<open>Reading back a canonical text\<close>

definition stops :: "string \<Rightarrow> bool" where
  "stops r \<longleftrightarrow> (case r of [] \<Rightarrow> True
     | c # _ \<Rightarrow> \<not> is_digit c \<and> c \<noteq> CHR ''.'' \<and> c \<noteq> CHR ''e'' \<and> c \<noteq> CHR ''E'')"

lemma nibble_val_char [simp]: "n < 16 \<Longrightarrow> nibble_val (nibble_char n) = Some n"
  by (auto simp: nibble_val_def nibble_char_def is_digit_def cval_def)

lemma four_nibbles:
  "n = a * 16 + d \<Longrightarrow> a = b * 16 + c \<Longrightarrow> b = e * 16 + f \<Longrightarrow> 4096 * e + 256 * f + 16 * c + d = (n :: nat)"
  by simp

lemma hexCode_hex4: "n < 65536 \<Longrightarrow> hex4 n = [a, b, c, d] \<Longrightarrow> hexCode a b c d = Some n"
proof -
  assume n: "n < 65536" and h: "hex4 n = [a, b, c, d]"
  have e: "n div 256 = n div 16 div 16" "n div 4096 = n div 16 div 16 div 16"
    by (simp_all add: div_mult2_eq [symmetric])
  have lt: "n div 16 div 16 div 16 < 16" using n e by (simp add: div_less_iff_less_mult)
  have "4096 * (n div 4096 mod 16) + 256 * (n div 256 mod 16) + 16 * (n div 16 mod 16) + n mod 16 = n"
    unfolding e mod_less [OF lt]
    by (rule four_nibbles [OF div_mult_mod_eq [symmetric] div_mult_mod_eq [symmetric]
          div_mult_mod_eq [symmetric]])
  moreover have "n div 4096 mod 16 = n div 4096" using lt by (simp add: e)
  moreover have "n div 4096 < 16" using lt by (simp add: e)
  ultimately show ?thesis using h by (auto simp: hexCode_def hex4_def)
qed

lemma cval_quote: "\<not> cval (CHR 0x22) < 32" "\<not> cval (CHR 0x5C) < 32"
  by (simp_all add: cval_def)

lemma pStr_escape: "pStr (concat (map escapeChar s) @ CHR 0x22 # r) = Some (s, r)"
proof (induction s)
  case Nil
  then show ?case by simp
next
  case (Cons c s)
  let ?t = "concat (map escapeChar s) @ CHR 0x22 # r"
  show ?case
  proof (cases "cval c < 32 \<and> c \<notin> {CHR 0x08, CHR 0x0C, CHR 0x0A, CHR 0x0D, CHR 0x09}")
    case True
    then have "c \<noteq> CHR 0x22" "c \<noteq> CHR 0x5C" by (metis cval_quote)+
    with True have e: "escapeChar c = CHR 0x5C # CHR ''u'' # hex4 (cval c)"
      by (simp add: escapeChar_def)
    obtain h1 h2 h3 h4 where h: "hex4 (cval c) = [h1, h2, h3, h4]" by (simp add: hex4_def)
    with True have "hexCode h1 h2 h3 h4 = Some (cval c)" by (intro hexCode_hex4) auto
    moreover have "utf8_of_code (cval c) = [c]" using True by (simp add: utf8_of_code_def cval_def)
    ultimately show ?thesis using Cons.IH by (simp add: e h)
  next
    case False
    then show ?thesis using Cons.IH
      by (auto simp: escapeChar_def unescape_def cval_def)
  qed
qed

lemma pStr_jsonString: "jsonString s @ r = CHR 0x22 # q \<Longrightarrow> pStr q = Some (s, r)"
  by (auto simp: jsonString_def pStr_escape)

lemma takeWhile_digits: "list_all is_digit s \<Longrightarrow> stops r \<Longrightarrow> takeWhile is_digit (s @ r) = s"
  by (induction s) (auto simp: stops_def split: list.splits)

lemma dropWhile_digits: "list_all is_digit s \<Longrightarrow> stops r \<Longrightarrow> dropWhile is_digit (s @ r) = r"
  by (induction s) (auto simp: stops_def split: list.splits)

lemma pInt_show: "stops r \<Longrightarrow> pInt (show_nat n @ r) = Some (n, r)"
proof -
  assume r: "stops r"
  obtain c t where s: "show_nat n = c # t" by (cases "show_nat n") auto
  have d: "list_all is_digit (c # t)" using show_nat_digits [of n] by (simp add: s)
  show ?thesis
  proof (cases "n = 0")
    case True
    then have "show_nat n = ''0''" by (simp add: show_nat.simps digit_char_def char_of_def bit_iff_odd)
    with True show ?thesis by (simp add: pInt_def is_digit_def cval_def)
  next
    case False
    then have "c \<noteq> CHR ''0''" using hd_show_nat [of n] s by simp
    moreover have "read_nat (c # t) = n" using read_show_nat [of n] by (simp add: s)
    ultimately show ?thesis
      using d takeWhile_digits [OF d r] dropWhile_digits [OF d r] by (simp add: pInt_def s)
  qed
qed

lemma pFrac_stops: "stops r \<Longrightarrow> pFrac r = Some (0, r)"
  by (auto simp: stops_def pFrac_def split: list.splits)

lemma pExp_stops: "stops r \<Longrightarrow> pExp r = Some (1, r)"
  by (auto simp: stops_def pExp_def split: list.splits)

lemma show_nat_no_minus: "show_nat n @ r = c # q \<Longrightarrow> c \<noteq> CHR ''-''"
  using show_nat_digits [of n] by (cases "show_nat n") auto

lemma pNum_show_int: "stops r \<Longrightarrow> pNum (show_int n @ r) = Some (JInt n, r)"
proof (cases "n < 0")
  case True
  assume "stops r"
  with True show ?thesis
    by (simp add: pNum_def show_int_def pInt_show pFrac_stops pExp_stops)
next
  case False
  assume r: "stops r"
  obtain c q where s: "show_nat (nat n) @ r = c # q" by (cases "show_nat (nat n) @ r") auto
  have "pInt (c # q) = Some (nat n, r)" using pInt_show [OF r, of "nat n"] s by simp
  with False show ?thesis
    using show_nat_no_minus [OF s] r by (simp add: pNum_def show_int_def s pFrac_stops pExp_stops)
qed

lemma show_int_first:
  "show_int n @ r = c # q \<Longrightarrow> c = CHR ''-'' \<or> is_digit c"
  using show_nat_digits [of "nat n"] show_nat_ne [of "nat n"]
  by (cases "show_nat (nat n)") (auto simp: show_int_def split: if_splits)

lemma num_first:
  "c = CHR ''-'' \<or> is_digit c \<Longrightarrow> \<not> is_ws c \<and> c \<noteq> CHR 0x22 \<and> c \<noteq> CHR ''['' \<and> c \<noteq> CHR ''{'' \<and>
     c \<noteq> CHR ''t'' \<and> c \<noteq> CHR ''f'' \<and> c \<noteq> CHR ''n'' \<and> c \<noteq> CHR '']'' \<and> c \<noteq> CHR ''}''"
  by (auto simp: is_digit_def is_ws_def cval_def)

lemma pVal_num: "stops r \<Longrightarrow> pVal (Suc n) (show_int i @ r) = Some (JInt i, r)"
proof -
  assume r: "stops r"
  obtain c q where s: "show_int i @ r = c # q"
    by (cases "show_int i @ r") (auto simp: show_int_def split: if_splits)
  from num_first [OF show_int_first [OF s]] pNum_show_int [OF r, of i] show ?thesis
    by (simp add: s)
qed

lemma is_ws_eval [simp]:
  "\<not> is_ws (CHR 0x22)" "\<not> is_ws (CHR ''['')" "\<not> is_ws (CHR ''{'')" "\<not> is_ws (CHR '','')"
  "\<not> is_ws (CHR '']'')" "\<not> is_ws (CHR ''}'')" "\<not> is_ws (CHR '':'')"
  "\<not> is_ws (CHR ''t'')" "\<not> is_ws (CHR ''f'')" "\<not> is_ws (CHR ''n'')"
  by (simp_all add: is_ws_def cval_def)

lemma stops_eval [simp]: "stops []" "stops (CHR '','' # r)" "stops (CHR '']'' # r)" "stops (CHR ''}'' # r)"
  by (simp_all add: stops_def is_digit_def cval_def)

text \<open>The first character of a canonical text is neither blank nor a closing bracket.\<close>

definition opens :: "string \<Rightarrow> bool" where
  "opens t \<longleftrightarrow> (case t of [] \<Rightarrow> False | c # _ \<Rightarrow> \<not> is_ws c \<and> c \<noteq> CHR '']'' \<and> c \<noteq> CHR ''}'')"

lemma canonicalJson_opens: "canonicalJson j = Inr t \<Longrightarrow> opens t"
proof (cases j)
  case (JNum r)
  assume "canonicalJson j = Inr t"
  with JNum have t: "t = show_int \<lfloor>r\<rfloor>" by (auto split: if_splits)
  obtain c q where s: "show_int \<lfloor>r\<rfloor> @ [] = c # q"
    by (cases "show_int \<lfloor>r\<rfloor> @ []") (auto simp: show_int_def split: if_splits)
  then have "t = c # q" by (simp add: t)
  with num_first [OF show_int_first [OF s]] show ?thesis by (simp add: opens_def)
qed (auto simp: opens_def jsonString_def exn_simps split: if_splits)

lemma opens_append: "opens t \<Longrightarrow> \<exists>c q. t = c # q \<and> skipWs (t @ r) = t @ r \<and> c \<noteq> CHR '']'' \<and> c \<noteq> CHR ''}''"
  by (auto simp: opens_def split: list.splits)

lemma canonObj_fst: "canonObj kvs = Inr ps \<Longrightarrow> map fst ps = map fst kvs"
  by (induction kvs arbitrary: ps) (auto simp: exn_simps)

lemma foldl_mapSet_distinct:
  "distinct (map fst (m @ ps)) \<Longrightarrow> foldl (\<lambda>m (k, v). mapSet m k v) m ps = m @ ps"
proof (induction ps arbitrary: m)
  case Nil
  then show ?case by simp
next
  case (Cons p ps)
  obtain k v where p: "p = (k, v)" by (cases p)
  with Cons.prems have "k \<notin> set (mapKeys m)" by auto
  then have "mapSet m k v = m @ [(k, v)]" by (rule mapSet_fresh)
  with Cons.IH [of "m @ [(k, v)]"] Cons.prems p show ?case by simp
qed

lemma join_Cons: "ts \<noteq> [] \<Longrightarrow> join c (t # ts) = t @ c # join c ts"
  by (cases ts) auto

lemma pElems_step:
  assumes "pVal m (t @ d # q) = Some (v, d # q)" "\<not> is_ws d"
  shows "pElems (Suc m) (t @ d # q) =
    (if d = CHR '','' then map_option (\<lambda>(vs, p). (v # vs, p)) (pElems m q)
     else if d = CHR '']'' then Some ([v], q) else None)"
  using assms by simp

lemma pMembers_step:
  assumes "pVal m (t @ d # q) = Some (v, d # q)" "\<not> is_ws d"
  shows "pMembers (Suc m) (jsonString k @ CHR '':'' # t @ d # q) =
    (if d = CHR '','' then map_option (\<lambda>(ps, p). ((k, v) # ps, p)) (pMembers m q)
     else if d = CHR ''}'' then Some ([(k, v)], q) else None)"
  using assms by (simp add: jsonString_def pStr_escape)

lemma parse_canonical:
  shows "canonicalJson j = Inr t \<Longrightarrow> jcanonical j \<Longrightarrow> stops r \<Longrightarrow> 2 * length t \<le> fuel \<Longrightarrow>
           pVal fuel (t @ r) = Some (j, r)"
    and "canonArr xs = Inr ts \<Longrightarrow> xs \<noteq> [] \<Longrightarrow> list_all jcanonical xs \<Longrightarrow>
           2 * length (join (CHR '','') ts) + 3 \<le> fuel \<Longrightarrow>
           pElems fuel (join (CHR '','') ts @ CHR '']'' # r) = Some (xs, r)"
    and "canonObj kvs = Inr ps \<Longrightarrow> kvs \<noteq> [] \<Longrightarrow> list_all (\<lambda>(k, v). jcanonical v) kvs \<Longrightarrow>
           2 * length (join (CHR '','') (map (\<lambda>(k, t). jsonString k @ CHR '':'' # t) ps)) + 3 \<le> fuel \<Longrightarrow>
           pMembers fuel (join (CHR '','') (map (\<lambda>(k, t). jsonString k @ CHR '':'' # t) ps) @ CHR ''}'' # r)
             = Some (kvs, r)"
proof (induction j and xs and kvs arbitrary: t r fuel and ts r fuel and ps r fuel
    rule: canonicalJson_canonArr_canonObj.induct)
  case 1
  then obtain n where "fuel = Suc n" by (cases fuel) auto
  with 1 show ?case by auto
next
  case (2 b)
  then obtain n where "fuel = Suc n" by (cases fuel) (auto split: if_splits)
  with 2 show ?case by (auto split: if_splits)
next
  case (3 x)
  then obtain n where "fuel = Suc n" by (cases fuel) (auto simp: jsonString_def)
  with 3 show ?case by (auto simp: jsonString_def pStr_escape)
next
  case (4 x)
  then have t: "t = show_int \<lfloor>x\<rfloor>" and x: "JInt \<lfloor>x\<rfloor> = JNum x"
    by (auto simp: isSafeInteger_def isInteger_def split: if_splits)
  obtain n where "fuel = Suc n"
    using 4 t canonicalJson_opens [OF "4.prems"(1)] by (cases fuel) (auto simp: opens_def)
  with pVal_num [OF "4.prems"(3), of n "\<lfloor>x\<rfloor>"] t x show ?case by simp
next
  case (5 xs)
  then obtain ts where ts: "canonArr xs = Inr ts"
    and t: "t = CHR ''['' # join (CHR '','') ts @ [CHR '']'']" by (auto simp: exn_simps)
  with 5 obtain n where n: "fuel = Suc n" "2 * length (join (CHR '','') ts) + 3 \<le> n"
    by (cases fuel) auto
  show ?case
  proof (cases xs)
    case Nil
    with ts show ?thesis by (simp add: t n)
  next
    case (Cons y ys)
    then obtain u us where u: "canonicalJson y = Inr u" "ts = u # us"
      using ts by (auto simp: exn_simps)
    then obtain c q where c: "join (CHR '','') ts = c # q" "\<not> is_ws c" "c \<noteq> CHR '']''"
      using canonicalJson_opens [OF u(1)]
      by (cases us) (auto simp: opens_def split: list.splits)
    have "pElems n (join (CHR '','') ts @ CHR '']'' # r) = Some (xs, r)"
      using 5 ts n Cons by auto
    with c show ?thesis by (simp add: t n)
  qed
next
  case (6 kvs)
  then obtain ps where ps: "canonObj kvs = Inr ps"
    and t0: "t = CHR ''{'' # join (CHR '','') (map (\<lambda>(k, t). jsonString k @ CHR '':'' # t) (sort_key fst ps)) @ [CHR ''}'']"
    by (auto simp: exn_simps)
  have "sort_key fst ps = ps"
    using canonObj_fst [OF ps] "6.prems"(2) by (intro sort_key_id_if_sorted) (simp add: sorted_map)
  with t0 have t: "t = CHR ''{'' # join (CHR '','') (map (\<lambda>(k, t). jsonString k @ CHR '':'' # t) ps) @ [CHR ''}'']"
    by simp
  from 6 t obtain n where n: "fuel = Suc n"
    "2 * length (join (CHR '','') (map (\<lambda>(k, t). jsonString k @ CHR '':'' # t) ps)) + 3 \<le> n"
    by (cases fuel) auto
  show ?case
  proof (cases kvs)
    case Nil
    with ps show ?thesis by (simp add: t n)
  next
    case (Cons y ys)
    then obtain c q where c: "join (CHR '','') (map (\<lambda>(k, t). jsonString k @ CHR '':'' # t) ps) = CHR 0x22 # q"
      using ps canonObj_fst [OF ps]
      by (cases ps rule: remdups_adj.cases) (auto simp: jsonString_def)
    have "pMembers n (join (CHR '','') (map (\<lambda>(k, t). jsonString k @ CHR '':'' # t) ps) @ CHR ''}'' # r) = Some (kvs, r)"
      using 6 ps n Cons by auto
    moreover have "foldl (\<lambda>m (k, v). mapSet m k v) [] kvs = kvs"
      using foldl_mapSet_distinct [of "[]" kvs] "6.prems"(2) by simp
    ultimately show ?thesis using c by (simp add: t n)
  qed
next
  case 7
  then show ?case by simp
next
  case (8 x xs)
  then obtain u us where u: "canonicalJson x = Inr u" "canonArr xs = Inr us" "ts = u # us"
    by (auto simp: exn_simps)
  from 8 obtain m where m: "fuel = Suc m" by (cases fuel) auto
  show ?case
  proof (cases "xs = []")
    case True
    then have "us = []" using u by simp
    moreover have "pVal m (u @ CHR '']'' # r) = Some (x, CHR '']'' # r)"
      using 8 u m \<open>us = []\<close> by auto
    ultimately show ?thesis using True pElems_step [of m u "CHR '']''" r x] by (simp add: u m)
  next
    case False
    then have us: "us \<noteq> []" using u(2) by (cases xs) (auto simp: exn_simps)
    let ?q = "join (CHR '','') us @ CHR '']'' # r"
    have "pVal m (u @ CHR '','' # ?q) = Some (x, CHR '','' # ?q)"
      using 8 u m us by (auto simp: join_Cons)
    moreover have "pElems m ?q = Some (xs, r)"
      using 8 u m us False by (auto simp: join_Cons)
    ultimately show ?thesis using us pElems_step [of m u "CHR '',''" ?q x] by (simp add: u m join_Cons)
  qed
next
  case 9
  then show ?case by simp
next
  case (10 k x kvs)
  let ?f = "\<lambda>(k, t). jsonString k @ CHR '':'' # t"
  from 10 obtain u us where u: "canonicalJson x = Inr u" "canonObj kvs = Inr us" "ps = (k, u) # us"
    by (auto simp: exn_simps)
  from 10 obtain m where m: "fuel = Suc m" by (cases fuel) auto
  show ?case
  proof (cases "kvs = []")
    case True
    then have "us = []" using u by simp
    moreover have "pVal m (u @ CHR ''}'' # r) = Some (x, CHR ''}'' # r)"
      using 10 u m \<open>us = []\<close> by auto
    ultimately show ?thesis using True pMembers_step [of m u "CHR ''}''" r x k] by (simp add: u m)
  next
    case False
    then have us: "map ?f us \<noteq> []" using u(2) by (cases kvs) (auto simp: exn_simps)
    let ?q = "join (CHR '','') (map ?f us) @ CHR ''}'' # r"
    have "pVal m (u @ CHR '','' # ?q) = Some (x, CHR '','' # ?q)"
      using 10 u m us by (auto simp: join_Cons)
    moreover have "pMembers m ?q = Some (kvs, r)"
      using 10 u m us False by (auto simp: join_Cons)
    ultimately show ?thesis using us pMembers_step [of m u "CHR '',''" ?q x k] by (simp add: u m join_Cons)
  qed
qed

lemma jsonParse_canonicalJson:
  "canonicalJson j = Inr t \<Longrightarrow> jcanonical j \<Longrightarrow> jsonParse t = Some j"
  using parse_canonical(1) [of j t "[]" "2 * length t + 2"] by (simp add: jsonParse_def)

end
