(* ===== verification/Policy.thy ===== *)
theory Policy
  imports Networks Json
begin

text \<open>
  \<open>lib/wallet/core/policy.ts\<close>: the policy of the signer, its validity check, the order
  ``tightens'' that the app may move along, the spending limits and the approval quorum.

  A policy that arrives in a command carries JSON numbers (\<open>rat policy\<close>); one that went
  through the journal carries integers (\<open>int policy\<close>, \<open>canonicalJson\<close> refuses anything else).
  The command is cast to \<open>Policy\<close> without a check of the types; the numbers are checked by
  \<open>Number.isInteger\<close>, the limits by a pattern, but the fee caps only by comparisons, which a string
  passes as well. A fee cap is therefore a number or a string here (\<open>cap\<close>), compared and converted
  as the language does; other JSON values in their place are outside the model.

  The object \<open>limits\<close> is a dictionary whose key order the code never observes; it is
  represented by its association list, sorted by key where it is written.
\<close>

definition POLICY_MODES :: "string list" where
  "POLICY_MODES = [''solo'', ''four_eyes'']"

record assetLimit =
  perPayout :: string
  perDay :: string

section \<open>Fee caps: numbers and strings of the language\<close>

text \<open>Integer literals of \<open>StringToNumber\<close> and \<open>BigInt\<close>: decimal, or with a radix prefix.\<close>

definition digitsIn :: "nat \<Rightarrow> string \<Rightarrow> int option" where
  "digitsIn b s = (if s \<noteq> [] \<and> list_all (\<lambda>c. case nibble_val c of None \<Rightarrow> False | Some d \<Rightarrow> d < b) s
     then Some (foldl (\<lambda>a c. int b * a + int (the (nibble_val c))) 0 s) else None)"

definition strInt :: "string \<Rightarrow> int option" where
  "strInt s = (if s = [] then Some 0 else if digits s then Some (bigInt s)
     else if take 2 s \<in> {''0x'', ''0X''} then digitsIn 16 (drop 2 s)
     else if take 2 s \<in> {''0o'', ''0O''} then digitsIn 8 (drop 2 s)
     else if take 2 s \<in> {''0b'', ''0B''} then digitsIn 2 (drop 2 s) else None)"

definition unsign :: "string \<Rightarrow> bool \<times> string" where
  "unsign s = (if startsWith s ''-'' then (True, drop 1 s) else if startsWith s ''+'' then (False, drop 1 s) else (False, s))"

definition toBigInt :: "string \<Rightarrow> int res" where
  "toBigInt s = (let t = trim s; (neg, u) = unsign t in
     case strInt t of Some n \<Rightarrow> Inr n
     | None \<Rightarrow> if u \<noteq> t \<and> digits u then Inr (if neg then - bigInt u else bigInt u) else Inl TypeErr)"

text \<open>
  \<open>Number(text)\<close>; \<open>None\<close> is \<open>NaN\<close>. An infinite value is \<open>None\<close> too: the comparisons of
  \<open>policyIssues\<close> reject both.
\<close>

definition toNumber :: "string \<Rightarrow> rat option" where
  "toNumber s = (let t = trim s; (neg, u) = unsign t; w = takeWhile is_digit u; r = dropWhile is_digit u;
       f = (if startsWith r ''.'' then takeWhile is_digit (tl r) else []);
       r2 = (if startsWith r ''.'' then dropWhile is_digit (tl r) else r) in
     case strInt t of Some n \<Rightarrow> Some (of_int n)
     | None \<Rightarrow> if w = [] \<and> f = [] then None
         else (case pExp r2 of
            Some (e, []) \<Rightarrow> Some ((if neg then -1 else 1) * (of_int (bigInt w) + of_int (bigInt f) / 10 ^ length f) * e)
          | _ \<Rightarrow> None))"

datatype cap = is_CapNum: CapNum rat | CapText string

definition capNum :: "cap \<Rightarrow> rat option" where
  "capNum c = (case c of CapNum r \<Rightarrow> Some r | CapText s \<Rightarrow> toNumber s)"

text \<open>\<open>a > b\<close>: two strings compare as text, otherwise both as numbers, false on \<open>NaN\<close>.\<close>

definition capGt :: "cap \<Rightarrow> cap \<Rightarrow> bool" where
  "capGt a b =
     (case (a, b) of (CapText x, CapText y) \<Rightarrow> x > y
      | _ \<Rightarrow> (case (capNum a, capNum b) of (Some x, Some y) \<Rightarrow> x > y | _ \<Rightarrow> False))"

definition capLe :: "cap \<Rightarrow> rat \<Rightarrow> bool" where
  "capLe c q = (case capNum c of None \<Rightarrow> False | Some r \<Rightarrow> r \<le> q)"

definition capBig :: "cap \<Rightarrow> int res" where
  "capBig c = (case c of CapNum r \<Rightarrow> if isInteger r then Inr \<lfloor>r\<rfloor> else Inl RangeErr | CapText s \<Rightarrow> toBigInt s)"

definition capJson :: "cap \<Rightarrow> json" where
  "capJson c = (case c of CapNum r \<Rightarrow> JNum r | CapText s \<Rightarrow> JStr s)"

section \<open>The policy\<close>

record feeCapsT =
  btcSatPerVb :: cap
  ethMaxFeeGwei :: cap

record 'n policy =
  version :: 'n
  prev :: "string option"
  mode :: string
  soloMinKeys :: 'n
  soloDelaySec :: 'n
  whitelistCooldownSec :: 'n
  approvalWindowSec :: 'n
  limits :: "(string \<times> assetLimit option) list"
  feeCaps :: feeCapsT
  networks :: "string list"
  liveFunds :: bool

text \<open>The minima: \<open>PROD_MIN\<close>, or the zeros of the development bundle.\<close>

definition minKeys :: "bool \<Rightarrow> rat" where
  "minKeys dev = (if dev then 1 else 2)"

definition minCooldown :: "bool \<Rightarrow> rat" where
  "minCooldown dev = (if dev then 0 else 24 * 3600)"

definition minDelay :: "bool \<Rightarrow> rat" where
  "minDelay dev = (if dev then 0 else 10 * 60)"

definition limitOk :: "assetLimit option \<Rightarrow> bool" where
  "limitOk ol =
     (case ol of None \<Rightarrow> False
      | Some l \<Rightarrow> re_uint (perPayout l) \<and> re_uint (perDay l) \<and> bigInt (perPayout l) \<le> bigInt (perDay l))"

text \<open>\<open>networks.some((n) => NETWORKS[n].live)\<close>: stops at the first live network, throws at an unknown one.\<close>

fun someLive :: "string list \<Rightarrow> bool res" where
  "someLive [] = Inr False"
| "someLive (n # ns) = andThen (networkLive n) (\<lambda>l. if l then Inr True else someLive ns)"

definition policyIssues :: "rat policy \<Rightarrow> bool \<Rightarrow> string list res" where
  "policyIssues p dev =
     andThen (if liveFunds p then Inr True else someLive (networks p)) (\<lambda>hot.
       Inr (uniq (
         (if \<not> isInteger (version p) \<or> version p < 1 then [''version''] else []) @
         (if mode p \<notin> set POLICY_MODES then [''mode''] else []) @
         (if \<not> isInteger (soloMinKeys p) \<or> soloMinKeys p < minKeys dev then [''solo_keys''] else []) @
         (if \<not> isInteger (soloDelaySec p) \<or> soloDelaySec p < minDelay dev then [''delay''] else []) @
         (if \<not> isInteger (whitelistCooldownSec p) \<or> whitelistCooldownSec p < minCooldown dev
          then [''cooldown''] else []) @
         (if \<not> isInteger (approvalWindowSec p) \<or> approvalWindowSec p < 60 \<or> approvalWindowSec p > 24 * 3600
          then [''window''] else []) @
         concat (map (\<lambda>e. if limitOk (snd e) then [] else [''limits'']) (limits p)) @
         (if \<not> (capGt (btcSatPerVb (feeCaps p)) (CapNum 0) \<and> capLe (btcSatPerVb (feeCaps p)) 2000) \<or>
             \<not> (capGt (ethMaxFeeGwei (feeCaps p)) (CapNum 0) \<and> capLe (ethMaxFeeGwei (feeCaps p)) 2000) then [''fee_caps''] else []) @
         (if \<exists>n\<in>set (networks p). n \<notin> set WALLET_NETWORKS then [''networks''] else []) @
         (if hot then [''live''] else []))))"

text \<open>Does \<open>next\<close> tighten \<open>prev\<close> in every respect, or equal it?\<close>

definition limitTightens :: "(string \<times> assetLimit option) list \<Rightarrow> string \<times> assetLimit option \<Rightarrow> bool" where
  "limitTightens before e =
     (case (map_of before (fst e), snd e) of
        (Some (Some b), Some l) \<Rightarrow>
          \<not> bigInt (perPayout l) > bigInt (perPayout b) \<and> \<not> bigInt (perDay l) > bigInt (perDay b)
      | _ \<Rightarrow> False)"

definition isTightening :: "'n::linorder policy \<Rightarrow> 'n policy \<Rightarrow> bool" where
  "isTightening p q =
     (if mode p = ''four_eyes'' \<and> mode q = ''solo'' then False
      else if soloMinKeys q < soloMinKeys p then False
      else if soloDelaySec q < soloDelaySec p then False
      else if whitelistCooldownSec q < whitelistCooldownSec p then False
      else if approvalWindowSec q > approvalWindowSec p then False
      else if capGt (btcSatPerVb (feeCaps q)) (btcSatPerVb (feeCaps p)) then False
      else if capGt (ethMaxFeeGwei (feeCaps q)) (ethMaxFeeGwei (feeCaps p)) then False
      else if \<exists>n\<in>set (networks q). n \<notin> set (networks p) then False
      else if liveFunds q then False
      else list_all (limitTightens (limits p)) (limits q))"

definition spendAllowed :: "'n policy \<Rightarrow> string \<Rightarrow> int \<Rightarrow> int \<Rightarrow> string" where
  "spendAllowed p asset amount signedLast24h =
     (case map_of (limits p) asset of
        Some (Some l) \<Rightarrow>
          if amount > bigInt (perPayout l) then ''per_payout''
          else if signedLast24h + amount > bigInt (perDay l) then ''per_day''
          else ''ok''
      | _ \<Rightarrow> ''asset_not_allowed'')"

record approval =
  personId :: string
  credentialId :: string

definition approvalsSatisfied :: "int policy \<Rightarrow> approval list \<Rightarrow> (string, int) jsmap \<Rightarrow> bool" where
  "approvalsSatisfied p approvals activeKeys =
     (let persons = uniq (map personId approvals) in
      if mode p = ''four_eyes'' then length persons \<ge> 2
      else (\<exists>person\<in>set persons.
              (case mapGet activeKeys person of None \<Rightarrow> 0 | Some n \<Rightarrow> n) \<ge> soloMinKeys p))"

text \<open>\<open>defaultPolicy\<close> of \<open>signer/service.ts\<close>: what \<open>init.commit\<close> starts from.\<close>

definition defaultPolicy :: "string list \<Rightarrow> bool \<Rightarrow> int policy" where
  "defaultPolicy nets dev = \<lparr>version = 1, prev = None, mode = ''solo'',
     soloMinKeys = (if dev then 1 else 2), soloDelaySec = (if dev then 0 else 30 * 60),
     whitelistCooldownSec = (if dev then 0 else 24 * 3600), approvalWindowSec = 3600,
     limits = [(''BTC'', Some \<lparr>perPayout = ''100000'', perDay = ''500000''\<rparr>),
       (''ETH'', Some \<lparr>perPayout = ''50000000000000000'', perDay = ''200000000000000000''\<rparr>),
       (''EURC'', Some \<lparr>perPayout = ''100000000'', perDay = ''500000000''\<rparr>),
       (''USDC'', Some \<lparr>perPayout = ''100000000'', perDay = ''500000000''\<rparr>)],
     feeCaps = \<lparr>btcSatPerVb = CapNum 50, ethMaxFeeGwei = CapNum 50\<rparr>,
     networks = nets, liveFunds = False\<rparr>"

section \<open>JSON text of a policy\<close>

definition limitJson :: "string \<times> assetLimit option \<Rightarrow> string \<times> json" where
  "limitJson e = (fst e, (case snd e of None \<Rightarrow> JNull
     | Some l \<Rightarrow> JObj [(''perDay'', JStr (perDay l)), (''perPayout'', JStr (perPayout l))]))"

definition policyJson :: "int policy \<Rightarrow> json" where
  "policyJson p = JObj [
     (''approvalWindowSec'', JInt (approvalWindowSec p)),
     (''feeCaps'', JObj [(''btcSatPerVb'', capJson (btcSatPerVb (feeCaps p))),
                         (''ethMaxFeeGwei'', capJson (ethMaxFeeGwei (feeCaps p)))]),
     (''limits'', JObj (map limitJson (limits p))),
     (''liveFunds'', JBool (liveFunds p)),
     (''mode'', JStr (mode p)),
     (''networks'', JArr (map JStr (networks p))),
     (''prev'', (case prev p of None \<Rightarrow> JNull | Some h \<Rightarrow> JStr h)),
     (''soloDelaySec'', JInt (soloDelaySec p)),
     (''soloMinKeys'', JInt (soloMinKeys p)),
     (''version'', JInt (version p)),
     (''whitelistCooldownSec'', JInt (whitelistCooldownSec p))]"

text \<open>
  \<open>canonicalJson\<close> of \<open>policy.ts\<close>: as the one of the journal, with \<open>JSON.stringify\<close> of the leaves
  and no bound on integers.
\<close>

fun canonicalText :: "json \<Rightarrow> string"
  and canonicalTexts :: "json list \<Rightarrow> string list"
  and canonicalPairs :: "(string \<times> json) list \<Rightarrow> (string \<times> string) list" where
  "canonicalText JNull = ''null''"
| "canonicalText (JBool b) = (if b then ''true'' else ''false'')"
| "canonicalText (JStr s) = jsonString s"
| "canonicalText (JNum r) = show_int \<lfloor>r\<rfloor>"
| "canonicalText (JArr xs) = CHR ''['' # join (CHR '','') (canonicalTexts xs) @ [CHR '']'']"
| "canonicalText (JObj kvs) = CHR ''{'' #
     join (CHR '','') (map (\<lambda>(k, t). jsonString k @ CHR '':'' # t) (sort_key fst (canonicalPairs kvs))) @ [CHR ''}'']"
| "canonicalTexts [] = []"
| "canonicalTexts (x # xs) = canonicalText x # canonicalTexts xs"
| "canonicalPairs [] = []"
| "canonicalPairs ((k, x) # kvs) = (k, canonicalText x) # canonicalPairs kvs"

definition policyHash :: "lib \<Rightarrow> int policy \<Rightarrow> string" where
  "policyHash L p = hexEncode (sha256 L (utf8 (canonicalText (policyJson p))))"

text \<open>Integer policies as JSON numbers, and back where every number is a safe integer.\<close>

definition policyRat :: "int policy \<Rightarrow> rat policy" where
  "policyRat p = \<lparr>version = of_int (version p), prev = prev p, mode = mode p,
     soloMinKeys = of_int (soloMinKeys p), soloDelaySec = of_int (soloDelaySec p),
     whitelistCooldownSec = of_int (whitelistCooldownSec p), approvalWindowSec = of_int (approvalWindowSec p),
     limits = limits p,
     feeCaps = feeCaps p,
     networks = networks p, liveFunds = liveFunds p\<rparr>"

definition policyNumbers :: "'n policy \<Rightarrow> 'n list" where
  "policyNumbers p = [version p, soloMinKeys p, soloDelaySec p, whitelistCooldownSec p, approvalWindowSec p]"

definition capSafe :: "cap \<Rightarrow> bool" where
  "capSafe c = (case c of CapNum r \<Rightarrow> isSafeInteger r | CapText s \<Rightarrow> True)"

definition policyInt :: "rat policy \<Rightarrow> int policy res" where
  "policyInt p =
     (if list_all isSafeInteger (policyNumbers p) \<and> capSafe (btcSatPerVb (feeCaps p)) \<and> capSafe (ethMaxFeeGwei (feeCaps p)) then
        Inr \<lparr>version = \<lfloor>version p\<rfloor>, prev = prev p, mode = mode p, soloMinKeys = \<lfloor>soloMinKeys p\<rfloor>,
          soloDelaySec = \<lfloor>soloDelaySec p\<rfloor>, whitelistCooldownSec = \<lfloor>whitelistCooldownSec p\<rfloor>,
          approvalWindowSec = \<lfloor>approvalWindowSec p\<rfloor>, limits = limits p,
          feeCaps = feeCaps p,
          networks = networks p, liveFunds = liveFunds p\<rparr>
      else Inl TypeErr)"

section \<open>Tightening is a preorder\<close>

lemma limitTightens_iff:
  "limitTightens before (k, ol) \<longleftrightarrow>
     (\<exists>b l. map_of before k = Some (Some b) \<and> ol = Some l \<and>
        bigInt (perPayout l) \<le> bigInt (perPayout b) \<and> bigInt (perDay l) \<le> bigInt (perDay b))"
  by (auto simp: limitTightens_def split: option.splits)

lemma isTightening_iff:
  "isTightening p q \<longleftrightarrow>
     \<not> (mode p = ''four_eyes'' \<and> mode q = ''solo'') \<and>
     soloMinKeys p \<le> soloMinKeys q \<and> soloDelaySec p \<le> soloDelaySec q \<and>
     whitelistCooldownSec p \<le> whitelistCooldownSec q \<and> approvalWindowSec q \<le> approvalWindowSec p \<and>
     \<not> capGt (btcSatPerVb (feeCaps q)) (btcSatPerVb (feeCaps p)) \<and> \<not> capGt (ethMaxFeeGwei (feeCaps q)) (ethMaxFeeGwei (feeCaps p)) \<and>
     set (networks q) \<subseteq> set (networks p) \<and> \<not> liveFunds q \<and>
     (\<forall>e\<in>set (limits q). limitTightens (limits p) e)"
  by (auto simp: isTightening_def list_all_iff not_less)

lemma limitTightens_trans:
  assumes "\<forall>e\<in>set m. limitTightens l e" and "limitTightens m e"
  shows "limitTightens l e"
proof -
  obtain k ol where e: "e = (k, ol)" by (cases e)
  with assms(2) obtain b c where bc: "map_of m k = Some (Some b)" "ol = Some c"
    "bigInt (perPayout c) \<le> bigInt (perPayout b)" "bigInt (perDay c) \<le> bigInt (perDay b)"
    by (auto simp: limitTightens_iff)
  from bc(1) have "(k, Some b) \<in> set m" by (rule map_of_SomeD)
  with assms(1) have "limitTightens l (k, Some b)" by blast
  with bc e show ?thesis by (auto simp: limitTightens_iff)
qed

text \<open>A policy the signer means to hold: caps that are numbers, valid mode, no live funds, limits with distinct keys and values.\<close>

definition capsNumeric :: "'n policy \<Rightarrow> bool" where
  "capsNumeric p \<longleftrightarrow> is_CapNum (btcSatPerVb (feeCaps p)) \<and> is_CapNum (ethMaxFeeGwei (feeCaps p))"

lemma capGt_num [simp]: "capGt (CapNum a) (CapNum b) \<longleftrightarrow> a > b"
  by (simp add: capGt_def capNum_def)

lemma capLe_num [simp]: "capLe (CapNum a) q \<longleftrightarrow> a \<le> q"
  by (simp add: capLe_def capNum_def)

lemma capsNumericE:
  assumes "capsNumeric p"
  obtains a b where "btcSatPerVb (feeCaps p) = CapNum a" "ethMaxFeeGwei (feeCaps p) = CapNum b"
  using assms by (auto simp: capsNumeric_def is_CapNum_def)

definition policyOk :: "'n policy \<Rightarrow> bool" where
  "policyOk p \<longleftrightarrow> capsNumeric p \<and> mode p \<in> set POLICY_MODES \<and> \<not> liveFunds p \<and> distinct (map fst (limits p)) \<and>
     (\<forall>e\<in>set (limits p). limitOk (snd e)) \<and> (\<forall>n\<in>set (networks p). networkLive n = Inr False)"

lemma isTightening_refl: "policyOk p \<Longrightarrow> isTightening p p"
  by (auto simp: isTightening_iff policyOk_def limitTightens_iff limitOk_def elim!: capsNumericE split: option.splits)

lemma isTightening_trans:
  assumes "policyOk p" "policyOk q" "policyOk r" "isTightening p q" "isTightening q r"
  shows "isTightening p r"
proof -
  have caps: "\<not> capGt (btcSatPerVb (feeCaps r)) (btcSatPerVb (feeCaps p))" "\<not> capGt (ethMaxFeeGwei (feeCaps r)) (ethMaxFeeGwei (feeCaps p))"
    using assms by (auto simp: isTightening_iff policyOk_def elim!: capsNumericE)
  have "\<not> (mode p = ''four_eyes'' \<and> mode r = ''solo'')"
    using assms by (auto simp: isTightening_iff policyOk_def POLICY_MODES_def)
  moreover have "\<forall>e\<in>set (limits r). limitTightens (limits p) e"
    using assms limitTightens_trans [of "limits q" "limits p"] by (auto simp: isTightening_iff)
  ultimately show ?thesis
    using caps assms(4,5) unfolding isTightening_iff by auto
qed

text \<open>The order as an interface: what one step may do to a policy, any number of steps may do.\<close>

locale tightening_order =
  fixes ok :: "'p \<Rightarrow> bool" and le :: "'p \<Rightarrow> 'p \<Rightarrow> bool"
  assumes le_refl: "ok p \<Longrightarrow> le p p"
    and le_trans: "ok p \<Longrightarrow> ok q \<Longrightarrow> ok r \<Longrightarrow> le p q \<Longrightarrow> le q r \<Longrightarrow> le p r"
begin

lemma le_chain:
  assumes "\<And>i. i \<le> n \<Longrightarrow> ok (f i)" and "\<And>i. i < n \<Longrightarrow> f (Suc i) = f i \<or> le (f i) (f (Suc i))"
  shows "le (f 0) (f n)"
  using assms
proof (induction n)
  case 0
  then show ?case by (simp add: le_refl)
next
  case (Suc n)
  have "le (f 0) (f n)" by (rule Suc.IH) (use Suc.prems in auto)
  moreover have "f (Suc n) = f n \<or> le (f n) (f (Suc n))" using Suc.prems by blast
  moreover have "ok (f 0)" "ok (f n)" "ok (f (Suc n))" by (rule Suc.prems(1), simp)+
  ultimately show ?case using le_trans [of "f 0" "f n" "f (Suc n)"] by fastforce
qed

end

interpretation tight: tightening_order "policyOk :: 'n::linorder policy \<Rightarrow> bool" isTightening
  by unfold_locales (auto intro: isTightening_refl isTightening_trans)

section \<open>Validity\<close>

lemma someLive_False: "someLive ns = Inr False \<Longrightarrow> n \<in> set ns \<Longrightarrow> networkLive n = Inr False"
  by (induction ns) (auto simp: exn_simps split: if_splits)

lemma policyIssues_none:
  assumes "policyIssues p dev = Inr []"
  shows "isInteger (version p)" "1 \<le> version p" "mode p \<in> set POLICY_MODES"
    "isInteger (soloMinKeys p)" "minKeys dev \<le> soloMinKeys p"
    "isInteger (soloDelaySec p)" "minDelay dev \<le> soloDelaySec p"
    "isInteger (whitelistCooldownSec p)" "minCooldown dev \<le> whitelistCooldownSec p"
    "isInteger (approvalWindowSec p)" "60 \<le> approvalWindowSec p" "approvalWindowSec p \<le> 86400"
    "\<forall>e\<in>set (limits p). limitOk (snd e)"
    "capGt (btcSatPerVb (feeCaps p)) (CapNum 0)" "capLe (btcSatPerVb (feeCaps p)) 2000"
    "capGt (ethMaxFeeGwei (feeCaps p)) (CapNum 0)" "capLe (ethMaxFeeGwei (feeCaps p)) 2000"
    "\<not> liveFunds p" "\<forall>n\<in>set (networks p). networkLive n = Inr False"
proof -
  have u: "uniq xs = [] \<longleftrightarrow> xs = []" for xs :: "string list" by (simp add: uniq_def)
  from assms obtain hot where hot: "(if liveFunds p then Inr True else someLive (networks p)) = Inr hot" "\<not> hot"
    by (auto simp: policyIssues_def exn_simps u split: if_splits)
  from hot show "\<not> liveFunds p" "\<forall>n\<in>set (networks p). networkLive n = Inr False"
    by (auto intro: someLive_False split: if_splits)
  from assms show "isInteger (version p)" "1 \<le> version p" "mode p \<in> set POLICY_MODES"
    "isInteger (soloMinKeys p)" "minKeys dev \<le> soloMinKeys p"
    "isInteger (soloDelaySec p)" "minDelay dev \<le> soloDelaySec p"
    "isInteger (whitelistCooldownSec p)" "minCooldown dev \<le> whitelistCooldownSec p"
    "isInteger (approvalWindowSec p)" "60 \<le> approvalWindowSec p" "approvalWindowSec p \<le> 86400"
    "\<forall>e\<in>set (limits p). limitOk (snd e)"
    "capGt (btcSatPerVb (feeCaps p)) (CapNum 0)" "capLe (btcSatPerVb (feeCaps p)) 2000"
    "capGt (ethMaxFeeGwei (feeCaps p)) (CapNum 0)" "capLe (ethMaxFeeGwei (feeCaps p)) 2000"
    by (auto simp: policyIssues_def exn_simps u split: if_splits prod.splits)
qed

lemma policyIssues_ok: "policyIssues p dev = Inr [] \<Longrightarrow> distinct (map fst (limits p)) \<Longrightarrow> capsNumeric p \<Longrightarrow> policyOk p"
  by (simp add: policyOk_def policyIssues_none)

lemma policyInt_rat: "policyInt p = Inr q \<Longrightarrow> policyRat q = p"
  by (auto simp: policyInt_def policyRat_def policyNumbers_def isSafeInteger_def isInteger_def split: if_splits)

lemma policyInt_ok: "policyInt p = Inr q \<Longrightarrow> policyOk q \<longleftrightarrow> policyOk p"
  by (auto simp: policyInt_def policyOk_def capsNumeric_def split: if_splits)

lemma isTightening_rat: "isTightening (policyRat p) (policyRat q) \<longleftrightarrow> isTightening p q"
  by (simp add: isTightening_iff policyRat_def)

section \<open>Limits\<close>

lemma spendAllowed_ok_iff:
  "spendAllowed p asset amount s = ''ok'' \<longleftrightarrow>
     (\<exists>l. map_of (limits p) asset = Some (Some l) \<and> amount \<le> bigInt (perPayout l) \<and> s + amount \<le> bigInt (perDay l))"
  by (auto simp: spendAllowed_def split: option.splits)

lemma spendAllowed_antimono:
  assumes "isTightening p q" "spendAllowed q asset amount s = ''ok''"
  shows "spendAllowed p asset amount s = ''ok''"
proof -
  from assms(2) obtain l where l: "map_of (limits q) asset = Some (Some l)"
    "amount \<le> bigInt (perPayout l)" "s + amount \<le> bigInt (perDay l)"
    by (auto simp: spendAllowed_ok_iff)
  have "limitTightens (limits p) (asset, Some l)"
    using assms(1) map_of_SomeD [OF l(1)] by (auto simp: isTightening_iff)
  with l show ?thesis by (fastforce simp: spendAllowed_ok_iff limitTightens_iff)
qed

lemma length_uniq: "length (uniq xs) = card (set xs)"
  by (metis distinct_card distinct_uniq set_uniq)

lemma approvalsSatisfied_four_eyes:
  assumes "mode p = ''four_eyes''" "approvalsSatisfied p as m"
  obtains a b where "a \<in> set as" "b \<in> set as" "personId a \<noteq> personId b"
proof -
  from assms have "2 \<le> card (personId ` set as)"
    by (simp add: approvalsSatisfied_def length_uniq)
  then obtain x y where "x \<in> personId ` set as" "y \<in> personId ` set as" "x \<noteq> y"
    by (metis card_2_iff' card_le_Suc0_iff_eq finite_imageI finite_set not_less_eq_eq numeral_2_eq_2)
  with that show ?thesis by blast
qed

text \<open>
  What ``tightening'' is to guarantee, said over what a policy admits: no payment, network or mode
  that was refused, no smaller number of keys, no shorter delay, no longer window, no live funds, and no
  higher fee cap where the caps are numbers. Fee caps recorded as text are compared as text by the code
  (\<open>text_caps_defeat_tightening\<close> below) and left out.
\<close>

definition admitsNoMore :: "int policy \<Rightarrow> int policy \<Rightarrow> bool" where
  "admitsNoMore p q \<longleftrightarrow>
     (\<forall>asset amount done. spendAllowed q asset amount done = ''ok'' \<longrightarrow> spendAllowed p asset amount done = ''ok'') \<and>
     set (networks q) \<subseteq> set (networks p) \<and> \<not> (mode p = ''four_eyes'' \<and> mode q = ''solo'') \<and>
     soloMinKeys p \<le> soloMinKeys q \<and> soloDelaySec p \<le> soloDelaySec q \<and>
     whitelistCooldownSec p \<le> whitelistCooldownSec q \<and> approvalWindowSec q \<le> approvalWindowSec p \<and> \<not> liveFunds q \<and>
     (\<forall>a b. btcSatPerVb (feeCaps p) = CapNum a \<longrightarrow> btcSatPerVb (feeCaps q) = CapNum b \<longrightarrow> b \<le> a) \<and>
     (\<forall>a b. ethMaxFeeGwei (feeCaps p) = CapNum a \<longrightarrow> ethMaxFeeGwei (feeCaps q) = CapNum b \<longrightarrow> b \<le> a)"

lemma tightening_admitsNoMore: "isTightening p q \<Longrightarrow> admitsNoMore p q"
  using spendAllowed_antimono [of p q] unfolding admitsNoMore_def by (auto simp: isTightening_iff)

text \<open>
  C18. Tightening never admits a payment that was refused before: for two policies of which
  the second tightens the first, every amount the second lets through (per payout, and on
  top of what was signed within a day) the first lets through as well, the second enables no
  network the first does not, and, where the fee caps are numbers, it raises neither of them.
\<close>

theorem tightening_admits_no_new_spend:
  assumes "isTightening p q"
  shows "(\<forall>asset amount done. spendAllowed q asset amount done = ''ok'' \<longrightarrow> spendAllowed p asset amount done = ''ok'') \<and>
    set (networks q) \<subseteq> set (networks p) \<and>
    (\<forall>a b. btcSatPerVb (feeCaps p) = CapNum a \<longrightarrow> btcSatPerVb (feeCaps q) = CapNum b \<longrightarrow> b \<le> a) \<and>
    (\<forall>a b. ethMaxFeeGwei (feeCaps p) = CapNum a \<longrightarrow> ethMaxFeeGwei (feeCaps q) = CapNum b \<longrightarrow> b \<le> a)"
proof -
  have "\<forall>asset amount done. spendAllowed q asset amount done = ''ok'' \<longrightarrow> spendAllowed p asset amount done = ''ok''"
    using spendAllowed_antimono [OF assms] by blast
  with assms show ?thesis by (auto simp: isTightening_iff)
qed

theorem tightening_admits_no_new_spend_witness:
  "isTightening (defaultPolicy [''bitcoin_signet''] True) (defaultPolicy [''bitcoin_signet''] False) \<and>
   spendAllowed (defaultPolicy [''bitcoin_signet''] False) ''BTC'' 100000 400000 = ''ok'' \<and>
   spendAllowed (defaultPolicy [''bitcoin_signet''] True) ''BTC'' 100000 400000 = ''ok''"
proof -
  have t: "isTightening (defaultPolicy [''bitcoin_signet''] True) (defaultPolicy [''bitcoin_signet''] False)"
    by code_simp
  moreover have "spendAllowed (defaultPolicy [''bitcoin_signet''] False) ''BTC'' 100000 400000 = ''ok''"
    by code_simp
  ultimately show ?thesis using tightening_admits_no_new_spend [OF t] by blast
qed

text \<open>
  The checks of the signer see every policy the app can reach: along any chain of policies
  of which each is valid and equals or tightens its predecessor, the last one tightens the
  first. Tightening by steps gives the app nothing that tightening at once would not.
\<close>

theorem tightening_chain:
  fixes f :: "nat \<Rightarrow> int policy"
  assumes "\<And>i. i \<le> n \<Longrightarrow> policyOk (f i)"
    and "\<And>i. i < n \<Longrightarrow> f (Suc i) = f i \<or> isTightening (f i) (f (Suc i))"
  shows "isTightening (f 0) (f n)"
  by (rule tight.le_chain) (use assms in auto)

definition demoChain :: "nat \<Rightarrow> int policy" where
  "demoChain i = (if i = 0 then defaultPolicy [''bitcoin_signet'', ''ethereum_sepolia''] True
     else if i = 1 then defaultPolicy [''bitcoin_signet''] False
     else (defaultPolicy [''bitcoin_signet''] False)\<lparr>mode := ''four_eyes''\<rparr>)"

theorem tightening_chain_witness:
  "policyOk (demoChain 0) \<and> policyOk (demoChain 1) \<and> policyOk (demoChain 2) \<and> isTightening (demoChain 0) (demoChain 2)"
proof -
  have ok: "policyOk (demoChain i)" for i
  proof -
    have "policyOk (demoChain 0)" "policyOk (demoChain 1)" "policyOk (demoChain 2)" by code_simp+
    moreover have "i \<noteq> 0 \<Longrightarrow> i \<noteq> 1 \<Longrightarrow> demoChain i = demoChain 2" by (simp add: demoChain_def)
    ultimately show ?thesis by (cases "i = 0"; cases "i = 1"; force)
  qed
  have "isTightening (demoChain 0) (demoChain 1)" "isTightening (demoChain 1) (demoChain 2)"
    by code_simp+
  then have "i < 2 \<Longrightarrow> isTightening (demoChain i) (demoChain (Suc i))" for i
    using less_2_cases [of i] by (auto simp: numeral_2_eq_2)
  with tightening_chain [of 2 demoChain] ok show ?thesis by blast
qed

text \<open>
  A policy the signer accepts keeps the promises of the header of \<open>policy.ts\<close>: no issue
  means that no live network is enabled and live funds are off, that in operation (outside
  the development bundle) a single person needs at least two keys, a payout waits at least
  ten minutes and a new destination at least a day, and that every limit is a pair of
  numbers with the payout limit below the daily one.
\<close>

theorem accepted_policy_is_safe:
  assumes "policyIssues p False = Inr []"
  shows "\<not> liveFunds p \<and> (\<forall>n\<in>set (networks p). networkLive n = Inr False) \<and>
    2 \<le> soloMinKeys p \<and> 600 \<le> soloDelaySec p \<and> 86400 \<le> whitelistCooldownSec p \<and>
    60 \<le> approvalWindowSec p \<and> approvalWindowSec p \<le> 86400 \<and>
    (\<forall>k l. (k, Some l) \<in> set (limits p) \<longrightarrow> bigInt (perPayout l) \<le> bigInt (perDay l))"
proof -
  note ok = policyIssues_none [OF assms]
  have "bigInt (perPayout l) \<le> bigInt (perDay l)" if "(k, Some l) \<in> set (limits p)" for k l
    using bspec [OF ok(13) that] by (simp add: limitOk_def)
  then show ?thesis
    using ok by (auto simp: minKeys_def minDelay_def minCooldown_def)
qed

theorem accepted_policy_is_safe_witness:
  "policyIssues (policyRat (defaultPolicy [''bitcoin_signet'', ''ethereum_sepolia''] False)) False = Inr [] \<and>
   networkLive ''bitcoin_signet'' = Inr False"
proof -
  have h: "policyIssues (policyRat (defaultPolicy [''bitcoin_signet'', ''ethereum_sepolia''] False)) False = Inr []"
    by code_simp
  with accepted_policy_is_safe [OF h] show ?thesis by (simp add: policyRat_def defaultPolicy_def)
qed

text \<open>
  \<open>policyIssues\<close> never reports the issue \<open>networks\<close> on its own: when live funds are off and
  a network name is unknown, the lookup of its \<open>live\<close> flag throws before the list is returned,
  unless a live network comes first in the list. The caller then answers \<open>internal\<close>
  instead of \<open>policy_invalid\<close>.
\<close>

theorem unknown_network_throws:
  assumes "\<not> liveFunds p" "networks p = ns @ n # ms" "n \<notin> set WALLET_NETWORKS"
    and "\<forall>m\<in>set ns. networkLive m = Inr False"
  shows "policyIssues p dev = Inl TypeErr"
proof -
  have "networkLive n = Inl TypeErr"
    using assms(3) networks_unknown [of n] by (simp add: networkLive_def)
  then have "someLive (ns @ n # ms) = Inl TypeErr"
    using assms(4) by (induction ns) auto
  with assms show ?thesis by (simp add: policyIssues_def)
qed

theorem unknown_network_throws_witness:
  "policyIssues (policyRat (defaultPolicy [''bitcoin_signet'', ''dogecoin''] False)) False = Inl TypeErr"
  by (rule unknown_network_throws [of _ "[''bitcoin_signet'']" "''dogecoin''" "[]"]; code_simp)

definition textCaps :: "string \<Rightarrow> bool \<Rightarrow> int policy" where
  "textCaps c dev = (defaultPolicy [''bitcoin_signet''] dev)\<lparr>feeCaps := \<lparr>btcSatPerVb = CapText c, ethMaxFeeGwei = CapText c\<rparr>\<rparr>"

text \<open>
  The rule that the app may only tighten does not hold for fee caps given as text: two
  strings are compared as text, where \<open>''2000''\<close> is not above \<open>''50''\<close>. From the default policy (cap 50)
  a policy with the cap \<open>''50''\<close> counts as a tightening, and from that one a policy with the cap
  \<open>''2000''\<close> does as well; both pass \<open>policyIssues\<close>.
\<close>

theorem text_caps_defeat_tightening:
  "policyIssues (policyRat (textCaps ''50'' False)) False = Inr [] \<and>
   policyIssues (policyRat (textCaps ''2000'' False)) False = Inr [] \<and>
   isTightening (defaultPolicy [''bitcoin_signet''] False) (textCaps ''50'' False) \<and>
   isTightening (textCaps ''50'' False) (textCaps ''2000'' False) \<and>
   capBig (btcSatPerVb (feeCaps (defaultPolicy [''bitcoin_signet''] False))) = Inr 50 \<and>
   capBig (btcSatPerVb (feeCaps (textCaps ''2000'' False))) = Inr 2000"
  by code_simp

end
