(* ===== verification/Spend.thy ===== *)
theory Spend
  imports Payout_Plan Policy
begin

text \<open>
  \<open>lib/wallet/core/btc-spend.ts\<close> and \<open>eth-spend.ts\<close>: the transactions the signer builds. The code
  assembles a transaction and hands it to a library for signing; the model builds the same
  transaction as a record and passes it to \<open>btcSign\<close> or \<open>ethSign\<close> of the library record, whose
  refusal is \<open>LibErr\<close> (errors that the transaction object of the library raises while it is
  being filled are this outcome too).
\<close>

section \<open>Bitcoin\<close>

record btcSpendInput =
  biTxid :: string
  biVout :: int
  biPrevTxHex :: string
  biBranch :: int
  biIndex :: int

type_synonym keyAt = "int \<Rightarrow> int \<Rightarrow> (bytes \<times> bytes) res"

record btcSpendRequest =
  bqNetwork :: string
  bqDestination :: string
  bqAmount :: int
  bqInputs :: "btcSpendInput list"
  bqChangeIndex :: "int option"
  bqFee :: int
  bqFeeCap :: int
  bqMaxSatPerVb :: cap

record btcSpend =
  bRaw :: string
  bTxid :: string
  bVsize :: int
  bFee :: int
  bChange :: int
  bOutpoints :: "string list"

definition failS :: "string \<Rightarrow> 'a res" where
  "failS c = Inl (SpendError c)"

definition outpointOf :: "btcSpendInput \<Rightarrow> string" where
  "outpointOf i = biTxid i @ CHR '':'' # show_int (biVout i)"

text \<open>The previous output an input spends and the key it must belong to.\<close>

definition btcInput :: "lib \<Rightarrow> bool \<Rightarrow> keyAt \<Rightarrow> btcSpendInput \<Rightarrow> ((string \<times> int \<times> bytes \<times> int) \<times> bytes) res" where
  "btcInput L main keyAt i =
     (if \<not> re_hexn 64 (biTxid i) then failS ''txid''
      else case btcFromRaw L (biPrevTxHex i) of None \<Rightarrow> Inl LibErr
      | Some prv \<Rightarrow>
          if prevId prv \<noteq> biTxid i then failS ''prev_tx''
          else andThen (prevGet prv (biVout i)) (\<lambda>out.
            case out of
              Some (Some script, Some amount) \<Rightarrow>
                andThen (keyAt (biBranch i) (biIndex i)) (\<lambda>(priv, pub).
                  if script \<noteq> p2wpkhScript L main pub then failS ''foreign_input''
                  else Inr ((biTxid i, biVout i, p2wpkhScript L main pub, amount), priv))
            | _ \<Rightarrow> failS ''prev_output''))"

fun btcInputs :: "lib \<Rightarrow> bool \<Rightarrow> keyAt \<Rightarrow> string list \<Rightarrow> btcSpendInput list \<Rightarrow> ((string \<times> int \<times> bytes \<times> int) \<times> bytes) list res" where
  "btcInputs L main keyAt seen [] = Inr []"
| "btcInputs L main keyAt seen (i # is) =
     (if outpointOf i \<in> set seen then failS ''duplicate_input''
      else andThen (btcInput L main keyAt i) (\<lambda>x.
        andThen (btcInputs L main keyAt (seen @ [outpointOf i]) is) (\<lambda>xs. Inr (x # xs))))"

definition inValue :: "(string \<times> int \<times> bytes \<times> int) \<Rightarrow> int" where
  "inValue t = snd (snd (snd t))"

text \<open>\<open>Number(req.fee) / vsize > req.maxSatPerVb\<close>\<close>

definition rateAbove :: "int \<Rightarrow> int \<Rightarrow> cap \<Rightarrow> bool" where
  "rateAbove fee vsize c = (case capNum c of None \<Rightarrow> False | Some r \<Rightarrow> (of_int fee / of_int vsize :: rat) > r)"

definition changeOutputs :: "lib \<Rightarrow> bool \<Rightarrow> keyAt \<Rightarrow> int option \<Rightarrow> int \<Rightarrow> ((string + bytes) \<times> int) list res" where
  "changeOutputs L main keyAt changeIndex change =
     (if change > 0 then
        (if change < DUST_P2WPKH then failS ''dust_change''
         else case changeIndex of None \<Rightarrow> failS ''change_index''
           | Some ci \<Rightarrow> andThen (keyAt 1 ci) (\<lambda>(priv, pub). Inr [(Inr (p2wpkhScript L main pub), change)]))
      else Inr [])"

definition buildBtcSpend :: "lib \<Rightarrow> btcSpendRequest \<Rightarrow> keyAt \<Rightarrow> btcSpend res" where
  "buildBtcSpend L req keyAt =
     (case NETWORKS (bqNetwork req) of None \<Rightarrow> Inl TypeErr
      | Some info \<Rightarrow>
          let main = (bech32 info = Some ''bc'') in
          if chain info \<noteq> Bitcoin then failS ''network''
          else andThen (checkAddress L (bqNetwork req) (bqDestination req)) (\<lambda>dest.
          if dest \<noteq> AddrOk (bqDestination req) then failS ''destination''
          else if bqAmount req \<le> 0 then failS ''amount''
          else if bqInputs req = [] \<or> length (bqInputs req) > 200 then failS ''inputs''
          else if bqFee req < 0 \<or> bqFee req > bqFeeCap req then failS ''fee_cap''
          else andThen (btcInputs L main keyAt [] (bqInputs req)) (\<lambda>ins.
          let total = sum_list (map (inValue \<circ> fst) ins); change = total - bqAmount req - bqFee req in
          if change < 0 then failS ''insufficient''
          else andThen (changeOutputs L main keyAt (bqChangeIndex req) change) (\<lambda>chg.
          let tx = \<lparr>txInputs = map fst ins, txOutputs = Inl (bqDestination req) # map fst chg,
                    txAmounts = bqAmount req # map snd chg\<rparr> in
          case btcSign L tx (map snd ins) of None \<Rightarrow> Inl LibErr
          | Some s \<Rightarrow>
              if bsFee s \<noteq> bqFee req then failS ''fee_mismatch''
              else if rateAbove (bqFee req) (bsVsize s) (bqMaxSatPerVb req) then failS ''fee_rate''
              else Inr \<lparr>bRaw = bsRaw s, bTxid = bsId s, bVsize = bsVsize s, bFee = bqFee req, bChange = change,
                        bOutpoints = map outpointOf (bqInputs req)\<rparr>))))"

section \<open>Ethereum\<close>

definition TRANSFER_SELECTOR :: string where
  "TRANSFER_SELECTOR = ''a9059cbb''"

text \<open>\<open>amount.toString(16)\<close>\<close>

fun show_hex :: "nat \<Rightarrow> string" where
  "show_hex n = (if n < 16 then [nibble_char n] else show_hex (n div 16) @ [nibble_char (n mod 16)])"

declare show_hex.simps [simp del]

definition transferCalldata :: "string \<Rightarrow> int \<Rightarrow> string res" where
  "transferCalldata to amount =
     (if \<not> re_ethAddress to then failS ''destination''
      else if amount \<le> 0 \<or> amount \<ge> 2 ^ 256 then failS ''amount''
      else Inr (''0x'' @ TRANSFER_SELECTOR @ padStart 64 (toLowerCase (drop 2 to)) @ padStart 64 (show_hex (nat amount))))"

record ethSpendRequest =
  eqNetwork :: string
  eqAsset :: string
  eqDestination :: string
  eqAmount :: int
  eqNonce :: int
  eqGasLimit :: int
  eqMaxFeePerGas :: int
  eqMaxPriorityFeePerGas :: int
  eqFeeCap :: int
  eqMaxFeePerGasCap :: int

record ethSpend =
  ethRaw :: string
  ethHash :: string
  ethFrom :: string
  ethMaxFee :: int

definition buildEthSpend :: "lib \<Rightarrow> ethSpendRequest \<Rightarrow> bytes \<Rightarrow> ethSpend res" where
  "buildEthSpend L req privateKey =
     (case NETWORKS (eqNetwork req) of None \<Rightarrow> Inl TypeErr
      | Some info \<Rightarrow>
          if chain info \<noteq> Ethereum \<or> chainId info = None then failS ''network''
          else andThen (assetOf (eqNetwork req) (eqAsset req)) (\<lambda>ao. case ao of None \<Rightarrow> failS ''asset''
          | Some ast \<Rightarrow> andThen (checkAddress L (eqNetwork req) (eqDestination req)) (\<lambda>dest.
          if dest \<noteq> AddrOk (eqDestination req) then failS ''destination''
          else if eqAmount req \<le> 0 then failS ''amount''
          else if eqNonce req < 0 then failS ''nonce''
          else if eqGasLimit req < 21000 \<or> eqGasLimit req > 200000 then failS ''gas_limit''
          else if eqMaxPriorityFeePerGas req > eqMaxFeePerGas req then failS ''priority_fee''
          else if eqMaxFeePerGas req > eqMaxFeePerGasCap req then failS ''fee_rate''
          else let maxFee = eqGasLimit req * eqMaxFeePerGas req; native = (kindOf ast = Native) in
          if maxFee > eqFeeCap req then failS ''fee_cap''
          else andThen (if native then Inr [] else transferCalldata (eqDestination req) (eqAmount req)) (\<lambda>dat.
          let tx = \<lparr>etChainId = the (chainId info), etNonce = eqNonce req,
                    etTo = (if native then eqDestination req else the (contract ast)),
                    etValue = (if native then eqAmount req else 0), etData = dat, etGasLimit = eqGasLimit req,
                    etMaxFeePerGas = eqMaxFeePerGas req, etMaxPriorityFeePerGas = eqMaxPriorityFeePerGas req\<rparr> in
          case ethSign L tx privateKey of None \<Rightarrow> Inl LibErr
          | Some s \<Rightarrow>
              if \<not> esVerified s then failS ''signature''
              else Inr \<lparr>ethRaw = esRaw s, ethHash = esHash s, ethFrom = ethAddChecksum L (esSender s), ethMaxFee = maxFee\<rparr>))))"

section \<open>What a built Bitcoin transaction guarantees\<close>

lemma failS_ne [simp]: "failS c \<noteq> Inr x" "failS c = Inl e \<longleftrightarrow> e = SpendError c"
  by (auto simp: failS_def)

lemma case_None_Inl: "(case v of None \<Rightarrow> Inl e | Some x \<Rightarrow> f x) = Inr y \<longleftrightarrow> (\<exists>x. v = Some x \<and> f x = Inr y)"
  by (cases v) auto

lemma case_None_failS: "(case v of None \<Rightarrow> failS e | Some x \<Rightarrow> f x) = Inr y \<longleftrightarrow> (\<exists>x. v = Some x \<and> f x = Inr y)"
  by (cases v) auto

lemma if_failS: "(if b then failS e else m) = Inr y \<longleftrightarrow> \<not> b \<and> m = Inr y"
  by simp

lemmas build_simps = andThen_eq_Inr case_None_Inl case_None_failS if_failS

text \<open>An input that passes: a real output of the transaction it names, locked to the own key.\<close>

definition ownInput :: "lib \<Rightarrow> bool \<Rightarrow> keyAt \<Rightarrow> btcSpendInput \<Rightarrow> (string \<times> int \<times> bytes \<times> int) \<times> bytes \<Rightarrow> bool" where
  "ownInput L main keyAt i x \<longleftrightarrow> (\<exists>prv script amount priv pub. btcFromRaw L (biPrevTxHex i) = Some prv \<and> prevId prv = biTxid i \<and>
     prevGet prv (biVout i) = Inr (Some (Some script, Some amount)) \<and> keyAt (biBranch i) (biIndex i) = Inr (priv, pub) \<and>
     script = p2wpkhScript L main pub \<and> x = ((biTxid i, biVout i, script, amount), priv))"

lemma case_out: "(case out of Some (Some s, Some a) \<Rightarrow> f s a | _ \<Rightarrow> failS c) = Inr y \<longleftrightarrow> (\<exists>s a. out = Some (Some s, Some a) \<and> f s a = Inr y)"
  by (auto split: option.splits prod.splits)

lemma case_pair: "(case p of (a, b) \<Rightarrow> f a b) = y \<longleftrightarrow> (\<exists>a b. p = (a, b) \<and> f a b = y)"
  by (cases p) auto

lemma btcInput_own: "btcInput L main keyAt i = Inr x \<Longrightarrow> ownInput L main keyAt i x"
  unfolding btcInput_def ownInput_def build_simps case_out case_pair sum.inject by blast

lemma btcInputs_own:
  "btcInputs L main keyAt seen is = Inr xs \<Longrightarrow>
     list_all2 (ownInput L main keyAt) is xs \<and> distinct (map outpointOf is) \<and> set (map outpointOf is) \<inter> set seen = {}"
proof (induction "is" arbitrary: seen xs)
  case Nil
  then show ?case by simp
next
  case (Cons i "is")
  from Cons.prems obtain x ys where "outpointOf i \<notin> set seen" "btcInput L main keyAt i = Inr x"
    "btcInputs L main keyAt (seen @ [outpointOf i]) is = Inr ys" "xs = x # ys"
    by (auto simp: exn_simps split: if_splits)
  with Cons.IH [of "seen @ [outpointOf i]" ys] btcInput_own [of L main keyAt i x] show ?case by auto
qed

lemma buildBtcSpend_ok:
  assumes "buildBtcSpend L req keyAt = Inr b"
  obtains info ins chg s where "NETWORKS (bqNetwork req) = Some info" "chain info = Bitcoin"
    "checkAddress L (bqNetwork req) (bqDestination req) = Inr (AddrOk (bqDestination req))" "0 < bqAmount req"
    "bqInputs req \<noteq> []" "0 \<le> bqFee req" "bqFee req \<le> bqFeeCap req"
    "btcInputs L (bech32 info = Some ''bc'') keyAt [] (bqInputs req) = Inr ins"
    "bChange b = sum_list (map (inValue \<circ> fst) ins) - bqAmount req - bqFee req" "0 \<le> bChange b"
    "changeOutputs L (bech32 info = Some ''bc'') keyAt (bqChangeIndex req) (bChange b) = Inr chg"
    "btcSign L \<lparr>txInputs = map fst ins, txOutputs = Inl (bqDestination req) # map fst chg, txAmounts = bqAmount req # map snd chg\<rparr>
       (map snd ins) = Some s" "bsFee s = bqFee req" "\<not> rateAbove (bqFee req) (bsVsize s) (bqMaxSatPerVb req)"
    "b = \<lparr>bRaw = bsRaw s, bTxid = bsId s, bVsize = bsVsize s, bFee = bqFee req, bChange = bChange b,
          bOutpoints = map outpointOf (bqInputs req)\<rparr>"
proof -
  from assms obtain info dest ins chg s where h: "NETWORKS (bqNetwork req) = Some info" "\<not> chain info \<noteq> Bitcoin"
    "checkAddress L (bqNetwork req) (bqDestination req) = Inr dest" "\<not> dest \<noteq> AddrOk (bqDestination req)"
    "\<not> bqAmount req \<le> 0" "\<not> (bqInputs req = [] \<or> length (bqInputs req) > 200)" "\<not> (bqFee req < 0 \<or> bqFee req > bqFeeCap req)"
    "btcInputs L (bech32 info = Some ''bc'') keyAt [] (bqInputs req) = Inr ins"
    "\<not> sum_list (map (inValue \<circ> fst) ins) - bqAmount req - bqFee req < 0"
    "changeOutputs L (bech32 info = Some ''bc'') keyAt (bqChangeIndex req) (sum_list (map (inValue \<circ> fst) ins) - bqAmount req - bqFee req) = Inr chg"
    "btcSign L \<lparr>txInputs = map fst ins, txOutputs = Inl (bqDestination req) # map fst chg, txAmounts = bqAmount req # map snd chg\<rparr>
       (map snd ins) = Some s" "\<not> bsFee s \<noteq> bqFee req" "\<not> rateAbove (bqFee req) (bsVsize s) (bqMaxSatPerVb req)"
    "Inr \<lparr>bRaw = bsRaw s, bTxid = bsId s, bVsize = bsVsize s, bFee = bqFee req,
          bChange = sum_list (map (inValue \<circ> fst) ins) - bqAmount req - bqFee req,
          bOutpoints = map outpointOf (bqInputs req)\<rparr> = (Inr b :: btcSpend res)"
    unfolding buildBtcSpend_def Let_def build_simps by blast
  have b: "b = \<lparr>bRaw = bsRaw s, bTxid = bsId s, bVsize = bsVsize s, bFee = bqFee req,
      bChange = sum_list (map (inValue \<circ> fst) ins) - bqAmount req - bqFee req,
      bOutpoints = map outpointOf (bqInputs req)\<rparr>"
    using h(14) by simp
  then have c: "bChange b = sum_list (map (inValue \<circ> fst) ins) - bqAmount req - bqFee req" by simp
  show ?thesis
    by (rule that [of info ins chg s]) (use h(1-9,11-13) h(10) [folded c] b in \<open>simp_all add: c\<close>)
qed

lemma changeOutputs_ok:
  assumes "changeOutputs L main keyAt ci change = Inr chg" "0 \<le> change"
  shows "(change = 0 \<and> chg = []) \<or>
    (294 \<le> change \<and> (\<exists>i priv pub. ci = Some i \<and> keyAt 1 i = Inr (priv, pub) \<and> chg = [(Inr (p2wpkhScript L main pub), change)]))"
  using assms by (auto simp: changeOutputs_def DUST_P2WPKH_def exn_simps split: if_splits option.splits)

text \<open>
  C15. A Bitcoin payment the signer builds spends exactly what was approved: the transaction given
  to the signing library pays the requested amount to the requested destination and otherwise
  only change to an own key (none, or at least the dust limit); every input is an output that
  the transaction it names really has and that belongs to an own key, none twice; inputs equal
  amount plus fee plus change; and the fee is within the cap of the intent.
\<close>

theorem btc_spend_is_sound:
  assumes "buildBtcSpend L req keyAt = Inr b"
  shows "\<exists>main ins chg s.
    btcSign L \<lparr>txInputs = map fst ins, txOutputs = Inl (bqDestination req) # map fst chg, txAmounts = bqAmount req # map snd chg\<rparr>
      (map snd ins) = Some s \<and> bRaw b = bsRaw s \<and> bTxid b = bsId s \<and>
    list_all2 (ownInput L main keyAt) (bqInputs req) ins \<and> distinct (bOutpoints b) \<and> bOutpoints b = map outpointOf (bqInputs req) \<and>
    sum_list (map (inValue \<circ> fst) ins) = bqAmount req + bFee b + bChange b \<and>
    ((bChange b = 0 \<and> chg = []) \<or>
     (294 \<le> bChange b \<and> (\<exists>i priv pub. bqChangeIndex req = Some i \<and> keyAt 1 i = Inr (priv, pub) \<and>
        chg = [(Inr (p2wpkhScript L main pub), bChange b)]))) \<and>
    0 \<le> bFee b \<and> bFee b \<le> bqFeeCap req \<and> 0 < bqAmount req"
  using assms
proof (rule buildBtcSpend_ok)
  fix info ins chg s
  assume h: "0 < bqAmount req" "0 \<le> bqFee req" "bqFee req \<le> bqFeeCap req"
    "btcInputs L (bech32 info = Some ''bc'') keyAt [] (bqInputs req) = Inr ins"
    "bChange b = sum_list (map (inValue \<circ> fst) ins) - bqAmount req - bqFee req" "0 \<le> bChange b"
    "changeOutputs L (bech32 info = Some ''bc'') keyAt (bqChangeIndex req) (bChange b) = Inr chg"
    "btcSign L \<lparr>txInputs = map fst ins, txOutputs = Inl (bqDestination req) # map fst chg, txAmounts = bqAmount req # map snd chg\<rparr>
       (map snd ins) = Some s"
    "b = \<lparr>bRaw = bsRaw s, bTxid = bsId s, bVsize = bsVsize s, bFee = bqFee req, bChange = bChange b,
          bOutpoints = map outpointOf (bqInputs req)\<rparr>"
  have f: "bRaw b = bsRaw s" "bTxid b = bsId s" "bFee b = bqFee req" "bOutpoints b = map outpointOf (bqInputs req)"
    by (simp_all add: arg_cong [OF h(9), of bRaw] arg_cong [OF h(9), of bTxid] arg_cong [OF h(9), of bFee] arg_cong [OF h(9), of bOutpoints])
  note own = btcInputs_own [OF h(4)] and chg = changeOutputs_ok [OF h(7,6)]
  have "sum_list (map (inValue \<circ> fst) ins) = bqAmount req + bFee b + bChange b" using h(5) f(3) by simp
  with own chg h(1-3,8) f show ?thesis
    by (intro exI [of _ "bech32 info = Some ''bc''"] exI [of _ ins] exI [of _ chg] exI [of _ s]) simp
qed

definition demoBtcRequest :: btcSpendRequest where
  "demoBtcRequest = \<lparr>bqNetwork = ''bitcoin_signet'', bqDestination = ''tb1qa'', bqAmount = 20000,
     bqInputs = [\<lparr>biTxid = replicate 64 (CHR ''a''), biVout = 0, biPrevTxHex = replicate 64 (CHR ''a''), biBranch = 0, biIndex = 4\<rparr>],
     bqChangeIndex = Some 0, bqFee = 500, bqFeeCap = 5000, bqMaxSatPerVb = CapNum 50\<rparr>"

theorem btc_spend_is_sound_witness:
  "\<exists>b. buildBtcSpend demoLib demoBtcRequest (\<lambda>br i. Inr ([1], [2])) = Inr b \<and> bFee b \<le> bqFeeCap demoBtcRequest \<and> bChange b = 29500"
proof -
  have "(case buildBtcSpend demoLib demoBtcRequest (\<lambda>br i. Inr ([1], [2])) of Inl e \<Rightarrow> False | Inr b \<Rightarrow> bChange b = 29500)"
    by code_simp
  then obtain b where h: "buildBtcSpend demoLib demoBtcRequest (\<lambda>br i. Inr ([1], [2])) = Inr b" and c: "bChange b = 29500"
    by (cases "buildBtcSpend demoLib demoBtcRequest (\<lambda>br i. Inr ([1], [2]))") simp_all
  from btc_spend_is_sound [OF h] have "bFee b \<le> bqFeeCap demoBtcRequest" by blast
  with h c show ?thesis by blast
qed

section \<open>What a built Ethereum transaction guarantees\<close>

lemma show_hex_length: "n < 16 ^ k \<Longrightarrow> 0 < k \<Longrightarrow> length (show_hex n) \<le> k"
proof (induction k arbitrary: n)
  case 0
  then show ?case by simp
next
  case (Suc k)
  show ?case
  proof (cases "n < 16")
    case True
    then show ?thesis by (subst show_hex.simps) simp
  next
    case False
    with Suc.prems have "0 < k" by (cases k) auto
    moreover have "n div 16 < 16 ^ k" using Suc.prems by (simp add: less_mult_imp_div_less mult.commute)
    ultimately have "length (show_hex (n div 16)) \<le> k" by (rule Suc.IH [rotated])
    with False show ?thesis by (subst show_hex.simps) simp
  qed
qed

definition read_hex :: "string \<Rightarrow> nat" where
  "read_hex s = foldl (\<lambda>a c. 16 * a + the (nibble_val c)) 0 s"

lemma read_hex_snoc [simp]: "read_hex (s @ [c]) = 16 * read_hex s + the (nibble_val c)"
  by (simp add: read_hex_def)

lemma read_show_hex: "read_hex (show_hex n) = n"
proof (induction n rule: show_hex.induct)
  case (1 n)
  show ?case
  proof (cases "n < 16")
    case True
    then show ?thesis by (subst show_hex.simps) (simp add: read_hex_def)
  next
    case False
    with 1 show ?thesis by (subst show_hex.simps) simp
  qed
qed

lemma read_hex_pad: "read_hex (padStart k s) = read_hex s"
proof -
  have z: "nibble_val (CHR ''0'') = Some 0" by code_simp
  have "foldl (\<lambda>a c. 16 * a + the (nibble_val c)) 0 (replicate j (CHR ''0'')) = (0::nat)" for j
    by (induction j) (simp_all add: z)
  then show ?thesis by (simp add: read_hex_def padStart_def)
qed

text \<open>
  The call data of a token transfer says who gets how much: it has the fixed selector and 68
  bytes, and equal call data means the same recipient (up to the case of letters) and the same
  amount.
\<close>

theorem calldata_is_unambiguous:
  assumes "transferCalldata a m = Inr d" "transferCalldata b n = Inr d"
  shows "toLowerCase (drop 2 a) = toLowerCase (drop 2 b) \<and> m = n \<and> length d = 2 + 2 * 68 \<and> take 10 d = ''0xa9059cbb''"
proof -
  have h: "re_ethAddress a" "re_ethAddress b" "0 < m" "0 < n" "m < 2 ^ 256" "n < 2 ^ 256"
    "d = ''0x'' @ TRANSFER_SELECTOR @ padStart 64 (toLowerCase (drop 2 a)) @ padStart 64 (show_hex (nat m))"
    "d = ''0x'' @ TRANSFER_SELECTOR @ padStart 64 (toLowerCase (drop 2 b)) @ padStart 64 (show_hex (nat n))"
    using assms by (auto simp: transferCalldata_def split: if_splits)
  have l: "length (toLowerCase (drop 2 a)) = 40" "length (toLowerCase (drop 2 b)) = 40"
    using h(1,2) by (simp_all add: re_ethAddress_def)
  have hex: "length (padStart 64 (show_hex (nat k))) = 64" if "0 < k" "k < 2 ^ 256" for k :: int
  proof -
    have "nat k < 16 ^ 64" using that by (simp add: nat_less_iff)
    then show ?thesis using show_hex_length [of "nat k" 64] by (simp add: padStart_def)
  qed
  have "padStart 64 (toLowerCase (drop 2 a)) = padStart 64 (toLowerCase (drop 2 b)) \<and>
      padStart 64 (show_hex (nat m)) = padStart 64 (show_hex (nat n))"
    using h(7,8) l by (simp add: padStart_def)
  then have "toLowerCase (drop 2 a) = toLowerCase (drop 2 b)" "nat m = nat n"
    using l by (simp add: padStart_def, metis read_hex_pad read_show_hex)
  moreover have "length d = 138" "take 10 d = ''0xa9059cbb''"
    using l hex [OF h(3,5)] by (simp_all add: h(7) TRANSFER_SELECTOR_def padStart_def)
  ultimately show ?thesis using h(3,4) by simp
qed

theorem calldata_is_unambiguous_witness:
  "\<exists>d. transferCalldata (''0x'' @ replicate 40 (CHR ''b'')) 1000 = Inr d \<and> length d = 2 + 2 * 68"
proof -
  have "\<not> (case transferCalldata (''0x'' @ replicate 40 (CHR ''b'')) 1000 of Inl e \<Rightarrow> True | Inr d \<Rightarrow> False)" by code_simp
  then obtain d where h: "transferCalldata (''0x'' @ replicate 40 (CHR ''b'')) 1000 = Inr d"
    by (cases "transferCalldata (''0x'' @ replicate 40 (CHR ''b'')) 1000") simp_all
  with calldata_is_unambiguous [OF h h] show ?thesis by blast
qed

lemma buildEthSpend_ok:
  assumes "buildEthSpend L req priv = Inr e"
  obtains info ast dat s where "NETWORKS (eqNetwork req) = Some info" "chain info = Ethereum"
    "assetOf (eqNetwork req) (eqAsset req) = Inr (Some ast)"
    "checkAddress L (eqNetwork req) (eqDestination req) = Inr (AddrOk (eqDestination req))"
    "0 < eqAmount req" "0 \<le> eqNonce req" "21000 \<le> eqGasLimit req" "eqGasLimit req \<le> 200000"
    "eqMaxPriorityFeePerGas req \<le> eqMaxFeePerGas req" "eqMaxFeePerGas req \<le> eqMaxFeePerGasCap req"
    "eqGasLimit req * eqMaxFeePerGas req \<le> eqFeeCap req"
    "(if kindOf ast = Native then Inr [] else transferCalldata (eqDestination req) (eqAmount req)) = Inr dat"
    "ethSign L \<lparr>etChainId = the (chainId info), etNonce = eqNonce req,
       etTo = (if kindOf ast = Native then eqDestination req else the (contract ast)),
       etValue = (if kindOf ast = Native then eqAmount req else 0), etData = dat, etGasLimit = eqGasLimit req,
       etMaxFeePerGas = eqMaxFeePerGas req, etMaxPriorityFeePerGas = eqMaxPriorityFeePerGas req\<rparr> priv = Some s"
    "esVerified s"
    "e = \<lparr>ethRaw = esRaw s, ethHash = esHash s, ethFrom = ethAddChecksum L (esSender s), ethMaxFee = eqGasLimit req * eqMaxFeePerGas req\<rparr>"
proof -
  obtain info ao ast dest dat s where h: "NETWORKS (eqNetwork req) = Some info"
    "\<not> (chain info \<noteq> Ethereum \<or> chainId info = None)" "assetOf (eqNetwork req) (eqAsset req) = Inr ao" "ao = Some ast"
    "checkAddress L (eqNetwork req) (eqDestination req) = Inr dest" "\<not> dest \<noteq> AddrOk (eqDestination req)"
    "\<not> eqAmount req \<le> 0" "\<not> eqNonce req < 0" "\<not> (eqGasLimit req < 21000 \<or> eqGasLimit req > 200000)"
    "\<not> eqMaxPriorityFeePerGas req > eqMaxFeePerGas req" "\<not> eqMaxFeePerGas req > eqMaxFeePerGasCap req"
    "\<not> eqGasLimit req * eqMaxFeePerGas req > eqFeeCap req"
    "(if kindOf ast = Native then Inr [] else transferCalldata (eqDestination req) (eqAmount req)) = Inr dat"
    "ethSign L \<lparr>etChainId = the (chainId info), etNonce = eqNonce req,
       etTo = (if kindOf ast = Native then eqDestination req else the (contract ast)),
       etValue = (if kindOf ast = Native then eqAmount req else 0), etData = dat, etGasLimit = eqGasLimit req,
       etMaxFeePerGas = eqMaxFeePerGas req, etMaxPriorityFeePerGas = eqMaxPriorityFeePerGas req\<rparr> priv = Some s"
    "\<not> \<not> esVerified s"
    "Inr \<lparr>ethRaw = esRaw s, ethHash = esHash s, ethFrom = ethAddChecksum L (esSender s), ethMaxFee = eqGasLimit req * eqMaxFeePerGas req\<rparr>
      = (Inr e :: ethSpend res)"
  proof -
    from assms show thesis
      unfolding buildEthSpend_def Let_def build_simps by (elim exE conjE) (rule that, assumption+)
  qed
  show ?thesis
    by (rule that [of info ast dat s]) (use h in simp_all)
qed

text \<open>
  C16. An Ethereum payment the signer builds pays what was approved and nothing else: for Ether the
  transaction carries destination and amount and no data, for a token it calls the fixed
  contract of that asset with value zero and the transfer of exactly that amount to that
  destination; the chain is the one of the network, and gas limit times gas price stays within
  the cap of the intent and the gas price within the cap of the policy.
\<close>

theorem eth_spend_is_sound:
  assumes "buildEthSpend L req priv = Inr e"
  shows "\<exists>info ast tx s. NETWORKS (eqNetwork req) = Some info \<and> assetOf (eqNetwork req) (eqAsset req) = Inr (Some ast) \<and>
    ethSign L tx priv = Some s \<and> ethRaw e = esRaw s \<and> chainId info = Some (etChainId tx) \<and> etNonce tx = eqNonce req \<and>
    (kindOf ast = Native \<longrightarrow> etTo tx = eqDestination req \<and> etValue tx = eqAmount req \<and> etData tx = []) \<and>
    (kindOf ast = Erc20 \<longrightarrow> contract ast = Some (etTo tx) \<and> etValue tx = 0 \<and>
       transferCalldata (eqDestination req) (eqAmount req) = Inr (etData tx)) \<and>
    ethMaxFee e = etGasLimit tx * etMaxFeePerGas tx \<and> ethMaxFee e \<le> eqFeeCap req \<and> etMaxFeePerGas tx \<le> eqMaxFeePerGasCap req"
  using assms
proof (rule buildEthSpend_ok)
  fix info :: networkInfo and ast :: assetInfo and dat and s :: ethSigned
  let ?tx = "\<lparr>etChainId = the (chainId info), etNonce = eqNonce req,
       etTo = (if kindOf ast = Native then eqDestination req else the (contract ast)),
       etValue = (if kindOf ast = Native then eqAmount req else 0), etData = dat, etGasLimit = eqGasLimit req,
       etMaxFeePerGas = eqMaxFeePerGas req, etMaxPriorityFeePerGas = eqMaxPriorityFeePerGas req\<rparr>"
  assume h: "NETWORKS (eqNetwork req) = Some info" "chain info = Ethereum" "assetOf (eqNetwork req) (eqAsset req) = Inr (Some ast)"
    "eqMaxFeePerGas req \<le> eqMaxFeePerGasCap req" "eqGasLimit req * eqMaxFeePerGas req \<le> eqFeeCap req"
    "(if kindOf ast = Native then Inr [] else transferCalldata (eqDestination req) (eqAmount req)) = Inr dat"
    "ethSign L ?tx priv = Some s"
    "e = \<lparr>ethRaw = esRaw s, ethHash = esHash s, ethFrom = ethAddChecksum L (esSender s), ethMaxFee = eqGasLimit req * eqMaxFeePerGas req\<rparr>"
  obtain c where "chainId info = Some c" using chainId_ethereum [OF h(1)] h(2) by auto
  moreover have "kindOf ast = Erc20 \<Longrightarrow> contract ast \<noteq> None" using asset_contract [OF h(3)] by simp
  ultimately show ?thesis using h
    by (intro exI [of _ info] exI [of _ ast] exI [of _ ?tx] exI [of _ s]) auto
qed

definition demoEthRequest :: ethSpendRequest where
  "demoEthRequest = \<lparr>eqNetwork = ''ethereum_sepolia'', eqAsset = ''USDC'', eqDestination = ''0x'' @ replicate 40 (CHR ''b''),
     eqAmount = 1000, eqNonce = 3, eqGasLimit = 60000, eqMaxFeePerGas = 10, eqMaxPriorityFeePerGas = 1,
     eqFeeCap = 700000, eqMaxFeePerGasCap = 50\<rparr>"

theorem eth_spend_is_sound_witness:
  "\<exists>e. buildEthSpend demoLib demoEthRequest [1] = Inr e \<and> ethMaxFee e \<le> eqFeeCap demoEthRequest"
proof -
  have "\<not> (case buildEthSpend demoLib demoEthRequest [1] of Inl e \<Rightarrow> True | Inr d \<Rightarrow> False)" by code_simp
  then obtain e where h: "buildEthSpend demoLib demoEthRequest [1] = Inr e"
    by (cases "buildEthSpend demoLib demoEthRequest [1]") simp_all
  with eth_spend_is_sound [OF h] show ?thesis by blast
qed

end
