(* ===== verification/WebAuthn.thy ===== *)
theory WebAuthn
  imports Networks Policy
begin

text \<open>
  \<open>signer/webauthn.ts\<close>: base64url, the CBOR subset of a COSE key, authenticator data, client data,
  and the checks of an enrolment and of an assertion. Hash, HMAC and ECDSA verification come
  from the library record. Text decoded from bytes keeps its bytes (ill-formed UTF-8 is not
  replaced).

  The recursion of \<open>cborDecode\<close> is bounded by its own depth limit; the argument \<open>r\<close> is the depth
  that is left (five calls nested at most), so the function is total.
\<close>

definition b64val :: "char \<Rightarrow> nat" where
  "b64val c =
     (if is_upper c then cval c - 65 else if is_lower c then cval c - 71
      else if is_digit c then cval c + 4 else if c = CHR ''-'' then 62 else 63)"

definition b64char :: "nat \<Rightarrow> char" where
  "b64char n = (if n < 26 then char_of (65 + n) else if n < 52 then char_of (71 + n)
     else if n < 62 then char_of (n - 4) else if n = 62 then CHR ''-'' else CHR ''_'')"

text \<open>\<open>Buffer.toString("base64url")\<close> and \<open>Buffer.from(s, "base64url")\<close> on letters of the alphabet.\<close>

fun b64uEncode :: "bytes \<Rightarrow> string" where
  "b64uEncode (a # b # c # r) =
     b64char (unat a div 4) # b64char (unat a mod 4 * 16 + unat b div 16) #
     b64char (unat b mod 16 * 4 + unat c div 64) # b64char (unat c mod 64) # b64uEncode r"
| "b64uEncode [a, b] =
     [b64char (unat a div 4), b64char (unat a mod 4 * 16 + unat b div 16), b64char (unat b mod 16 * 4)]"
| "b64uEncode [a] = [b64char (unat a div 4), b64char (unat a mod 4 * 16)]"
| "b64uEncode [] = []"

fun b64bytes :: "nat list \<Rightarrow> bytes" where
  "b64bytes (a # b # c # d # r) =
     word_of_nat (a * 4 + b div 16) # word_of_nat (b mod 16 * 16 + c div 4) # word_of_nat (c mod 4 * 64 + d) # b64bytes r"
| "b64bytes [a, b, c] = [word_of_nat (a * 4 + b div 16), word_of_nat (b mod 16 * 16 + c div 4)]"
| "b64bytes [a, b] = [word_of_nat (a * 4 + b div 16)]"
| "b64bytes _ = []"

definition b64uDecode :: "string \<Rightarrow> nat \<Rightarrow> bytes res" where
  "b64uDecode s mx =
     (if length s > mx \<or> \<not> list_all is_b64u s then Inl (WebAuthnFailure ''encoding'')
      else Inr (b64bytes (map b64val s)))"

fun hexDecode :: "string \<Rightarrow> bytes" where
  "hexDecode (a # b # r) =
     (case (nibble_val a, nibble_val b) of (Some x, Some y) \<Rightarrow> word_of_nat (16 * x + y) # hexDecode r | _ \<Rightarrow> [])"
| "hexDecode _ = []"

definition hmac :: "lib \<Rightarrow> string \<Rightarrow> string \<Rightarrow> bytes" where
  "hmac L secretHex msg = hmac256 L (hexDecode secretHex) (utf8 msg)"

definition ofBytes :: "bytes \<Rightarrow> string" where
  "ofBytes bs = map (\<lambda>b. char_of (unat b)) bs"

definition failW :: "string \<Rightarrow> 'a res" where
  "failW c = Inl (WebAuthnFailure c)"

section \<open>CBOR\<close>

datatype cbor = CInt int | CBytes bytes | CText bytes | CArr "cbor list" | CMap "(cbor \<times> cbor) list"

definition isKey :: "cbor \<Rightarrow> bool" where
  "isKey c = (case c of CInt _ \<Rightarrow> True | CText _ \<Rightarrow> True | _ \<Rightarrow> False)"

text \<open>
  \<open>readUInt16BE\<close> throws a \<open>RangeError\<close> past the end. The byte after a one-byte length is read
  unchecked: where it is missing, every continuation of the code ends in \<open>encoding\<close>, since
  the position is then past the end.
\<close>

definition readUInt16BE :: "bytes \<Rightarrow> nat \<Rightarrow> nat res" where
  "readUInt16BE buf pos = (if pos + 2 \<le> length buf then Inr (unat (buf ! pos) * 256 + unat (buf ! (pos + 1))) else Inl RangeErr)"

definition cborHead :: "bytes \<Rightarrow> nat \<Rightarrow> (nat \<times> nat \<times> nat) res" where
  "cborHead buf off =
     (let head = unat (buf ! off); major = head div 32; info = head mod 32; pos = off + 1 in
      if info < 24 then Inr (major, info, pos)
      else if info = 24 then (if pos < length buf then Inr (major, unat (buf ! pos), pos + 1) else failW ''encoding'')
      else if info = 25 then andThen (readUInt16BE buf pos) (\<lambda>n. Inr (major, n, pos + 2))
      else failW ''encoding'')"

fun cborDecode :: "nat \<Rightarrow> bytes \<Rightarrow> nat \<Rightarrow> (cbor \<times> nat) res"
  and cborItems :: "nat \<Rightarrow> nat \<Rightarrow> bytes \<Rightarrow> nat \<Rightarrow> (cbor list \<times> nat) res"
  and cborPairs :: "nat \<Rightarrow> nat \<Rightarrow> bytes \<Rightarrow> nat \<Rightarrow> (cbor \<times> cbor) list \<Rightarrow> ((cbor \<times> cbor) list \<times> nat) res" where
  "cborDecode 0 buf off = failW ''encoding''"
| "cborDecode (Suc r) buf off =
     (if off \<ge> length buf then failW ''encoding''
      else andThen (cborHead buf off) (\<lambda>(major, len, pos).
        if major = 0 then Inr (CInt (int len), pos)
        else if major = 1 then Inr (CInt (- 1 - int len), pos)
        else if major = 2 \<or> major = 3 then
          (if pos + len > length buf then failW ''encoding''
           else let bs = take len (drop pos buf) in Inr (if major = 2 then CBytes bs else CText bs, pos + len))
        else if major = 4 then andThen (cborItems r len buf pos) (\<lambda>(xs, p). Inr (CArr xs, p))
        else if major = 5 then andThen (cborPairs r len buf pos []) (\<lambda>(m, p). Inr (CMap m, p))
        else failW ''encoding''))"
| "cborItems r 0 buf pos = Inr ([], pos)"
| "cborItems r (Suc n) buf pos =
     andThen (cborDecode r buf pos) (\<lambda>(v, p). andThen (cborItems r n buf p) (\<lambda>(vs, q). Inr (v # vs, q)))"
| "cborPairs r 0 buf pos m = Inr (m, pos)"
| "cborPairs r (Suc n) buf pos m =
     andThen (cborDecode r buf pos) (\<lambda>(k, p). andThen (cborDecode r buf p) (\<lambda>(v, q).
       if \<not> isKey k then failW ''encoding''
       else if mapGet m k \<noteq> None then failW ''encoding''
       else cborPairs r n buf q (m @ [(k, v)])))"

definition coseP256 :: "cbor \<Rightarrow> (bytes \<times> bytes) res" where
  "coseP256 c =
     (case c of CMap m \<Rightarrow>
        if mapGet m (CInt 1) \<noteq> Some (CInt 2) \<or> mapGet m (CInt 3) \<noteq> Some (CInt (- 7)) \<or> mapGet m (CInt (- 1)) \<noteq> Some (CInt 1)
        then failW ''algorithm''
        else (case (mapGet m (CInt (- 2)), mapGet m (CInt (- 3))) of
            (Some (CBytes x), Some (CBytes y)) \<Rightarrow>
              if length x \<noteq> 32 \<or> length y \<noteq> 32 then failW ''algorithm'' else Inr (x, y)
          | _ \<Rightarrow> failW ''algorithm'')
      | _ \<Rightarrow> failW ''encoding'')"

definition SPKI_P256_PREFIX :: bytes where
  "SPKI_P256_PREFIX = hexDecode ''3059301306072a8648ce3d020106082a8648ce3d030107034200''"

definition spkiFromXY :: "bytes \<Rightarrow> bytes \<Rightarrow> bytes" where
  "spkiFromXY x y = SPKI_P256_PREFIX @ [4] @ x @ y"

definition pointOfSpki :: "bytes \<Rightarrow> bytes res" where
  "pointOfSpki spki =
     (if length spki \<noteq> 91 \<or> take 26 spki \<noteq> SPKI_P256_PREFIX \<or> spki ! 26 \<noteq> 4 then failW ''algorithm''
      else Inr (drop 27 spki))"

section \<open>Authenticator data and client data\<close>

record attestedT =
  aaguidB :: bytes
  credIdB :: bytes
  coseC :: cbor

record authData =
  rpIdHash :: bytes
  flags :: "8 word"
  adCounter :: int
  attested :: "attestedT option"

definition flagUP :: "8 word \<Rightarrow> bool" where "flagUP f = bit f 0"
definition flagUV :: "8 word \<Rightarrow> bool" where "flagUV f = bit f 2"
definition flagBE :: "8 word \<Rightarrow> bool" where "flagBE f = bit f 3"
definition flagBS :: "8 word \<Rightarrow> bool" where "flagBS f = bit f 4"
definition flagAT :: "8 word \<Rightarrow> bool" where "flagAT f = bit f 6"
definition flagED :: "8 word \<Rightarrow> bool" where "flagED f = bit f 7"

definition parseAttested :: "bytes \<Rightarrow> nat \<Rightarrow> (attestedT \<times> nat) res" where
  "parseAttested buf pos =
     (if length buf < pos + 18 then failW ''encoding''
      else andThen (readUInt16BE buf (pos + 16)) (\<lambda>len.
        if len < 16 \<or> len > 1023 \<or> length buf < pos + 18 + len then failW ''encoding''
        else andThen (cborDecode 5 buf (pos + 18 + len)) (\<lambda>(c, nxt).
          Inr (\<lparr>aaguidB = take 16 (drop pos buf), credIdB = take len (drop (pos + 18) buf), coseC = c\<rparr>, nxt))))"

definition parseAuthData :: "bytes \<Rightarrow> authData res" where
  "parseAuthData buf =
     (if length buf < 37 \<or> length buf > 1024 then failW ''encoding''
      else let fl = buf ! 32;
               cnt = int (unat (buf ! 33)) * 16777216 + int (unat (buf ! 34)) * 65536 + int (unat (buf ! 35)) * 256 + int (unat (buf ! 36));
               out = \<lparr>rpIdHash = take 32 buf, flags = fl, adCounter = cnt, attested = None\<rparr> in
           andThen (if flagAT fl then andThen (parseAttested buf 37) (\<lambda>(a, p). Inr (out\<lparr>attested := Some a\<rparr>, p))
                    else Inr (out, 37)) (\<lambda>(res, pos).
             if flagED fl \<or> pos \<noteq> length buf then failW ''encoding'' else Inr res))"

definition checkClientData :: "bytes \<Rightarrow> string \<Rightarrow> bytes \<Rightarrow> string \<Rightarrow> unit res" where
  "checkClientData raw typ challenge origin =
     (if length raw > 2048 then failW ''encoding''
      else case jsonParse (ofBytes raw) of
        None \<Rightarrow> failW ''encoding''
      | Some JNull \<Rightarrow> Inl TypeErr
      | Some v \<Rightarrow>
          (let cd = (case v of JObj kvs \<Rightarrow> kvs | _ \<Rightarrow> []) in
           if jfield cd ''type'' \<noteq> Some (JStr typ) then failW ''client_type''
           else if jfield cd ''challenge'' \<noteq> Some (JStr (b64uEncode challenge)) then failW ''challenge''
           else if jfield cd ''origin'' \<noteq> Some (JStr origin) then failW ''origin''
           else if jfield cd ''crossOrigin'' \<noteq> None \<and> jfield cd ''crossOrigin'' \<noteq> Some (JBool False) then failW ''cross_origin''
           else if jfield cd ''topOrigin'' \<noteq> None then failW ''cross_origin''
           else Inr ()))"

definition checkFlags :: "lib \<Rightarrow> authData \<Rightarrow> string \<Rightarrow> unit res" where
  "checkFlags L a rpId =
     (if rpIdHash a \<noteq> sha256 L (utf8 rpId) then failW ''rp''
      else if \<not> flagUP (flags a) then failW ''user_presence''
      else if \<not> flagUV (flags a) then failW ''user_verification''
      else if flagBE (flags a) \<or> flagBS (flags a) then failW ''backup''
      else Inr ())"

section \<open>Enrolment\<close>

definition enrolChallenge :: "lib \<Rightarrow> string \<Rightarrow> string \<Rightarrow> bytes" where
  "enrolChallenge L secretHex enrolId = hmac L secretHex (''klick-enrol/v1|challenge|'' @ enrolId)"

definition enrolMac :: "lib \<Rightarrow> string \<Rightarrow> string \<Rightarrow> string \<Rightarrow> bytes \<Rightarrow> bytes \<Rightarrow> bytes \<Rightarrow> bytes" where
  "enrolMac L secretHex enrolId credId clientDataJSON authenticatorData spki =
     (let h = (\<lambda>b. hexEncode (sha256 L b)) in
      hmac L secretHex (''klick-enrol/v1|'' @ enrolId @ ''|'' @ credId @ ''|'' @ h clientDataJSON @ ''|'' @
        h authenticatorData @ ''|'' @ h spki))"

record enrolInput =
  eiEnrolId :: string
  eiCredId :: string
  eiSpki :: string
  eiAuthenticatorData :: string
  eiClientDataJSON :: string
  eiMac :: string

record enrolled =
  enCredId :: string
  enSpki :: string
  enAaguid :: string
  enCounter :: int

definition verifyEnrolment :: "lib \<Rightarrow> enrolInput \<Rightarrow> string \<Rightarrow> string \<Rightarrow> string \<Rightarrow> enrolled res" where
  "verifyEnrolment L i rpId origin secret =
     andThen (b64uDecode (eiCredId i) 1400) (\<lambda>credId.
     andThen (b64uDecode (eiSpki i) 200) (\<lambda>spki.
     andThen (b64uDecode (eiAuthenticatorData i) 1400) (\<lambda>ad.
     andThen (b64uDecode (eiClientDataJSON i) 2800) (\<lambda>cdj.
     andThen (b64uDecode (eiMac i) 64) (\<lambda>mac.
     if mac \<noteq> enrolMac L secret (eiEnrolId i) (eiCredId i) cdj ad spki then failW ''mac''
     else
     andThen (checkClientData cdj ''webauthn.create'' (enrolChallenge L secret (eiEnrolId i)) origin) (\<lambda>_.
     andThen (parseAuthData ad) (\<lambda>a.
     andThen (checkFlags L a rpId) (\<lambda>_.
     case attested a of None \<Rightarrow> failW ''attested''
     | Some att \<Rightarrow>
         if credIdB att \<noteq> credId then failW ''credential''
         else andThen (coseP256 (coseC att)) (\<lambda>(x, y).
           andThen (pointOfSpki spki) (\<lambda>pt.
             if pt \<noteq> x @ y then failW ''key_mismatch''
             else Inr \<lparr>enCredId = b64uEncode credId, enSpki = b64uEncode spki,
                       enAaguid = hexEncode (aaguidB att), enCounter = adCounter a\<rparr>))))))))))"

section \<open>Assertion\<close>

record assertionInput =
  asAuthenticatorData :: string
  asClientDataJSON :: string
  asSignature :: string

record assertionCtx =
  cxRpId :: string
  cxOrigin :: string
  cxChallenge :: bytes
  cxSpki :: string
  cxStoredCounter :: int

definition verifyAssertion :: "lib \<Rightarrow> assertionInput \<Rightarrow> assertionCtx \<Rightarrow> int res" where
  "verifyAssertion L i cx =
     andThen (b64uDecode (asAuthenticatorData i) 1400) (\<lambda>ad.
     andThen (b64uDecode (asClientDataJSON i) 2800) (\<lambda>cdj.
     andThen (b64uDecode (asSignature i) 200) (\<lambda>sig.
     andThen (checkClientData cdj ''webauthn.get'' (cxChallenge cx) (cxOrigin cx)) (\<lambda>_.
     andThen (parseAuthData ad) (\<lambda>a.
     andThen (checkFlags L a (cxRpId cx)) (\<lambda>_.
     andThen (b64uDecode (cxSpki cx) 200) (\<lambda>key.
     case ecVerify L key (ad @ sha256 L cdj) sig of
       None \<Rightarrow> Inl LibErr
     | Some ok \<Rightarrow>
         if \<not> ok then failW ''signature''
         else if (adCounter a \<noteq> 0 \<or> cxStoredCounter cx \<noteq> 0) \<and> adCounter a \<le> cxStoredCounter cx then failW ''counter''
         else Inr (adCounter a))))))))"

section \<open>Bounds of the parsers\<close>

lemma failW_ne [simp]: "failW c \<noteq> Inr x"
  by (simp add: failW_def)

lemma cborHead_bounds: "cborHead buf off = Inr (major, len, pos) \<Longrightarrow> off < pos \<and> (off < length buf \<longrightarrow> pos \<le> length buf)"
  by (auto simp: cborHead_def Let_def exn_simps readUInt16BE_def split: if_splits)

lemma cbor_bounds:
  "cborDecode r buf off = Inr (c, p) \<Longrightarrow> off < p \<and> p \<le> length buf"
  "cborItems r n buf pos = Inr (cs, p) \<Longrightarrow> pos + n \<le> p \<and> (pos \<le> length buf \<longrightarrow> p \<le> length buf)"
  "cborPairs r n buf pos m = Inr (ps, p) \<Longrightarrow> pos + 2 * n \<le> p \<and> (pos \<le> length buf \<longrightarrow> p \<le> length buf)"
proof (induction r buf off and r n buf pos and r n buf pos m arbitrary: c p and cs p and ps p
    rule: cborDecode_cborItems_cborPairs.induct)
  case (2 r buf off)
  then obtain major len pos where h: "cborHead buf off = Inr (major, len, pos)" and off: "off < length buf"
    by (auto simp: exn_simps split: if_splits)
  note hb = cborHead_bounds [OF h]
  show ?case
  proof (cases "major = 4 \<or> major = 5")
    case True
    with 2 h off hb show ?thesis by (fastforce simp: exn_simps split: if_splits prod.splits)
  next
    case False
    with "2.prems" h off hb show ?thesis by (auto simp: Let_def split: if_splits)
  qed
next
  case (4 r n buf pos)
  then show ?case by (fastforce simp: exn_simps split: prod.splits)
next
  case (6 r n buf pos m)
  then show ?case by (fastforce simp: exn_simps split: prod.splits if_splits)
qed (simp_all add: failW_def)

lemma parseAttested_bounds:
  "parseAttested buf pos = Inr (a, p) \<Longrightarrow> pos + 18 < p \<and> p \<le> length buf \<and> 16 \<le> length (credIdB a) \<and> length (credIdB a) \<le> 1023"
  by (auto simp: parseAttested_def exn_simps dest!: cbor_bounds(1) split: if_splits)

section \<open>base64url\<close>

lemma cval_char_of: "n < 256 \<Longrightarrow> cval (char_of n) = n"
  by (simp add: cval_def)

lemma b64val_char: "n < 64 \<Longrightarrow> b64val (b64char n) = n \<and> is_b64u (b64char n)"
proof -
  assume n: "n < 64"
  consider "n < 26" | "26 \<le> n" "n < 52" | "52 \<le> n" "n < 62" | "n = 62" | "n = 63" using n by linarith
  then show ?thesis
  proof cases
    case 1
    then show ?thesis by (simp add: b64char_def b64val_def is_b64u_def is_upper_def cval_char_of)
  next
    case 2
    then show ?thesis by (simp add: b64char_def b64val_def is_b64u_def is_upper_def is_lower_def cval_char_of)
  next
    case 3
    then have "48 \<le> n - 4" "n - 4 \<le> 57" by linarith+
    with 3 show ?thesis by (simp add: b64char_def b64val_def is_b64u_def is_upper_def is_lower_def is_digit_def cval_char_of)
  next
    case 4
    then show ?thesis by (simp add: b64char_def b64val_def is_b64u_def is_upper_def is_lower_def is_digit_def cval_def)
  next
    case 5
    then show ?thesis by (simp add: b64char_def b64val_def is_b64u_def is_upper_def is_lower_def is_digit_def cval_def)
  qed
qed

lemma byte_split:
  fixes a b c :: "8 word"
  shows "unat a div 4 < 64 \<and> unat a mod 4 * 16 + unat b div 16 < 64 \<and> unat b mod 16 * 4 + unat c div 64 < 64 \<and>
    unat c mod 64 < 64 \<and> unat b mod 16 * 4 < 64 \<and> unat a mod 4 * 16 < 64"
proof -
  have lt: "unat w < 256" for w :: "8 word" using unsigned_less [of w] by simp
  have "unat a div 4 < 64" "unat b div 16 < 16" "unat c div 64 < 4"
    using lt [of a] lt [of b] lt [of c] by (simp_all add: less_mult_imp_div_less)
  then show ?thesis
    using mod_less_divisor [of 4 "unat a"] mod_less_divisor [of 16 "unat b"] mod_less_divisor [of 64 "unat c"] by linarith
qed

lemma sextets:
  fixes a b c :: nat
  assumes "b < 256" "c < 256"
  shows "a div 4 * 4 + (a mod 4 * 16 + b div 16) div 16 = a \<and>
    (a mod 4 * 16 + b div 16) mod 16 * 16 + (b mod 16 * 4 + c div 64) div 4 = b \<and>
    (b mod 16 * 4 + c div 64) mod 4 * 64 + c mod 64 = c"
proof -
  have "b div 16 < 16" "c div 64 < 4" using assms by (simp_all add: less_mult_imp_div_less)
  then show ?thesis by (simp add: div_mult_mod_eq)
qed

lemma unat_256: "unat (w :: 8 word) < 256"
  using unsigned_less [of w] by simp

lemma b64_roundtrip: "b64bytes (map b64val (b64uEncode bs)) = bs \<and> list_all is_b64u (b64uEncode bs)"
proof (induction bs rule: b64uEncode.induct)
  case (1 a b c r)
  then show ?case
    using sextets [OF unat_256 [of b] unat_256 [of c], of "unat a"] byte_split [of a b c]
    by (simp add: b64val_char)
next
  case (2 a b)
  have "(unat b mod 16 * 4 + 0) div 4 = unat b mod 16" by simp
  then show ?case
    using sextets [of "unat b" 0 "unat a"] unat_256 [of b] byte_split [of a b 0] by (simp add: b64val_char)
next
  case (3 a)
  then show ?case
    using sextets [of 0 0 "unat a"] byte_split [of a 0 0] by (simp add: b64val_char)
next
  case 4
  then show ?case by simp
qed

lemma b64u_decode_encode: "length (b64uEncode bs) \<le> mx \<Longrightarrow> b64uDecode (b64uEncode bs) mx = Inr bs"
  using b64_roundtrip [of bs] by (simp add: b64uDecode_def)

lemma b64uEncode_inj: "b64uEncode x = b64uEncode y \<Longrightarrow> x = y"
  by (metis b64_roundtrip)

section \<open>What an accepted assertion proves\<close>

lemma checkClientData_ok:
  assumes "checkClientData raw typ challenge origin = Inr ()"
  obtains kvs where "jsonParse (ofBytes raw) = Some (JObj kvs)" "jfield kvs ''type'' = Some (JStr typ)"
    "jfield kvs ''challenge'' = Some (JStr (b64uEncode challenge))" "jfield kvs ''origin'' = Some (JStr origin)"
    "jfield kvs ''topOrigin'' = None" "jfield kvs ''crossOrigin'' \<in> {None, Some (JBool False)}"
proof -
  obtain v where v: "jsonParse (ofBytes raw) = Some v" "v \<noteq> JNull"
    using assms by (auto simp: checkClientData_def split: if_splits option.splits json.splits)
  let ?cd = "case v of JObj kvs \<Rightarrow> kvs | _ \<Rightarrow> []"
  have f: "jfield ?cd ''type'' = Some (JStr typ)" "jfield ?cd ''challenge'' = Some (JStr (b64uEncode challenge))"
    "jfield ?cd ''origin'' = Some (JStr origin)" "jfield ?cd ''topOrigin'' = None"
    "jfield ?cd ''crossOrigin'' \<in> {None, Some (JBool False)}"
    using assms v by (cases v; simp add: checkClientData_def Let_def split: if_splits)+
  then obtain kvs where "v = JObj kvs" by (cases v) (simp_all add: jfield_def)
  with f v that show ?thesis by simp
qed

lemma checkFlags_ok:
  "checkFlags L a rpId = Inr () \<Longrightarrow>
     rpIdHash a = sha256 L (utf8 rpId) \<and> flagUP (flags a) \<and> flagUV (flags a) \<and> \<not> flagBE (flags a) \<and> \<not> flagBS (flags a)"
  by (auto simp: checkFlags_def split: if_splits)

lemma verdict_iff:
  "(case v of None \<Rightarrow> Inl e | Some ok \<Rightarrow> if \<not> ok then failW a else if b then failW c else Inr k) = Inr n \<longleftrightarrow>
     v = Some True \<and> \<not> b \<and> n = k"
  by (auto split: option.splits if_splits)

lemma verifyAssertion_ok:
  assumes "verifyAssertion L i cx = Inr n"
  obtains ad cdj sig key a where "b64uDecode (asAuthenticatorData i) 1400 = Inr ad"
    "b64uDecode (asClientDataJSON i) 2800 = Inr cdj" "b64uDecode (asSignature i) 200 = Inr sig"
    "checkClientData cdj ''webauthn.get'' (cxChallenge cx) (cxOrigin cx) = Inr ()"
    "parseAuthData ad = Inr a" "checkFlags L a (cxRpId cx) = Inr ()" "b64uDecode (cxSpki cx) 200 = Inr key"
    "ecVerify L key (ad @ sha256 L cdj) sig = Some True" "n = adCounter a"
    "\<not> ((adCounter a \<noteq> 0 \<or> cxStoredCounter cx \<noteq> 0) \<and> adCounter a \<le> cxStoredCounter cx)"
  using assms unfolding verifyAssertion_def andThen_eq_Inr verdict_iff ex_unit by blast

lemma verifyAssertion_counter:
  assumes "verifyAssertion L i cx = Inr n"
  shows "(n = 0 \<and> cxStoredCounter cx = 0) \<or> cxStoredCounter cx < n"
  using assms by (rule verifyAssertion_ok) linarith

text \<open>
  C14. An accepted confirmation is what the header of \<open>webauthn.ts\<close> promises: the client data is an
  assertion for exactly the challenge and origin asked for (no other challenge has that
  encoding), outside any foreign page; the authenticator data belongs to the relying party, has
  user presence and user verification and no backup flag; the signature verifies over both; and
  the counter rises unless the key has none.
\<close>

theorem accepted_assertion:
  assumes "verifyAssertion L i cx = Inr n"
  shows "\<exists>ad cdj sig key kvs a.
    b64uDecode (asAuthenticatorData i) 1400 = Inr ad \<and> b64uDecode (asClientDataJSON i) 2800 = Inr cdj \<and>
    b64uDecode (asSignature i) 200 = Inr sig \<and> b64uDecode (cxSpki cx) 200 = Inr key \<and>
    jsonParse (ofBytes cdj) = Some (JObj kvs) \<and> jfield kvs ''type'' = Some (JStr ''webauthn.get'') \<and>
    (\<forall>c. jfield kvs ''challenge'' = Some (JStr (b64uEncode c)) \<longleftrightarrow> c = cxChallenge cx) \<and>
    jfield kvs ''origin'' = Some (JStr (cxOrigin cx)) \<and> jfield kvs ''topOrigin'' = None \<and>
    parseAuthData ad = Inr a \<and> rpIdHash a = sha256 L (utf8 (cxRpId cx)) \<and>
    flagUP (flags a) \<and> flagUV (flags a) \<and> \<not> flagBE (flags a) \<and> \<not> flagBS (flags a) \<and>
    ecVerify L key (ad @ sha256 L cdj) sig = Some True \<and> n = adCounter a \<and>
    ((n = 0 \<and> cxStoredCounter cx = 0) \<or> cxStoredCounter cx < n)"
proof -
  from assms obtain ad cdj sig key a where d: "b64uDecode (asAuthenticatorData i) 1400 = Inr ad"
    "b64uDecode (asClientDataJSON i) 2800 = Inr cdj" "b64uDecode (asSignature i) 200 = Inr sig"
    "checkClientData cdj ''webauthn.get'' (cxChallenge cx) (cxOrigin cx) = Inr ()"
    "parseAuthData ad = Inr a" "checkFlags L a (cxRpId cx) = Inr ()" "b64uDecode (cxSpki cx) 200 = Inr key"
    "ecVerify L key (ad @ sha256 L cdj) sig = Some True" "n = adCounter a"
    by (rule verifyAssertion_ok)
  from d(4) obtain kvs where k: "jsonParse (ofBytes cdj) = Some (JObj kvs)" "jfield kvs ''type'' = Some (JStr ''webauthn.get'')"
    "jfield kvs ''challenge'' = Some (JStr (b64uEncode (cxChallenge cx)))" "jfield kvs ''origin'' = Some (JStr (cxOrigin cx))"
    "jfield kvs ''topOrigin'' = None"
    by (rule checkClientData_ok)
  have "\<forall>c. jfield kvs ''challenge'' = Some (JStr (b64uEncode c)) \<longleftrightarrow> c = cxChallenge cx"
    using k(3) by (auto dest: b64uEncode_inj)
  with d k checkFlags_ok [OF d(6)] verifyAssertion_counter [OF assms] show ?thesis by blast
qed

definition demoAuthData :: bytes where
  "demoAuthData = demoHash (utf8 ''a.b'') @ [5, 0, 0, 0, 7]"

definition demoClientData :: string where
  "demoClientData = canonicalText (JObj [(''challenge'', JStr ''AQI''), (''origin'', JStr ''https://a.b''), (''type'', JStr ''webauthn.get'')])"

definition demoAssertion :: assertionInput where
  "demoAssertion = \<lparr>asAuthenticatorData = b64uEncode demoAuthData, asClientDataJSON = b64uEncode (utf8 demoClientData),
     asSignature = ''AA''\<rparr>"

definition demoCtx :: assertionCtx where
  "demoCtx = \<lparr>cxRpId = ''a.b'', cxOrigin = ''https://a.b'', cxChallenge = [1, 2], cxSpki = ''AA'', cxStoredCounter = 3\<rparr>"

theorem accepted_assertion_witness:
  "verifyAssertion demoLib demoAssertion demoCtx = Inr 7 \<and> cxStoredCounter demoCtx < 7"
proof -
  have h: "verifyAssertion demoLib demoAssertion demoCtx = Inr 7" by code_simp
  with accepted_assertion [OF h] show ?thesis by (simp add: demoCtx_def)
qed

lemma parseAuthData_parts:
  assumes "parseAuthData buf = Inr a"
  shows "37 \<le> length buf" "length buf \<le> 1024" "flags a = buf ! 32" "\<not> flagED (flags a)"
    "adCounter a = int (unat (buf ! 33)) * 16777216 + int (unat (buf ! 34)) * 65536 + int (unat (buf ! 35)) * 256 + int (unat (buf ! 36))"
    "flagAT (flags a) \<Longrightarrow> \<exists>t. attested a = Some t \<and> parseAttested buf 37 = Inr (t, length buf)"
    "\<not> flagAT (flags a) \<Longrightarrow> attested a = None \<and> length buf = 37"
  using assms by (auto simp: parseAuthData_def Let_def exn_simps split: if_splits prod.splits)

text \<open>
  Authenticator data is read to its last byte and never past it: accepted data has between
  37 and 1024 bytes and no extensions, its counter is a 32-bit number, it carries a credential
  exactly if the flag says so, of 16 to 1023 bytes and followed by its key, and without a
  credential nothing follows the counter.
\<close>

theorem authData_within_bounds:
  assumes "parseAuthData buf = Inr a"
  shows "37 \<le> length buf \<and> length buf \<le> 1024 \<and> \<not> flagED (flags a) \<and> 0 \<le> adCounter a \<and> adCounter a < 2 ^ 32 \<and>
    (attested a = None \<longleftrightarrow> \<not> flagAT (flags a)) \<and> (attested a = None \<longrightarrow> length buf = 37) \<and>
    (\<forall>t. attested a = Some t \<longrightarrow> 16 \<le> length (credIdB t) \<and> length (credIdB t) \<le> 1023 \<and> 55 < length buf)"
proof -
  note p = parseAuthData_parts [OF assms]
  have "adCounter a < 4294967296" "0 \<le> adCounter a"
    unfolding p(5) using unat_256 [of "buf ! 33"] unat_256 [of "buf ! 34"] unat_256 [of "buf ! 35"] unat_256 [of "buf ! 36"]
    by linarith+
  then have "adCounter a < 2 ^ 32" "0 \<le> adCounter a" by simp_all
  moreover have "attested a = None \<longleftrightarrow> \<not> flagAT (flags a)" using p(6,7) by auto
  moreover have "attested a = None \<longrightarrow> length buf = 37" using p(6,7) by (cases "flagAT (flags a)") auto
  moreover have "\<forall>t. attested a = Some t \<longrightarrow> 16 \<le> length (credIdB t) \<and> length (credIdB t) \<le> 1023 \<and> 55 < length buf"
    using p(6,7) parseAttested_bounds [of buf 37] by fastforce
  ultimately show ?thesis using p(1,2,4) by blast
qed

theorem authData_within_bounds_witness:
  "\<exists>a. parseAuthData demoAuthData = Inr a \<and> adCounter a < 2 ^ 32 \<and> attested a = None \<and> length demoAuthData = 37"
proof -
  let ?a = "\<lparr>rpIdHash = demoHash (utf8 ''a.b''), flags = 5, adCounter = 7, attested = None\<rparr>"
  have h: "parseAuthData demoAuthData = Inr ?a" by code_simp
  with authData_within_bounds [OF h] show ?thesis by auto
qed

end
