(* ===== verification/Keys.thy ===== *)
theory Keys
  imports Spend WebAuthn
begin

text \<open>
  \<open>signer/keys.ts\<close> and \<open>lib/wallet/core/derive.ts\<close>: the seeds of the signer, sealed under the key
  encryption key, the key ring derived from them, and the public derivation of addresses. BIP32,
  BIP39 and AES come from the library record. A sealed seed holds its bytes; the base64 text of
  the file \<open>seeds.json\<close> is not modelled, nor are file permissions and \<open>fsync\<close>.
\<close>

section \<open>Seeds\<close>

text \<open>\<open>readKek\<close>, and the same rule in \<open>rekey\<close>: 64 hexadecimal digits, or 32 raw bytes.\<close>

definition kekOfFile :: "bytes \<Rightarrow> bytes option" where
  "kekOfFile raw =
     (let text = trim (ofBytes raw) in
      if length text = 64 \<and> list_all is_hex text then Some (hexDecode text)
      else if length raw = 32 then Some raw else None)"

definition readKek :: "bytes \<Rightarrow> bytes res" where
  "readKek raw = (case kekOfFile raw of Some k \<Rightarrow> Inr k | None \<Rightarrow> Inl (KeyError ''kek_format''))"

definition newEntropy :: "lib \<Rightarrow> string option \<Rightarrow> bytes \<Rightarrow> bytes" where
  "newEntropy L dice rnd =
     (case dice of None \<Rightarrow> rnd
      | Some d \<Rightarrow> if d = [] then rnd
          else map2 (\<lambda>a b. xor a b) rnd (sha256 L (utf8 (''klick-dice/v1|'' @ d))))"

definition mnemonicOf :: "lib \<Rightarrow> bytes \<Rightarrow> string" where
  "mnemonicOf L entropy = mnemonic L entropy"

text \<open>\<open>words.trim().toLowerCase().split(/\s+/)\<close>\<close>

fun splitSpaces :: "string \<Rightarrow> string \<Rightarrow> string list" where
  "splitSpaces cur [] = [cur]"
| "splitSpaces cur (c # cs) =
     (if is_space c then (if cs \<noteq> [] \<and> is_space (hd cs) then splitSpaces cur cs else cur # splitSpaces [] cs)
      else splitSpaces (cur @ [c]) cs)"

definition entropyOfMnemonic :: "lib \<Rightarrow> string \<Rightarrow> bytes res" where
  "entropyOfMnemonic L words =
     (let ws = splitSpaces [] (toLowerCase (trim words)); m = join (CHR '' '') ws in
      case mnemonicEntropy L m of
        Some e \<Rightarrow> if length (split_on (CHR '' '') m) \<noteq> 24 then Inl (KeyError ''mnemonic'') else Inr e
      | None \<Rightarrow> Inl (KeyError ''mnemonic''))"

definition masterOf :: "lib \<Rightarrow> string \<Rightarrow> bytes \<Rightarrow> hdkey res" where
  "masterOf L network entropy =
     (case NETWORKS network of None \<Rightarrow> Inl TypeErr
      | Some info \<Rightarrow> Inr (hdMaster L (chain info = Bitcoin \<and> \<not> live info) (mnemonicOf L entropy)))"

definition fp :: "lib \<Rightarrow> hdkey \<Rightarrow> string" where
  "fp L key = padStart 8 (show_hex (hdFingerprint L key))"

definition fingerprintOf :: "lib \<Rightarrow> string \<Rightarrow> bytes \<Rightarrow> string res" where
  "fingerprintOf L network entropy = andThen (masterOf L network entropy) (\<lambda>m. Inr (fp L m))"

definition accountPath :: "string \<Rightarrow> int \<Rightarrow> string res" where
  "accountPath network index =
     (if index < 0 \<or> index \<ge> 2 ^ 31 then Inl (KeyError ''index'')
      else case NETWORKS network of None \<Rightarrow> Inl TypeErr
      | Some info \<Rightarrow>
          Inr (if chain info = Bitcoin
               then [CHR ''m'', CHR ''/'', CHR ''8'', CHR ''4'', CHR 0x27, CHR ''/'', (if live info then CHR ''0'' else CHR ''1''), CHR 0x27, CHR ''/''] @
                 show_int index @ [CHR 0x27]
               else [CHR ''m'', CHR ''/'', CHR ''4'', CHR ''4'', CHR 0x27, CHR ''/'', CHR ''6'', CHR ''0'', CHR 0x27, CHR ''/''] @
                 show_int index @ [CHR 0x27]))"

record sealedSeed =
  ssFingerprint :: string
  ssIv :: bytes
  ssCt :: bytes
  ssTag :: bytes

type_synonym seedFile = "(string, sealedSeed) jsmap"

definition aad :: "string \<Rightarrow> string \<Rightarrow> bytes" where
  "aad network fingerprint = utf8 (''klick-signer/v1|seed|'' @ network @ ''|'' @ fingerprint)"

definition sealSeed :: "lib \<Rightarrow> bytes \<Rightarrow> string \<Rightarrow> bytes \<Rightarrow> bytes \<Rightarrow> sealedSeed res" where
  "sealSeed L kek network entropy iv =
     andThen (fingerprintOf L network entropy) (\<lambda>f.
       let (ct, tag) = aesSeal L kek iv (aad network f) entropy in
       Inr \<lparr>ssFingerprint = f, ssIv = iv, ssCt = ct, ssTag = tag\<rparr>)"

definition openSeed :: "lib \<Rightarrow> bytes \<Rightarrow> string \<Rightarrow> sealedSeed \<Rightarrow> bytes res" where
  "openSeed L kek network s =
     (case aesOpen L kek (ssIv s) (aad network (ssFingerprint s)) (ssCt s) (ssTag s) of
        None \<Rightarrow> Inl (KeyError ''decrypt'')
      | Some e \<Rightarrow>
          (case fingerprintOf L network e of
             Inl _ \<Rightarrow> Inl (KeyError ''decrypt'')
           | Inr f \<Rightarrow> if f \<noteq> ssFingerprint s then Inl (KeyError ''fingerprint'') else Inr e))"

section \<open>The key ring\<close>

type_synonym keyRing = "(string, hdkey) jsmap"

fun ringFromEntropy :: "lib \<Rightarrow> (string \<times> bytes) list \<Rightarrow> keyRing res" where
  "ringFromEntropy L [] = Inr []"
| "ringFromEntropy L ((n, e) # es) =
     andThen (masterOf L n e) (\<lambda>m. andThen (ringFromEntropy L es) (\<lambda>r. Inr ((n, m) # r)))"

definition ringLoad :: "lib \<Rightarrow> seedFile \<Rightarrow> bytes \<Rightarrow> keyRing res" where
  "ringLoad L file kek =
     andThen (mapR (\<lambda>(n, s). andThen (openSeed L kek n s) (\<lambda>e. Inr (n, e))) file) (ringFromEntropy L)"

definition ringNetworks :: "keyRing \<Rightarrow> string list" where
  "ringNetworks r = mapKeys r"

definition ringFingerprint :: "lib \<Rightarrow> keyRing \<Rightarrow> string \<Rightarrow> string option" where
  "ringFingerprint L r network = map_option (fp L) (mapGet r network)"

definition ringAccount :: "lib \<Rightarrow> keyRing \<Rightarrow> string \<Rightarrow> int \<Rightarrow> hdkey res" where
  "ringAccount L r network index =
     (case mapGet r network of None \<Rightarrow> Inl (KeyError ''network'')
      | Some m \<Rightarrow> andThen (accountPath network index) (\<lambda>p. Inr (hdDerive L m p)))"

definition accountXpub :: "lib \<Rightarrow> keyRing \<Rightarrow> string \<Rightarrow> int \<Rightarrow> string res" where
  "accountXpub L r network index = andThen (ringAccount L r network index) (\<lambda>a. Inr (hdXpub L a))"

definition btcKeys :: "lib \<Rightarrow> keyRing \<Rightarrow> string \<Rightarrow> int \<Rightarrow> keyAt res" where
  "btcKeys L r network index =
     (case NETWORKS network of None \<Rightarrow> Inl TypeErr
      | Some info \<Rightarrow>
          if chain info \<noteq> Bitcoin then Inl (KeyError ''chain'')
          else andThen (ringAccount L r network index) (\<lambda>acc.
            Inr (\<lambda>branch i. let k = hdChild L (hdChild L acc branch) i in
              case (hdPrivate L k, hdPublic L k) of (Some a, Some b) \<Rightarrow> Inr (a, b) | _ \<Rightarrow> Inl (KeyError ''derive''))))"

definition ethPrivateKey :: "lib \<Rightarrow> keyRing \<Rightarrow> string \<Rightarrow> int \<Rightarrow> bytes res" where
  "ethPrivateKey L r network index =
     (case NETWORKS network of None \<Rightarrow> Inl TypeErr
      | Some info \<Rightarrow>
          if chain info \<noteq> Ethereum then Inl (KeyError ''chain'')
          else andThen (ringAccount L r network index) (\<lambda>acc.
            case hdPrivate L (hdChild L (hdChild L acc 0) 0) of None \<Rightarrow> Inl (KeyError ''derive'') | Some k \<Rightarrow> Inr k))"

fun selfTestAll :: "lib \<Rightarrow> keyRing \<Rightarrow> string list \<Rightarrow> unit res" where
  "selfTestAll L r [] = Inr ()"
| "selfTestAll L r (n # ns) =
     andThen (ringAccount L r n 0) (\<lambda>acc.
       let k = hdChild L (hdChild L acc 0) 0 in
       case (hdPrivate L k, hdPublic L k) of
         (Some a, Some b) \<Rightarrow>
           if secpSelfTest L (sha256 L (utf8 ''klick-signer/selftest'')) a b then selfTestAll L r ns
           else Inl (KeyError ''selftest'')
       | _ \<Rightarrow> Inl (KeyError ''selftest''))"

definition selfTest :: "lib \<Rightarrow> keyRing \<Rightarrow> unit res" where
  "selfTest L r = selfTestAll L r (ringNetworks r)"

section \<open>Public derivation\<close>

datatype extPrefix = Xpub | Zpub | Tpub | Vpub

definition PUBLIC_VERSIONS :: "extPrefix \<Rightarrow> nat \<times> bool" where
  "PUBLIC_VERSIONS p = (case p of Xpub \<Rightarrow> (0x0488b21e, False) | Zpub \<Rightarrow> (0x04b24746, False)
     | Tpub \<Rightarrow> (0x043587cf, True) | Vpub \<Rightarrow> (0x045f1cf6, True))"

definition PRIVATE_VERSIONS :: "nat list" where
  "PRIVATE_VERSIONS = [0x0488ade4, 0x04b2430c, 0x049d7878, 0x04358394, 0x045f18bc, 0x044a4e28]"

definition ACCOUNT_DEPTH :: int where
  "ACCOUNT_DEPTH = 3"

definition versionOf :: "bytes \<Rightarrow> nat" where
  "versionOf bs = unat (bs ! 0) * 16777216 + unat (bs ! 1) * 65536 + unat (bs ! 2) * 256 + unat (bs ! 3)"

definition versionBytes :: "nat \<Rightarrow> bytes" where
  "versionBytes v = [word_of_nat (v div 16777216), word_of_nat (v div 65536 mod 256), word_of_nat (v div 256 mod 256), word_of_nat (v mod 256)]"

definition parseAccountKey :: "lib \<Rightarrow> string \<Rightarrow> string \<Rightarrow> (hdkey \<times> string) res" where
  "parseAccountKey L key network =
     (case b58Decode L (trim key) of None \<Rightarrow> Inl (KeyError ''format'')
      | Some bs \<Rightarrow>
          if length bs \<noteq> 78 then Inl (KeyError ''format'')
          else let version = versionOf bs in
          if version \<in> set PRIVATE_VERSIONS then Inl (KeyError ''private'')
          else case List.find (\<lambda>p. fst (PUBLIC_VERSIONS p) = version) [Xpub, Zpub, Tpub, Vpub] of
            None \<Rightarrow> Inl (KeyError ''unsupported'')
          | Some prefix \<Rightarrow>
              (case NETWORKS network of None \<Rightarrow> Inl TypeErr
               | Some info \<Rightarrow>
                   let wantTest = \<not> live info in
                   if chain info = Bitcoin \<and> snd (PUBLIC_VERSIONS prefix) \<noteq> wantTest then Inl (KeyError ''network_mismatch'')
                   else if chain info \<noteq> Bitcoin \<and> prefix \<noteq> Xpub then Inl (KeyError ''unsupported'')
                   else let target = fst (PUBLIC_VERSIONS (if snd (PUBLIC_VERSIONS prefix) then Tpub else Xpub));
                            standard = b58Encode L (versionBytes target @ drop 4 bs) in
                   case hdFromXpub L standard (if wantTest \<and> chain info = Bitcoin then 0x04358394 else 0x0488ade4) target of
                     None \<Rightarrow> Inl LibErr
                   | Some k \<Rightarrow> if hdDepth L k \<noteq> ACCOUNT_DEPTH then Inl (KeyError ''depth'') else Inr (k, standard)))"

definition childKey :: "lib \<Rightarrow> hdkey \<Rightarrow> int \<Rightarrow> int \<Rightarrow> bytes res" where
  "childKey L account branch index =
     (if index < 0 \<or> index \<ge> 2 ^ 31 then Inl RangeErr
      else case hdPublic L (hdChild L (hdChild L account branch) index) of None \<Rightarrow> Inl LibErr | Some p \<Rightarrow> Inr p)"

definition deriveAddress :: "lib \<Rightarrow> hdkey \<Rightarrow> string \<Rightarrow> int \<Rightarrow> int \<Rightarrow> string res" where
  "deriveAddress L account network branch index =
     andThen (childKey L account branch index) (\<lambda>pub.
       case NETWORKS network of None \<Rightarrow> Inl TypeErr
       | Some info \<Rightarrow>
           if chain info = Bitcoin then Inr (p2wpkhAddress L (bech32 info = Some ''bc'') pub)
           else Inr (ethFromPublic L pub))"

definition btcDescriptors :: "string \<Rightarrow> string \<times> string" where
  "btcDescriptors standardKey = (''wpkh('' @ standardKey @ ''/0/*)'', ''wpkh('' @ standardKey @ ''/1/*)'')"

section \<open>Lemmas\<close>

text \<open>
  Documented behaviour of AES-256-GCM: opening with the same key, nonce and additional data gives
  back the plain text.
\<close>

definition aesLib :: "lib \<Rightarrow> bool" where
  "aesLib L \<longleftrightarrow> (\<forall>k iv a p. aesOpen L k iv a (fst (aesSeal L k iv a p)) (snd (aesSeal L k iv a p)) = Some p)"

lemma open_sealSeed:
  assumes "aesLib L" "sealSeed L kek n e iv = Inr s"
  shows "openSeed L kek n s = Inr e"
proof -
  from assms(2) obtain f where f: "fingerprintOf L n e = Inr f"
    and s: "s = \<lparr>ssFingerprint = f, ssIv = iv, ssCt = fst (aesSeal L kek iv (aad n f) e), ssTag = snd (aesSeal L kek iv (aad n f) e)\<rparr>"
    by (auto simp: sealSeed_def exn_simps Let_def case_prod_beta)
  with assms(1) show ?thesis by (simp add: openSeed_def aesLib_def)
qed

text \<open>
  Restart with the same key encryption key restores the keys: a seed file sealed for a list of
  networks loads to exactly the masters derived from their entropy, so every account key is
  the same as before.
\<close>

theorem sealed_seeds_load:
  assumes "aesLib L" "mapR (\<lambda>(n, e, iv). andThen (sealSeed L kek n e iv) (\<lambda>s. Inr (n, s))) es = Inr fl"
  shows "ringLoad L fl kek = ringFromEntropy L (map (\<lambda>(n, e, iv). (n, e)) es)"
proof -
  have "mapR (\<lambda>(n, s). andThen (openSeed L kek n s) (\<lambda>e. Inr (n, e))) fl = Inr (map (\<lambda>(n, e, iv). (n, e)) es)"
    using assms(2)
  proof (induction es arbitrary: fl)
    case Nil
    then show ?case by simp
  next
    case (Cons x es)
    obtain n e iv where x: "x = (n, e, iv)" by (cases x)
    with Cons.prems obtain s rest where "sealSeed L kek n e iv = Inr s" "fl = (n, s) # rest"
      "mapR (\<lambda>(n, e, iv). andThen (sealSeed L kek n e iv) (\<lambda>s. Inr (n, s))) es = Inr rest"
      by (auto simp: exn_simps)
    with Cons.IH [of rest] open_sealSeed [OF assms(1)] x show ?case by simp
  qed
  then show ?thesis by (simp add: ringLoad_def)
qed

theorem sealed_seeds_load_witness:
  "aesLib demoLib \<and>
   (\<exists>fl. mapR (\<lambda>(n, e, iv). andThen (sealSeed demoLib [9] n e iv) (\<lambda>s. Inr (n, s))) [(''bitcoin_signet'', [1, 2], [3])] = Inr fl \<and>
     ringLoad demoLib fl [9] = ringFromEntropy demoLib [(''bitcoin_signet'', [1, 2])])"
proof -
  have a: "aesLib demoLib" by (simp add: aesLib_def demoLib_def)
  obtain fl where f: "mapR (\<lambda>(n, e, iv). andThen (sealSeed demoLib [9] n e iv) (\<lambda>s. Inr (n, s))) [(''bitcoin_signet'', [1, 2], [3])] = Inr fl"
    by (simp add: sealSeed_def fingerprintOf_def masterOf_def NETWORKS_def Let_def case_prod_beta)
  with sealed_seeds_load [OF a f] a show ?thesis by auto
qed

end
