(* ===== verification/Intent.thy ===== *)
theory Intent
  imports Networks
begin

text \<open>
  \<open>lib/wallet/core/intent.ts\<close>: the intent (a payout or the admission of a destination) and its
  canonical text, which a security key signs. Encoding and parsing share one validation;
  the parser accepts a text only if encoding gives that text again.

  \<open>validate\<close> bounds neither the number of digits of the amounts nor the length of the text, the
  parser does (40 digits, 600 characters); \<open>intentFits\<close> is that difference, and the domain on
  which the two are inverse.
\<close>

definition INTENT_PREFIX :: string where
  "INTENT_PREFIX = ''klick-wallet/v1''"

definition INTENT_KINDS :: "string list" where
  "INTENT_KINDS = [''payout'', ''whitelist'']"

record intent =
  iKind :: string
  iOrgId :: string
  iAccountId :: "string option"
  iNetwork :: string
  iChainId :: "int option"
  iAsset :: "string option"
  iAmount :: "int option"
  iDestination :: string
  iActiveSince :: "int option"
  iFeeCap :: "int option"
  iInitiator :: string
  iIntentId :: string
  iNonce :: string
  iExpiresAt :: int

text \<open>\<open>i.chainId === net.chainId\<close> on Ethereum, \<open>null\<close> on Bitcoin.\<close>

definition chainIdOk :: "string \<Rightarrow> int option \<Rightarrow> bool res" where
  "chainIdOk n c =
     (case NETWORKS n of None \<Rightarrow> Inl TypeErr
      | Some net \<Rightarrow> Inr (if chain net = Ethereum then c = chainId net else c = None))"

definition addressNormal :: "lib \<Rightarrow> string \<Rightarrow> string \<Rightarrow> bool res" where
  "addressNormal L n d = andThen (checkAddress L n d) (\<lambda>r. Inr (r = AddrOk d))"

definition assetKnown :: "string \<Rightarrow> string option \<Rightarrow> bool res" where
  "assetKnown n a = (case a of None \<Rightarrow> Inr False | Some c \<Rightarrow> andThen (assetOf n c) (\<lambda>r. Inr (r \<noteq> None)))"

definition validateIntent :: "lib \<Rightarrow> intent \<Rightarrow> unit res" where
  "validateIntent L i =
     andThen (checkThat (IntentError ''kind'') (iKind i \<in> set INTENT_KINDS)) (\<lambda>_.
     andThen (checkThat (IntentError ''org'') (re_uuid (iOrgId i))) (\<lambda>_.
     andThen (checkThat (IntentError ''initiator'') (re_uuid (iInitiator i))) (\<lambda>_.
     andThen (checkThat (IntentError ''id'') (re_hexn 32 (iIntentId i))) (\<lambda>_.
     andThen (checkThat (IntentError ''nonce'') (re_hexn 32 (iNonce i))) (\<lambda>_.
     andThen (checkThat (IntentError ''expires'') (re_seconds (show_int (iExpiresAt i)))) (\<lambda>_.
     andThen (checkThat (IntentError ''network'') (iNetwork i \<in> set WALLET_NETWORKS)) (\<lambda>_.
     andThen (chainIdOk (iNetwork i) (iChainId i)) (\<lambda>c.
     andThen (checkThat (IntentError ''chain'') c) (\<lambda>_.
     andThen (addressNormal L (iNetwork i) (iDestination i)) (\<lambda>d.
     andThen (checkThat (IntentError ''destination'') d) (\<lambda>_.
     if iKind i = ''payout'' then (
       andThen (checkThat (IntentError ''account'') (case iAccountId i of None \<Rightarrow> False | Some a \<Rightarrow> re_uuid a)) (\<lambda>_.
       andThen (assetKnown (iNetwork i) (iAsset i)) (\<lambda>a.
       andThen (checkThat (IntentError ''asset'') a) (\<lambda>_.
       andThen (checkThat (IntentError ''amount'') (case iAmount i of None \<Rightarrow> False | Some n \<Rightarrow> n > 0)) (\<lambda>_.
       andThen (checkThat (IntentError ''fee'') (case iFeeCap i of None \<Rightarrow> False | Some n \<Rightarrow> n \<ge> 0)) (\<lambda>_.
       checkThat (IntentError ''active'')
         (case iActiveSince i of None \<Rightarrow> False | Some n \<Rightarrow> re_seconds (show_int n))))))))
     else
       andThen (checkThat (IntentError ''account'') (iAccountId i = None)) (\<lambda>_.
       andThen (checkThat (IntentError ''asset'') (iAsset i = None)) (\<lambda>_.
       andThen (checkThat (IntentError ''amount'') (iAmount i = None)) (\<lambda>_.
       andThen (checkThat (IntentError ''fee'') (iFeeCap i = None)) (\<lambda>_.
       checkThat (IntentError ''active'') (iActiveSince i = None))))))))))))))))"

definition optText :: "string option \<Rightarrow> string" where
  "optText v = (case v of None \<Rightarrow> ''-'' | Some s \<Rightarrow> s)"

definition intentFields :: "intent \<Rightarrow> string list" where
  "intentFields i = [INTENT_PREFIX, iKind i, iOrgId i, optText (iAccountId i), iNetwork i,
     optText (map_option show_int (iChainId i)), optText (iAsset i), optText (map_option show_int (iAmount i)),
     iDestination i, optText (map_option show_int (iActiveSince i)), optText (map_option show_int (iFeeCap i)),
     iInitiator i, iIntentId i, iNonce i, show_int (iExpiresAt i)]"

definition intentText :: "intent \<Rightarrow> string" where
  "intentText i = join (CHR ''|'') (intentFields i)"

definition encodeIntent :: "lib \<Rightarrow> intent \<Rightarrow> string res" where
  "encodeIntent L i = andThen (validateIntent L i) (\<lambda>_. Inr (intentText i))"

text \<open>The helper \<open>num\<close> of the parser, with the conversion its callers apply.\<close>

definition numField :: "string \<Rightarrow> (string \<Rightarrow> bool) \<Rightarrow> string \<Rightarrow> int option res" where
  "numField v re field =
     (if v = ''-'' then Inr None else andThen (checkThat (IntentError field) (re v)) (\<lambda>_. Inr (Some (bigInt v))))"

definition optOf :: "string \<Rightarrow> string option" where
  "optOf v = (if v = ''-'' then None else Some v)"

definition parseIntent :: "lib \<Rightarrow> string \<Rightarrow> intent res" where
  "parseIntent L text =
     andThen (checkThat (IntentError ''text'') (text \<noteq> [] \<and> list_all is_graph text \<and> length text \<le> 600)) (\<lambda>_.
     let f = split_on (CHR ''|'') text in
     andThen (checkThat (IntentError ''format'') (length f = 15 \<and> f ! 0 = INTENT_PREFIX)) (\<lambda>_.
     andThen (numField (f ! 5) re_posint ''chain'') (\<lambda>ch.
     andThen (numField (f ! 7) re_posint ''amount'') (\<lambda>am.
     andThen (numField (f ! 9) re_seconds ''active'') (\<lambda>ac.
     andThen (numField (f ! 10) re_uint ''fee'') (\<lambda>fee.
     andThen (numField (f ! 14) re_seconds ''expires'') (\<lambda>ex.
     let i = \<lparr>iKind = f ! 1, iOrgId = f ! 2, iAccountId = optOf (f ! 3),
              iNetwork = f ! 4, iChainId = ch, iAsset = optOf (f ! 6),
              iAmount = am, iDestination = f ! 8, iActiveSince = ac, iFeeCap = fee,
              iInitiator = f ! 11, iIntentId = f ! 12, iNonce = f ! 13,
              iExpiresAt = (case ex of None \<Rightarrow> 0 | Some n \<Rightarrow> n)\<rparr> in
     andThen (validateIntent L i) (\<lambda>_.
     andThen (encodeIntent L i) (\<lambda>t.
     andThen (checkThat (IntentError ''canonical'') (t = text)) (\<lambda>_. Inr i))))))))))"

definition intentChallenge :: "lib \<Rightarrow> string \<Rightarrow> bytes" where
  "intentChallenge L text = sha256 L (utf8 text)"

section \<open>What validation guarantees\<close>

lemmas intent_check_defs = validateIntent_def chainIdOk_def addressNormal_def assetKnown_def

lemma validateIntent_common:
  assumes "validateIntent L i = Inr ()"
  shows "iKind i \<in> set INTENT_KINDS" "re_uuid (iOrgId i)" "re_uuid (iInitiator i)" "re_hexn 32 (iIntentId i)"
    "re_hexn 32 (iNonce i)" "re_seconds (show_int (iExpiresAt i))" "iNetwork i \<in> set WALLET_NETWORKS"
    "chainIdOk (iNetwork i) (iChainId i) = Inr True"
    "checkAddress L (iNetwork i) (iDestination i) = Inr (AddrOk (iDestination i))"
  using assms by (auto simp: validateIntent_def addressNormal_def exn_simps)

lemma validateIntent_payout:
  assumes "validateIntent L i = Inr ()" "iKind i = ''payout''"
  obtains a c n f s where "iAccountId i = Some a" "re_uuid a" "iAsset i = Some c"
    "assetKnown (iNetwork i) (Some c) = Inr True" "iAmount i = Some n" "0 < n" "iFeeCap i = Some f" "0 \<le> f"
    "iActiveSince i = Some s" "re_seconds (show_int s)"
proof -
  have "(case iAccountId i of None \<Rightarrow> False | Some a \<Rightarrow> re_uuid a)" "assetKnown (iNetwork i) (iAsset i) = Inr True"
    "(case iAmount i of None \<Rightarrow> False | Some n \<Rightarrow> n > 0)" "(case iFeeCap i of None \<Rightarrow> False | Some n \<Rightarrow> n \<ge> 0)"
    "(case iActiveSince i of None \<Rightarrow> False | Some n \<Rightarrow> re_seconds (show_int n))"
    using assms by (auto simp: validateIntent_def exn_simps)
  then obtain a c n f s where "iAccountId i = Some a" "re_uuid a" "iAsset i = Some c"
    "assetKnown (iNetwork i) (Some c) = Inr True" "iAmount i = Some n" "0 < n" "iFeeCap i = Some f" "0 \<le> f"
    "iActiveSince i = Some s" "re_seconds (show_int s)"
    by (cases "iAccountId i"; cases "iAsset i"; cases "iAmount i"; cases "iFeeCap i"; cases "iActiveSince i")
      (simp_all add: assetKnown_def)
  with that show ?thesis by blast
qed

lemma validateIntent_whitelist:
  assumes "validateIntent L i = Inr ()" "iKind i \<noteq> ''payout''"
  shows "iAccountId i = None" "iAsset i = None" "iAmount i = None" "iFeeCap i = None" "iActiveSince i = None"
  using assms by (auto simp: validateIntent_def exn_simps)

section \<open>Round trip\<close>

text \<open>
  What the code relies on of the address libraries: Bitcoin addresses are alphanumeric
  (bech32 and base58), and \<open>addChecksum\<close> only changes the case of letters.
\<close>

definition addressLib :: "lib \<Rightarrow> bool" where
  "addressLib L \<longleftrightarrow> (\<forall>m s. btcDecode L m s \<longrightarrow> s \<noteq> [] \<and> list_all is_alnum s) \<and>
     (\<forall>s. re_ethAddress s \<longrightarrow> re_ethAddress (ethAddChecksum L s))"

lemma alnum_graph: "is_alnum c \<Longrightarrow> is_graph c \<and> c \<noteq> CHR ''|'' \<and> c \<noteq> CHR '',''"
proof -
  assume a: "is_alnum c"
  have "\<not> is_alnum (CHR ''|'')" "\<not> is_alnum (CHR '','')"
    by (simp_all add: is_alnum_def is_upper_def is_lower_def is_digit_def cval_def)
  with a have "c \<noteq> CHR ''|'' \<and> c \<noteq> CHR '',''" by auto
  moreover from a have "is_graph c"
    by (auto simp: is_alnum_def is_upper_def is_lower_def is_digit_def is_graph_def)
  ultimately show ?thesis by blast
qed

lemma digit_graph: "is_digit c \<Longrightarrow> is_graph c"
  by (auto simp: is_digit_def is_graph_def)

lemma lhex_graph: "is_lhex c \<Longrightarrow> is_graph c"
  by (auto simp: is_lhex_def is_digit_def is_graph_def)

lemma hex_alnum: "is_hex c \<Longrightarrow> is_alnum c"
  by (auto simp: is_hex_def is_lhex_def is_alnum_def is_upper_def is_lower_def is_digit_def)

lemma to_lower_alnum: "is_alnum c \<Longrightarrow> is_alnum (to_lower c)"
  by (auto simp: is_alnum_def cval_to_lower is_upper_def is_lower_def is_digit_def)

lemma re_ethAddress_take: "re_ethAddress s \<Longrightarrow> take 2 s = ''0x''"
  by (simp add: re_ethAddress_def startsWith_def numeral_2_eq_2)

lemma re_ethAddress_alnum: "re_ethAddress s \<Longrightarrow> s \<noteq> [] \<and> list_all is_alnum s"
proof -
  assume e: "re_ethAddress s"
  then have s: "s = ''0x'' @ drop 2 s"
    using append_take_drop_id [of 2 s] by (simp add: re_ethAddress_take)
  have "list_all is_alnum (drop 2 s)"
    using e by (auto simp: re_ethAddress_def list_all_iff hex_alnum)
  moreover have "list_all is_alnum ''0x''"
    by (simp add: is_alnum_def is_lower_def is_digit_def cval_def)
  ultimately have "list_all is_alnum (''0x'' @ drop 2 s)" by simp
  then have "list_all is_alnum s" by (subst s)
  moreover have "s \<noteq> []" using e by (auto simp: re_ethAddress_def)
  ultimately show ?thesis by blast
qed

lemma re_ethAddress_lower: "re_ethAddress s \<Longrightarrow> re_ethAddress (toLowerCase s)"
proof -
  assume e: "re_ethAddress s"
  have "is_hex c \<Longrightarrow> is_hex (to_lower c)" for c
    by (auto simp: is_hex_def is_lhex_def cval_to_lower is_upper_def is_digit_def)
  moreover have "take 2 (toLowerCase s) = ''0x''"
  proof -
    from e have "take 2 s = ''0x''" by (rule re_ethAddress_take)
    then have "take 2 (toLowerCase s) = map to_lower ''0x''" by (metis take_map)
    then show ?thesis by (simp add: to_lower_def is_upper_def cval_def)
  qed
  ultimately show ?thesis
    using e by (auto simp: re_ethAddress_def startsWith_def drop_map list_all_iff numeral_2_eq_2)
qed

lemma checkAddress_alnum:
  assumes "addressLib L" "checkAddress L n d = Inr (AddrOk a)"
  shows "a \<noteq> [] \<and> list_all is_alnum a"
proof (cases "NETWORKS n")
  case None
  with assms show ?thesis by (simp add: checkAddress_def)
next
  case (Some info)
  show ?thesis
  proof (cases "chain info")
    case Bitcoin
    with Some assms have "btcDecode L (bech32 info = Some ''bc'') (trim d)" "a = trim d \<or> a = toLowerCase (trim d)"
      by (auto simp: checkAddress_def Let_def split: if_splits)
    with assms(1) show ?thesis by (auto simp: addressLib_def list_all_iff to_lower_alnum)
  next
    case Ethereum
    with Some assms have "re_ethAddress (trim d)" "a = ethAddChecksum L (toLowerCase (trim d))"
      by (auto simp: checkAddress_def Let_def split: if_splits)
    with assms(1) show ?thesis
      by (auto simp: addressLib_def intro!: re_ethAddress_alnum dest: re_ethAddress_lower)
  qed
qed

text \<open>Fields that survive \<open>join\<close> and \<open>split\<close> at the separator.\<close>

definition fieldOk :: "string \<Rightarrow> bool" where
  "fieldOk s \<longleftrightarrow> CHR ''|'' \<notin> set s \<and> list_all is_graph s"

definition intentFits :: "intent \<Rightarrow> bool" where
  "intentFits i \<longleftrightarrow> (case iAmount i of None \<Rightarrow> True | Some n \<Rightarrow> n < 10 ^ 40) \<and>
     (case iFeeCap i of None \<Rightarrow> True | Some n \<Rightarrow> n < 10 ^ 40) \<and> length (intentText i) \<le> 600 \<and> fieldOk (iDestination i)"

lemma field_ne: "re_posint s \<Longrightarrow> s \<noteq> ''-''" "re_uint s \<Longrightarrow> s \<noteq> ''-''" "re_seconds s \<Longrightarrow> s \<noteq> ''-''"
  by (auto simp: re_posint_def re_uint_def re_seconds_def posDigits_def)

lemma numField_show:
  assumes "re s" "re = re_posint \<or> re = re_uint \<or> re = re_seconds"
  shows "numField s re field = Inr (Some (bigInt s))"
  using assms field_ne [of s] by (auto simp: numField_def)

lemma chainIdOk_pos: "chainIdOk n (Some c) = Inr True \<Longrightarrow> 0 < c \<and> c < 10 ^ 40"
proof -
  assume "chainIdOk n (Some c) = Inr True"
  then obtain net where "NETWORKS n = Some net" "chainId net = Some c"
    by (auto simp: chainIdOk_def split: option.splits if_splits)
  then show ?thesis by (auto simp: NETWORKS_def split: if_splits)
qed

lemma validateIntent_chain:
  assumes "validateIntent L i = Inr ()" "iChainId i = Some c"
  shows "0 < c \<and> c < 10 ^ 40"
  using chainIdOk_pos validateIntent_common(8) [OF assms(1)] assms(2) by simp

lemma re_seconds_pos: "re_seconds (show_int n) \<Longrightarrow> 0 \<le> n"
  by (cases "n < 0") (auto simp: show_int_def re_seconds_def posDigits_def)

lemma fieldOk_digits: "list_all is_digit s \<Longrightarrow> fieldOk s"
  using digits_no_char [of s "CHR ''|''"] by (auto simp: fieldOk_def list_all_iff digit_graph)

lemma fieldOk_seconds: "re_seconds s \<Longrightarrow> fieldOk s"
  by (auto simp: re_seconds_def intro: fieldOk_digits posDigits_digits)

lemma fieldOk_show: "0 \<le> n \<Longrightarrow> fieldOk (show_int n)"
  by (simp add: fieldOk_digits show_int_digits)

lemma fieldOk_hexn: "re_hexn n s \<Longrightarrow> fieldOk s"
  by (auto simp: fieldOk_def re_hexn_def list_all_iff lhex_graph)

lemma fieldOk_uuid: "re_uuid s \<Longrightarrow> fieldOk s"
proof -
  assume u: "re_uuid s"
  have "is_graph (CHR ''-'')" by (simp add: is_graph_def cval_def)
  with re_uuid_chars [OF u] have "list_all is_graph s" unfolding list_all_iff by (metis lhex_graph)
  with u show ?thesis by (simp add: fieldOk_def)
qed

lemma fieldOk_alnum: "list_all is_alnum s \<Longrightarrow> fieldOk s"
  by (auto simp: fieldOk_def list_all_iff dest: alnum_graph)

lemma fieldOk_dash: "fieldOk ''-''"
  by (simp add: fieldOk_def is_graph_def cval_def)

lemma fieldOk_network: "n \<in> set WALLET_NETWORKS \<Longrightarrow> fieldOk n"
  by (auto simp: WALLET_NETWORKS_def fieldOk_def is_graph_def cval_def)

lemma fieldOk_asset: "assetOf n c = Inr (Some a) \<Longrightarrow> fieldOk c"
  by (drule asset_no_sep) (auto simp: fieldOk_def is_graph_def cval_def)

lemmas fieldOk_intros = fieldOk_seconds fieldOk_hexn fieldOk_uuid fieldOk_dash fieldOk_network fieldOk_asset

lemma join_graph: "\<forall>x\<in>set xs. fieldOk x \<Longrightarrow> list_all is_graph (join (CHR ''|'') xs)"
proof -
  assume x: "\<forall>x\<in>set xs. fieldOk x"
  have "is_graph (CHR ''|'')" by (simp add: is_graph_def cval_def)
  with x set_join [of "CHR ''|''" xs] show ?thesis by (fastforce simp: fieldOk_def list_all_iff)
qed

lemma join_nonempty: "x \<noteq> [] \<Longrightarrow> join c (x # xs) \<noteq> []"
  by (cases xs) auto

lemma intentFields_ok:
  assumes "fieldOk (iDestination i)" "validateIntent L i = Inr ()"
  shows "\<forall>x\<in>set (intentFields i). fieldOk x"
proof -
  note v = validateIntent_common [OF assms(2)]
  have "fieldOk INTENT_PREFIX" "fieldOk (iKind i)"
    using v(1) by (auto simp: INTENT_PREFIX_def INTENT_KINDS_def fieldOk_def is_graph_def cval_def)
  moreover have "fieldOk (optText (map_option show_int (iChainId i)))"
    using validateIntent_chain [OF assms(2)]
    by (cases "iChainId i") (auto simp: optText_def intro: fieldOk_dash fieldOk_show)
  moreover have "fieldOk (optText (iAccountId i)) \<and> fieldOk (optText (iAsset i)) \<and>
    fieldOk (optText (map_option show_int (iAmount i))) \<and> fieldOk (optText (map_option show_int (iActiveSince i))) \<and>
    fieldOk (optText (map_option show_int (iFeeCap i)))"
  proof (cases "iKind i = ''payout''")
    case True
    from assms(2) this show ?thesis
      by (rule validateIntent_payout)
        (auto simp: optText_def assetKnown_def exn_simps intro: fieldOk_intros fieldOk_show)
  next
    case False
    with validateIntent_whitelist [OF assms(2)] show ?thesis by (simp add: optText_def fieldOk_dash)
  qed
  ultimately show ?thesis
    using v(2-7) assms(1) by (simp add: intentFields_def fieldOk_intros)
qed

lemma split_intentText:
  assumes "fieldOk (iDestination i)" "validateIntent L i = Inr ()"
  shows "split_on (CHR ''|'') (intentText i) = intentFields i"
  unfolding intentText_def
  by (rule split_on_join) (use intentFields_ok [OF assms] in \<open>auto simp: intentFields_def fieldOk_def\<close>)

lemma optNum_roundtrip:
  assumes "\<And>n. v = Some n \<Longrightarrow> 0 \<le> n \<and> re (show_int n)" "re = re_posint \<or> re = re_uint \<or> re = re_seconds"
  shows "numField (optText (map_option show_int v)) re field = Inr v"
proof (cases v)
  case None
  then show ?thesis by (simp add: optText_def numField_def)
next
  case (Some n)
  then show ?thesis using assms numField_show [of re "show_int n" field] by (simp add: optText_def)
qed

lemma validateIntent_numbers:
  assumes "validateIntent L i = Inr ()" "intentFits i"
  shows "numField (optText (map_option show_int (iChainId i))) re_posint ''chain'' = Inr (iChainId i)"
    "numField (optText (map_option show_int (iAmount i))) re_posint ''amount'' = Inr (iAmount i)"
    "numField (optText (map_option show_int (iActiveSince i))) re_seconds ''active'' = Inr (iActiveSince i)"
    "numField (optText (map_option show_int (iFeeCap i))) re_uint ''fee'' = Inr (iFeeCap i)"
    "numField (show_int (iExpiresAt i)) re_seconds ''expires'' = Inr (Some (iExpiresAt i))"
proof -
  note v = validateIntent_common [OF assms(1)]
  have am: "0 < n \<and> n < 10 ^ 40" if "iAmount i = Some n" for n
    using assms that validateIntent_whitelist(3) [OF assms(1)]
    by (cases "iKind i = ''payout''") (auto simp: intentFits_def elim: validateIntent_payout)
  have fee: "0 \<le> n \<and> n < 10 ^ 40" if "iFeeCap i = Some n" for n
    using assms that validateIntent_whitelist(4) [OF assms(1)]
    by (cases "iKind i = ''payout''") (auto simp: intentFits_def elim: validateIntent_payout)
  have ac: "re_seconds (show_int n)" if "iActiveSince i = Some n" for n
    using assms that validateIntent_whitelist(5) [OF assms(1)]
    by (cases "iKind i = ''payout''") (auto elim: validateIntent_payout)
  show "numField (optText (map_option show_int (iChainId i))) re_posint ''chain'' = Inr (iChainId i)"
    by (rule optNum_roundtrip) (use validateIntent_chain [OF assms(1)] in \<open>auto intro: re_posint_show\<close>)
  show "numField (optText (map_option show_int (iAmount i))) re_posint ''amount'' = Inr (iAmount i)"
    by (rule optNum_roundtrip) (use am in \<open>auto intro: re_posint_show\<close>)
  show "numField (optText (map_option show_int (iActiveSince i))) re_seconds ''active'' = Inr (iActiveSince i)"
    by (rule optNum_roundtrip) (use ac re_seconds_pos in auto)
  show "numField (optText (map_option show_int (iFeeCap i))) re_uint ''fee'' = Inr (iFeeCap i)"
    by (rule optNum_roundtrip) (use fee in \<open>auto intro: re_uint_show\<close>)
  show "numField (show_int (iExpiresAt i)) re_seconds ''expires'' = Inr (Some (iExpiresAt i))"
    using numField_show [of re_seconds "show_int (iExpiresAt i)"] v(6) re_seconds_pos by simp
qed

lemma optText_back:
  assumes "v \<noteq> Some ''-''"
  shows "optOf (optText v) = v"
  using assms by (cases v) (auto simp: optText_def optOf_def)

lemma validateIntent_not_dash:
  assumes "validateIntent L i = Inr ()"
  shows "iAccountId i \<noteq> Some ''-''" "iAsset i \<noteq> Some ''-''"
proof -
  have "iAccountId i \<noteq> Some ''-'' \<and> iAsset i \<noteq> Some ''-''"
  proof (cases "iKind i = ''payout''")
    case True
    from assms this show ?thesis
      by (rule validateIntent_payout) (auto simp: assetKnown_def exn_simps dest!: asset_no_sep)
  next
    case False
    with validateIntent_whitelist [OF assms] show ?thesis by simp
  qed
  then show "iAccountId i \<noteq> Some ''-''" "iAsset i \<noteq> Some ''-''" by auto
qed

lemma parse_encodeIntent:
  assumes "intentFits i" "encodeIntent L i = Inr t"
  shows "parseIntent L t = Inr i"
proof -
  have dest: "fieldOk (iDestination i)" using assms(1) by (simp add: intentFits_def)
  have eta: "\<lparr>iKind = iKind i, iOrgId = iOrgId i, iAccountId = iAccountId i, iNetwork = iNetwork i,
     iChainId = iChainId i, iAsset = iAsset i, iAmount = iAmount i, iDestination = iDestination i,
     iActiveSince = iActiveSince i, iFeeCap = iFeeCap i, iInitiator = iInitiator i, iIntentId = iIntentId i,
     iNonce = iNonce i, iExpiresAt = iExpiresAt i\<rparr> = i" by simp
  from assms(2) have v: "validateIntent L i = Inr ()" and t: "t = intentText i"
    by (simp_all add: encodeIntent_def exn_simps)
  have g: "list_all is_graph t" "t \<noteq> []"
    using join_graph [OF intentFields_ok [OF dest v]]
    by (simp_all add: t intentText_def) (simp add: intentFields_def join_nonempty INTENT_PREFIX_def)
  have f: "split_on (CHR ''|'') t = intentFields i"
    unfolding t by (rule split_intentText [OF dest v])
  have n: "intentFields i ! 0 = INTENT_PREFIX" "length (intentFields i) = 15"
    "intentFields i ! 1 = iKind i" "intentFields i ! 2 = iOrgId i" "intentFields i ! 3 = optText (iAccountId i)"
    "intentFields i ! 4 = iNetwork i" "intentFields i ! 5 = optText (map_option show_int (iChainId i))"
    "intentFields i ! 6 = optText (iAsset i)" "intentFields i ! 7 = optText (map_option show_int (iAmount i))"
    "intentFields i ! 8 = iDestination i" "intentFields i ! 9 = optText (map_option show_int (iActiveSince i))"
    "intentFields i ! 10 = optText (map_option show_int (iFeeCap i))" "intentFields i ! 11 = iInitiator i"
    "intentFields i ! 12 = iIntentId i" "intentFields i ! 13 = iNonce i" "intentFields i ! 14 = show_int (iExpiresAt i)"
    by (simp_all add: intentFields_def)
  show ?thesis
    using assms v g
    by (simp add: parseIntent_def f n n(3) [unfolded One_nat_def] Let_def validateIntent_numbers optText_back validateIntent_not_dash
        intentFits_def eta t [symmetric])
qed

lemma encode_parseIntent: "parseIntent L t = Inr i \<Longrightarrow> encodeIntent L i = Inr t"
  by (auto simp: parseIntent_def Let_def exn_simps)

lemma numField_bound:
  assumes "numField v re field = Inr (Some n)" "re = re_posint \<or> re = re_uint"
  shows "n < 10 ^ 40"
proof -
  have "list_all is_digit v \<and> length v \<le> 40"
    using assms by (auto simp: numField_def exn_simps re_posint_def re_uint_def posDigits_def is_digit_def cval_def
        split: if_splits list.splits)
  then have "read_nat v < 10 ^ length v" "(10::nat) ^ length v \<le> 10 ^ 40"
    using read_nat_lt [of v] power_increasing [of "length v" 40 "10::nat"] by auto
  then have "read_nat v < 10 ^ 40" by linarith
  then have "int (read_nat v) < int (10 ^ 40)" by (simp only: of_nat_less_iff)
  moreover have "n = int (read_nat v)"
    using assms by (auto simp: numField_def exn_simps bigInt_def split: if_splits)
  ultimately show ?thesis by simp
qed

lemma parseIntent_fits:
  assumes "parseIntent L t = Inr i"
  shows "intentFits i"
proof -
  have t: "t = intentText i" using encode_parseIntent [OF assms] by (simp add: encodeIntent_def exn_simps)
  have g: "list_all is_graph t" "length t \<le> 600" and d: "\<exists>f. split_on (CHR ''|'') t = f \<and> length f = 15 \<and> iDestination i = f ! 8"
    using assms by (auto simp: parseIntent_def Let_def exn_simps)
  then have d: "iDestination i \<in> set (split_on (CHR ''|'') t)" by auto
  from d have "set (iDestination i) \<subseteq> set t"
    using set_split_on by blast
  with g d have dest: "fieldOk (iDestination i)"
    using split_on_no_sep_mem [OF d] by (auto simp: fieldOk_def list_all_iff)
  have "\<exists>v w. numField v re_posint ''amount'' = Inr (iAmount i) \<and> numField w re_uint ''fee'' = Inr (iFeeCap i)"
    using assms by (auto simp: parseIntent_def Let_def exn_simps)
  then have "\<And>n. iAmount i = Some n \<Longrightarrow> n < 10 ^ 40" "\<And>n. iFeeCap i = Some n \<Longrightarrow> n < 10 ^ 40"
    using numField_bound by metis+
  with g dest t show ?thesis by (simp add: intentFits_def split: option.split)
qed

interpretation intentCodec: canonical_codec "encodeIntent L" "parseIntent L" intentFits for L
  by unfold_locales (auto intro: parse_encodeIntent encode_parseIntent parseIntent_fits)

text \<open>
  C17. The text of an intent is its only spelling: parsing a text gives an intent exactly if the
  intent fits the bounds of the parser and encoding it gives that very text.
\<close>

theorem intent_roundtrip:
  "parseIntent L t = Inr i \<longleftrightarrow> intentFits i \<and> encodeIntent L i = Inr t"
  by (rule intentCodec.decode_iff)

lemma optText_show_inj:
  assumes "optText (map_option show_int v) = optText (map_option show_int w)"
    and "\<And>n. v = Some n \<Longrightarrow> 0 \<le> n" "\<And>n. w = Some n \<Longrightarrow> 0 \<le> n"
  shows "v = w"
proof -
  have "show_int n \<noteq> ''-''" if "0 \<le> n" for n
    using show_int_digits [OF that] by auto
  then show ?thesis
    using assms by (cases v; cases w) (force simp: optText_def dest: show_int_inj)+
qed

lemma validateIntent_nonneg:
  assumes "validateIntent L i = Inr ()"
  shows "iChainId i = Some n \<Longrightarrow> 0 \<le> n" "iAmount i = Some n \<Longrightarrow> 0 \<le> n" "iFeeCap i = Some n \<Longrightarrow> 0 \<le> n"
    "iActiveSince i = Some n \<Longrightarrow> 0 \<le> n" "0 \<le> iExpiresAt i"
proof -
  show "iChainId i = Some n \<Longrightarrow> 0 \<le> n" using validateIntent_chain [OF assms] by fastforce
  have "(iAmount i = Some n \<longrightarrow> 0 \<le> n) \<and> (iFeeCap i = Some n \<longrightarrow> 0 \<le> n) \<and> (iActiveSince i = Some n \<longrightarrow> 0 \<le> n)"
  proof (cases "iKind i = ''payout''")
    case True
    from assms this show ?thesis by (rule validateIntent_payout) (auto dest: re_seconds_pos)
  next
    case False
    with validateIntent_whitelist [OF assms] show ?thesis by simp
  qed
  then show "iAmount i = Some n \<Longrightarrow> 0 \<le> n" "iFeeCap i = Some n \<Longrightarrow> 0 \<le> n" "iActiveSince i = Some n \<Longrightarrow> 0 \<le> n" by auto
  show "0 \<le> iExpiresAt i" using validateIntent_common(6) [OF assms] by (rule re_seconds_pos)
qed

lemma encodeIntent_inj:
  assumes "addressLib L" "encodeIntent L i = Inr t" "encodeIntent L j = Inr t"
  shows "i = j"
proof -
  have v: "validateIntent L i = Inr ()" "validateIntent L j = Inr ()" and t: "intentText i = t" "intentText j = t"
    using assms(2,3) by (auto simp: encodeIntent_def exn_simps)
  have d: "fieldOk (iDestination i)" "fieldOk (iDestination j)"
    using checkAddress_alnum [OF assms(1) validateIntent_common(9) [OF v(1)]]
      checkAddress_alnum [OF assms(1) validateIntent_common(9) [OF v(2)]] by (simp_all add: fieldOk_alnum)
  have "intentFields i = intentFields j"
    using split_intentText [OF d(1) v(1)] split_intentText [OF d(2) v(2)] t by simp
  then have f: "iKind i = iKind j" "iOrgId i = iOrgId j" "optText (iAccountId i) = optText (iAccountId j)"
    "iNetwork i = iNetwork j" "optText (map_option show_int (iChainId i)) = optText (map_option show_int (iChainId j))"
    "optText (iAsset i) = optText (iAsset j)" "optText (map_option show_int (iAmount i)) = optText (map_option show_int (iAmount j))"
    "iDestination i = iDestination j" "optText (map_option show_int (iActiveSince i)) = optText (map_option show_int (iActiveSince j))"
    "optText (map_option show_int (iFeeCap i)) = optText (map_option show_int (iFeeCap j))"
    "iInitiator i = iInitiator j" "iIntentId i = iIntentId j" "iNonce i = iNonce j" "show_int (iExpiresAt i) = show_int (iExpiresAt j)"
    unfolding intentFields_def by simp_all
  note nn = validateIntent_nonneg [OF v(1)] validateIntent_nonneg [OF v(2)]
  have "iChainId i = iChainId j" "iAmount i = iAmount j" "iActiveSince i = iActiveSince j" "iFeeCap i = iFeeCap j"
    using optText_show_inj [OF f(5)] optText_show_inj [OF f(7)] optText_show_inj [OF f(9)] optText_show_inj [OF f(10)] nn by blast+
  moreover have "iAccountId i = iAccountId j" "iAsset i = iAsset j"
    using optText_back validateIntent_not_dash v f(3,6) by metis+
  moreover have "iExpiresAt i = iExpiresAt j" using show_int_inj nn f(14) by blast
  ultimately show ?thesis using f by simp
qed

text \<open>
  What a security key signs determines the payment: no two different valid intents have the
  same text, also outside the bounds of the parser.
\<close>

theorem intent_text_unambiguous:
  assumes "addressLib L" "encodeIntent L i = Inr t" "encodeIntent L j = Inr t"
  shows "i = j"
  using assms by (rule encodeIntent_inj)

definition demoIntent :: intent where
  "demoIntent = \<lparr>iKind = ''payout'', iOrgId = ''00000000-0000-4000-8000-000000000001'',
     iAccountId = Some ''00000000-0000-4000-8000-000000000005'', iNetwork = ''bitcoin_signet'', iChainId = None,
     iAsset = Some ''BTC'', iAmount = Some 20000, iDestination = ''tb1qa'', iActiveSince = Some 1700000000,
     iFeeCap = Some 5000, iInitiator = ''00000000-0000-4000-8000-000000000003'',
     iIntentId = ''00000000000000000000000000000001'', iNonce = ''0123456789abcdef0123456789abcdef'',
     iExpiresAt = 1700009999\<rparr>"

lemma addressLib_demoLib: "addressLib demoLib"
  by (auto simp: addressLib_def demoLib_def startsWith_def)

theorem intent_text_unambiguous_witness:
  "addressLib demoLib \<and> encodeIntent demoLib demoIntent = Inr (intentText demoIntent) \<and>
   encodeIntent demoLib (demoIntent\<lparr>iAmount := Some 20001\<rparr>) \<noteq> Inr (intentText demoIntent)"
proof -
  have e: "encodeIntent demoLib demoIntent = Inr (intentText demoIntent)" by code_simp
  have "demoIntent \<noteq> demoIntent\<lparr>iAmount := Some 20001\<rparr>" by (simp add: demoIntent_def)
  with intent_text_unambiguous [OF addressLib_demoLib e] e addressLib_demoLib show ?thesis by blast
qed

end
