(* ===== verification/Mandate.thy ===== *)
theory Mandate
  imports Intent
begin

text \<open>
  \<open>lib/wallet/core/mandate.ts\<close>: the mandate (one person may pay out up to an amount of one asset
  to fixed destinations within a period), its canonical text and the test whether a mandate
  covers a payout. As for intents, \<open>mandateFits\<close> is what the parser bounds and \<open>validate\<close>
  does not.
\<close>

definition MANDATE_PREFIX :: string where
  "MANDATE_PREFIX = ''both-mandate/v1''"

definition MANDATE_MAX_DAYS :: int where
  "MANDATE_MAX_DAYS = 90"

definition MANDATE_MAX_DESTINATIONS :: nat where
  "MANDATE_MAX_DESTINATIONS = 20"

record mandate =
  mOrgId :: string
  mMandateId :: string
  mGrantee :: string
  mNetwork :: string
  mChainId :: "int option"
  mAsset :: string
  mPerPayout :: int
  mTotal :: int
  mDestinations :: "string list"
  mValidFrom :: int
  mValidUntil :: int
  mIssuer :: string
  mNonce :: string

fun checkDestinations :: "lib \<Rightarrow> string \<Rightarrow> string list \<Rightarrow> unit res" where
  "checkDestinations L n [] = Inr ()"
| "checkDestinations L n (d # ds) =
     andThen (addressNormal L n d) (\<lambda>ok.
     andThen (checkThat (MandateError ''destination'') ok) (\<lambda>_. checkDestinations L n ds))"

definition validateMandate :: "lib \<Rightarrow> mandate \<Rightarrow> unit res" where
  "validateMandate L m =
     andThen (checkThat (MandateError ''org'') (re_uuid (mOrgId m))) (\<lambda>_.
     andThen (checkThat (MandateError ''id'') (re_uuid (mMandateId m))) (\<lambda>_.
     andThen (checkThat (MandateError ''grantee'') (re_uuid (mGrantee m))) (\<lambda>_.
     andThen (checkThat (MandateError ''issuer'') (re_uuid (mIssuer m))) (\<lambda>_.
     andThen (checkThat (MandateError ''self'') (mGrantee m \<noteq> mIssuer m)) (\<lambda>_.
     andThen (checkThat (MandateError ''nonce'') (re_hexn 32 (mNonce m))) (\<lambda>_.
     andThen (checkThat (MandateError ''network'') (mNetwork m \<in> set WALLET_NETWORKS)) (\<lambda>_.
     andThen (chainIdOk (mNetwork m) (mChainId m)) (\<lambda>c.
     andThen (checkThat (MandateError ''chain'') c) (\<lambda>_.
     andThen (assetKnown (mNetwork m) (Some (mAsset m))) (\<lambda>a.
     andThen (checkThat (MandateError ''asset'') a) (\<lambda>_.
     andThen (checkThat (MandateError ''amount'') (mPerPayout m > 0 \<and> mTotal m > 0)) (\<lambda>_.
     andThen (checkThat (MandateError ''amount'') (mPerPayout m \<le> mTotal m)) (\<lambda>_.
     andThen (checkThat (MandateError ''destinations'')
       (length (mDestinations m) > 0 \<and> length (mDestinations m) \<le> MANDATE_MAX_DESTINATIONS)) (\<lambda>_.
     andThen (checkDestinations L (mNetwork m) (mDestinations m)) (\<lambda>_.
     andThen (checkThat (MandateError ''destinations'')
       (join (CHR '','') (sort (uniq (mDestinations m))) = join (CHR '','') (mDestinations m))) (\<lambda>_.
     andThen (checkThat (MandateError ''from'') (re_seconds (show_int (mValidFrom m)))) (\<lambda>_.
     andThen (checkThat (MandateError ''until'') (re_seconds (show_int (mValidUntil m)))) (\<lambda>_.
     andThen (checkThat (MandateError ''until'') (mValidUntil m > mValidFrom m)) (\<lambda>_.
     checkThat (MandateError ''until'') (mValidUntil m - mValidFrom m \<le> MANDATE_MAX_DAYS * 86400))))))))))))))))))))"

definition mandateFields :: "mandate \<Rightarrow> string list" where
  "mandateFields m = [MANDATE_PREFIX, mOrgId m, mMandateId m, mGrantee m, mNetwork m,
     optText (map_option show_int (mChainId m)), mAsset m, show_int (mPerPayout m), show_int (mTotal m),
     join (CHR '','') (mDestinations m), show_int (mValidFrom m), show_int (mValidUntil m), mIssuer m, mNonce m]"

definition mandateText :: "mandate \<Rightarrow> string" where
  "mandateText m = join (CHR ''|'') (mandateFields m)"

definition encodeMandate :: "lib \<Rightarrow> mandate \<Rightarrow> string res" where
  "encodeMandate L m = andThen (validateMandate L m) (\<lambda>_. Inr (mandateText m))"

text \<open>The helpers \<open>pos\<close> and \<open>secs\<close> of the parser.\<close>

definition posField :: "string \<Rightarrow> string \<Rightarrow> int res" where
  "posField v field = andThen (checkThat (MandateError field) (re_posint v)) (\<lambda>_. Inr (bigInt v))"

definition secsField :: "string \<Rightarrow> string \<Rightarrow> int res" where
  "secsField v field = andThen (checkThat (MandateError field) (re_seconds v)) (\<lambda>_. Inr (bigInt v))"

definition parseMandate :: "lib \<Rightarrow> string \<Rightarrow> mandate res" where
  "parseMandate L text =
     andThen (checkThat (MandateError ''text'') (text \<noteq> [] \<and> list_all is_graph text \<and> length text \<le> 2400)) (\<lambda>_.
     let f = split_on (CHR ''|'') text in
     andThen (checkThat (MandateError ''format'') (length f = 14 \<and> f ! 0 = MANDATE_PREFIX)) (\<lambda>_.
     andThen (if f ! 5 = ''-'' then Inr None else andThen (posField (f ! 5) ''chain'') (\<lambda>n. Inr (Some n))) (\<lambda>ch.
     andThen (posField (f ! 7) ''amount'') (\<lambda>per.
     andThen (posField (f ! 8) ''amount'') (\<lambda>tot.
     andThen (secsField (f ! 10) ''from'') (\<lambda>from.
     andThen (secsField (f ! 11) ''until'') (\<lambda>til.
     let m = \<lparr>mOrgId = f ! 1, mMandateId = f ! 2, mGrantee = f ! 3, mNetwork = f ! 4, mChainId = ch,
              mAsset = f ! 6, mPerPayout = per, mTotal = tot, mDestinations = split_on (CHR '','') (f ! 9),
              mValidFrom = from, mValidUntil = til, mIssuer = f ! 12, mNonce = f ! 13\<rparr> in
     andThen (validateMandate L m) (\<lambda>_.
     andThen (encodeMandate L m) (\<lambda>t.
     andThen (checkThat (MandateError ''canonical'') (t = text)) (\<lambda>_. Inr m))))))))))"

definition normalizeDestinations :: "lib \<Rightarrow> string \<Rightarrow> string list \<Rightarrow> string list res" where
  "normalizeDestinations L n xs =
     andThen (mapR (\<lambda>raw. andThen (checkAddress L n (trim raw)) (\<lambda>r.
       case r of AddrOk a \<Rightarrow> Inr a | AddrErr e \<Rightarrow> Inl (MandateError ''destination''))) xs)
     (\<lambda>out. Inr (sort (uniq out)))"

definition mandateChallenge :: "lib \<Rightarrow> string \<Rightarrow> bytes" where
  "mandateChallenge L text = sha256 L (utf8 text)"

record mandateUse =
  uGrantee :: string
  uNetwork :: string
  uAsset :: string
  uAmount :: int
  uDestination :: string
  uAt :: int
  uUsed :: int

definition mandateCovers :: "mandate \<Rightarrow> mandateUse \<Rightarrow> string" where
  "mandateCovers m p =
     (if uGrantee p \<noteq> mGrantee m then ''grantee''
      else if uNetwork p \<noteq> mNetwork m then ''network''
      else if uAsset p \<noteq> mAsset m then ''asset''
      else if uDestination p \<notin> set (mDestinations m) then ''destination''
      else if uAt p < mValidFrom m then ''not_yet''
      else if uAt p \<ge> mValidUntil m then ''expired''
      else if uAmount p > mPerPayout m then ''per_payout''
      else if uUsed p + uAmount p > mTotal m then ''total''
      else ''ok'')"

lemma mandateCovers_ok_iff:
  "mandateCovers m p = ''ok'' \<longleftrightarrow> uGrantee p = mGrantee m \<and> uNetwork p = mNetwork m \<and> uAsset p = mAsset m \<and>
     uDestination p \<in> set (mDestinations m) \<and> mValidFrom m \<le> uAt p \<and> uAt p < mValidUntil m \<and>
     uAmount p \<le> mPerPayout m \<and> uUsed p + uAmount p \<le> mTotal m"
  by (simp add: mandateCovers_def)

section \<open>What validation guarantees\<close>

lemma checkDestinations_ok:
  "checkDestinations L n ds = Inr () \<longleftrightarrow> (\<forall>d\<in>set ds. checkAddress L n d = Inr (AddrOk d))"
  by (induction ds) (auto simp: exn_simps addressNormal_def)

lemma validateMandate_ok:
  assumes "validateMandate L m = Inr ()"
  shows "re_uuid (mOrgId m)" "re_uuid (mMandateId m)" "re_uuid (mGrantee m)" "re_uuid (mIssuer m)"
    "mGrantee m \<noteq> mIssuer m" "re_hexn 32 (mNonce m)" "mNetwork m \<in> set WALLET_NETWORKS"
    "chainIdOk (mNetwork m) (mChainId m) = Inr True" "assetKnown (mNetwork m) (Some (mAsset m)) = Inr True"
    "0 < mPerPayout m" "mPerPayout m \<le> mTotal m" "mDestinations m \<noteq> []"
    "length (mDestinations m) \<le> MANDATE_MAX_DESTINATIONS"
    "\<forall>d\<in>set (mDestinations m). checkAddress L (mNetwork m) d = Inr (AddrOk d)"
    "join (CHR '','') (sort (uniq (mDestinations m))) = join (CHR '','') (mDestinations m)"
    "re_seconds (show_int (mValidFrom m))" "re_seconds (show_int (mValidUntil m))"
    "mValidFrom m < mValidUntil m" "mValidUntil m - mValidFrom m \<le> 90 * 86400"
  using assms by (auto simp: validateMandate_def exn_simps checkDestinations_ok MANDATE_MAX_DAYS_def)

section \<open>Round trip\<close>

definition mandateFits :: "mandate \<Rightarrow> bool" where
  "mandateFits m \<longleftrightarrow> mPerPayout m < 10 ^ 40 \<and> mTotal m < 10 ^ 40 \<and> length (mandateText m) \<le> 2400 \<and>
     (\<forall>d\<in>set (mDestinations m). fieldOk d \<and> CHR '','' \<notin> set d)"

lemma fieldOk_join:
  "\<forall>d\<in>set ds. fieldOk d \<Longrightarrow> fieldOk (join (CHR '','') ds)"
proof -
  assume d: "\<forall>d\<in>set ds. fieldOk d"
  have "is_graph (CHR '','')" by (simp add: is_graph_def cval_def)
  with d set_join [of "CHR '',''" ds] show ?thesis by (fastforce simp: fieldOk_def list_all_iff)
qed

lemma mandateFields_ok:
  assumes "\<forall>d\<in>set (mDestinations m). fieldOk d" "validateMandate L m = Inr ()"
  shows "\<forall>x\<in>set (mandateFields m). fieldOk x"
proof -
  note v = validateMandate_ok [OF assms(2)]
  have "fieldOk MANDATE_PREFIX"
    by (simp add: MANDATE_PREFIX_def fieldOk_def is_graph_def cval_def)
  moreover have "fieldOk (optText (map_option show_int (mChainId m)))"
    using v(8) by (cases "mChainId m") (auto simp: optText_def intro: fieldOk_dash intro!: fieldOk_show dest: chainIdOk_pos)
  moreover have "fieldOk (mAsset m)"
    using v(9) by (auto simp: assetKnown_def exn_simps intro: fieldOk_asset)
  ultimately show ?thesis
    using v fieldOk_join [OF assms(1)] by (simp add: mandateFields_def fieldOk_intros fieldOk_show)
qed

lemma posField_show: "0 < n \<Longrightarrow> n < 10 ^ 40 \<Longrightarrow> posField (show_int n) field = Inr n"
  by (simp add: posField_def re_posint_show)

lemma secsField_show: "re_seconds (show_int n) \<Longrightarrow> secsField (show_int n) field = Inr n"
  using re_seconds_pos [of n] by (simp add: secsField_def)

lemma parse_encodeMandate:
  assumes "mandateFits m" "encodeMandate L m = Inr t"
  shows "parseMandate L t = Inr m"
proof -
  have dest: "\<forall>d\<in>set (mDestinations m). fieldOk d" using assms(1) by (simp add: mandateFits_def)
  have eta: "\<lparr>mOrgId = mOrgId m, mMandateId = mMandateId m, mGrantee = mGrantee m, mNetwork = mNetwork m,
    mChainId = mChainId m, mAsset = mAsset m, mPerPayout = mPerPayout m, mTotal = mTotal m,
    mDestinations = mDestinations m, mValidFrom = mValidFrom m, mValidUntil = mValidUntil m,
    mIssuer = mIssuer m, mNonce = mNonce m\<rparr> = m" by simp
  from assms(2) have v: "validateMandate L m = Inr ()" and t: "t = mandateText m"
    by (simp_all add: encodeMandate_def exn_simps)
  note ok = mandateFields_ok [OF dest v] and vm = validateMandate_ok [OF v]
  have g: "list_all is_graph t" "t \<noteq> []"
    using join_graph [OF ok] by (simp_all add: t mandateText_def) (simp add: mandateFields_def join_nonempty MANDATE_PREFIX_def)
  have f: "split_on (CHR ''|'') t = mandateFields m"
    unfolding t mandateText_def by (rule split_on_join) (use ok in \<open>auto simp: mandateFields_def fieldOk_def\<close>)
  have n: "mandateFields m ! 0 = MANDATE_PREFIX" "length (mandateFields m) = 14" "mandateFields m ! Suc 0 = mOrgId m"
    "mandateFields m ! 2 = mMandateId m" "mandateFields m ! 3 = mGrantee m" "mandateFields m ! 4 = mNetwork m"
    "mandateFields m ! 5 = optText (map_option show_int (mChainId m))" "mandateFields m ! 6 = mAsset m"
    "mandateFields m ! 7 = show_int (mPerPayout m)" "mandateFields m ! 8 = show_int (mTotal m)"
    "mandateFields m ! 9 = join (CHR '','') (mDestinations m)" "mandateFields m ! 10 = show_int (mValidFrom m)"
    "mandateFields m ! 11 = show_int (mValidUntil m)" "mandateFields m ! 12 = mIssuer m" "mandateFields m ! 13 = mNonce m"
    by (simp_all add: mandateFields_def)
  have ch: "(if optText (map_option show_int (mChainId m)) = ''-'' then Inr None
    else andThen (posField (optText (map_option show_int (mChainId m))) ''chain'') (\<lambda>n. Inr (Some n))) = Inr (mChainId m)"
  proof (cases "mChainId m")
    case None
    then show ?thesis by (simp add: optText_def)
  next
    case (Some c)
    with vm(8) have "0 < c \<and> c < 10 ^ 40" using chainIdOk_pos [of "mNetwork m" c] by simp
    with Some show ?thesis using field_ne(1) [OF re_posint_show [of c]] by (simp add: optText_def posField_show)
  qed
  have ds: "split_on (CHR '','') (join (CHR '','') (mDestinations m)) = mDestinations m"
    by (rule split_on_join) (use vm(12) assms(1) in \<open>auto simp: mandateFits_def\<close>)
  have num: "posField (show_int (mPerPayout m)) ''amount'' = Inr (mPerPayout m)" "posField (show_int (mTotal m)) ''amount'' = Inr (mTotal m)"
    "secsField (show_int (mValidFrom m)) ''from'' = Inr (mValidFrom m)" "secsField (show_int (mValidUntil m)) ''until'' = Inr (mValidUntil m)"
    using vm(10,11,16,17) assms(1) by (auto simp: mandateFits_def intro!: posField_show secsField_show)
  show ?thesis
    using assms v g by (simp only: parseMandate_def f n One_nat_def Let_def ch num ds) (simp add: mandateFits_def eta t [symmetric])
qed

lemma encode_parseMandate: "parseMandate L t = Inr m \<Longrightarrow> encodeMandate L m = Inr t"
  by (auto simp: parseMandate_def Let_def exn_simps)

lemma parseMandate_fits:
  assumes "parseMandate L t = Inr m"
  shows "mandateFits m"
proof -
  have t: "t = mandateText m" using encode_parseMandate [OF assms] by (simp add: encodeMandate_def exn_simps)
  have g: "list_all is_graph t" "length t \<le> 2400"
    and f: "\<exists>f. f = split_on (CHR ''|'') t \<and> length f = 14 \<and> mDestinations m = split_on (CHR '','') (f ! 9) \<and>
       posField (f ! 7) ''amount'' = Inr (mPerPayout m) \<and> posField (f ! 8) ''amount'' = Inr (mTotal m)"
    using assms by (auto simp: parseMandate_def Let_def exn_simps)
  then obtain f where f: "f = split_on (CHR ''|'') t" "length f = 14" "mDestinations m = split_on (CHR '','') (f ! 9)"
    "posField (f ! 7) ''amount'' = Inr (mPerPayout m)" "posField (f ! 8) ''amount'' = Inr (mTotal m)" by blast
  have f9: "f ! 9 \<in> set (split_on (CHR ''|'') t)" using f(1,2) by auto
  have b: "n < 10 ^ 40" if "posField v x = Inr n" for v x n
    using that numField_bound [of v re_posint x n] field_ne(1) [of v] by (auto simp: posField_def numField_def exn_simps)
  have "fieldOk d \<and> CHR '','' \<notin> set d" if "d \<in> set (mDestinations m)" for d
  proof -
    from that f(3) have d: "d \<in> set (split_on (CHR '','') (f ! 9))" by simp
    with set_split_on [OF d] set_split_on [OF f9] split_on_no_sep_mem [OF f9] split_on_no_sep_mem [OF d] g(1)
    show ?thesis by (auto simp: fieldOk_def list_all_iff)
  qed
  with g t b f(4,5) show ?thesis by (simp add: mandateFits_def)
qed

interpretation mandateCodec: canonical_codec "encodeMandate L" "parseMandate L" mandateFits for L
  by unfold_locales (auto intro: parse_encodeMandate encode_parseMandate parseMandate_fits)

text \<open>
  The text of a mandate is its only spelling: parsing a text gives a mandate exactly if the
  mandate fits the bounds of the parser and encoding it gives that very text.
\<close>

theorem mandate_roundtrip:
  "parseMandate L t = Inr m \<longleftrightarrow> mandateFits m \<and> encodeMandate L m = Inr t"
  by (rule mandateCodec.decode_iff)

lemma sorted_join_distinct:
  assumes "join (CHR '','') (sort (uniq ds)) = join (CHR '','') ds" "ds \<noteq> []" "\<forall>d\<in>set ds. CHR '','' \<notin> set d"
  shows "distinct ds"
proof -
  have "sort (uniq ds) \<noteq> []" using assms(2) by (metis set_empty set_sort set_uniq)
  then have "sort (uniq ds) = ds"
    by (rule join_inj [OF assms(1)]) (use assms in auto)
  then show ?thesis by (metis distinct_sort distinct_uniq)
qed

text \<open>
  A mandate that the parser accepts is bounded: grantee and issuer are different persons,
  it lasts at most 90 days, names between one and twenty destinations without repetition,
  each in normal form on the network of the mandate, and no payment it covers exceeds its total.
\<close>

theorem parsed_mandate_is_bounded:
  assumes "parseMandate L t = Inr m"
  shows "mGrantee m \<noteq> mIssuer m \<and> mValidUntil m - mValidFrom m \<le> 90 * 86400 \<and>
    0 < length (mDestinations m) \<and> length (mDestinations m) \<le> 20 \<and> distinct (mDestinations m) \<and>
    (\<forall>d\<in>set (mDestinations m). normalAddress L (mNetwork m) d) \<and>
    (\<forall>p. 0 \<le> uUsed p \<longrightarrow> mandateCovers m p = ''ok'' \<longrightarrow> uAmount p \<le> mTotal m)"
proof -
  from encode_parseMandate [OF assms] have v: "validateMandate L m = Inr ()"
    by (simp add: encodeMandate_def exn_simps)
  note ok = validateMandate_ok [OF v]
  have "distinct (mDestinations m)"
    by (rule sorted_join_distinct) (use ok(12,15) parseMandate_fits [OF assms] in \<open>auto simp: mandateFits_def\<close>)
  then show ?thesis
    using ok by (auto simp: normalAddress_def mandateCovers_ok_iff MANDATE_MAX_DESTINATIONS_def)
qed

definition demoMandate :: mandate where
  "demoMandate = \<lparr>mOrgId = ''00000000-0000-4000-8000-000000000001'', mMandateId = ''00000000-0000-4000-8000-000000000002'',
     mGrantee = ''00000000-0000-4000-8000-000000000003'', mNetwork = ''bitcoin_signet'', mChainId = None,
     mAsset = ''BTC'', mPerPayout = 500, mTotal = 1200, mDestinations = [''tb1qa'', ''tb1qb''],
     mValidFrom = 1700000000, mValidUntil = 1700086400, mIssuer = ''00000000-0000-4000-8000-000000000004'',
     mNonce = ''0123456789abcdef0123456789abcdef''\<rparr>"

lemma demoMandate_parses: "parseMandate demoLib (mandateText demoMandate) = Inr demoMandate"
proof (rule parse_encodeMandate)
  show "mandateFits demoMandate" by code_simp
  show "encodeMandate demoLib demoMandate = Inr (mandateText demoMandate)" by code_simp
qed

theorem parsed_mandate_is_bounded_witness:
  "parseMandate demoLib (mandateText demoMandate) = Inr demoMandate \<and> distinct (mDestinations demoMandate) \<and>
   mValidUntil demoMandate - mValidFrom demoMandate \<le> 90 * 86400"
  using parsed_mandate_is_bounded [OF demoMandate_parses] demoMandate_parses by blast

end
