(* ===== verification/Signer_State.thy ===== *)
theory Signer_State
  imports Policy Intent Mandate
begin

text \<open>
  \<open>signer/events.ts\<close> and \<open>signer/state.ts\<close>: the events of the journal and the state of the signer as
  a fold over them. The same \<open>apply\<close> runs when the journal is replayed and after every new entry.

  Each event has \<open>seq\<close> and \<open>at\<close> and a body with the fields of its type; optional fields are options.
  The field \<open>mode\<close> of a signature is a JSON value, because \<open>sign\<close> does not insist on a string.
  \<open>apply\<close> throws only where it parses the text of an intent or a nonce.
\<close>

section \<open>Events\<close>

definition SIGN_MODES :: "string list" where
  "SIGN_MODES = [''first'', ''bump'', ''cancel'']"

type_synonym strmap = "(string, string) jsmap"

record initT =
  inOrgId :: string
  inRpId :: string
  inOrigin :: string
  inDev :: bool
  inFingerprints :: strmap
  inPolicy :: "int policy"

record signedT =
  sgIntentId :: string
  sgMode :: json
  sgAccountId :: string
  sgNetwork :: string
  sgAsset :: string
  sgAmount :: string
  sgTxid :: string
  sgRaw :: string
  sgFee :: string
  sgOutpoints :: "string list option"
  sgChangeIndex :: "int option option"
  sgNonce :: "string option"
  sgMaxFeePerGas :: "string option"
  sgMaxPriorityFeePerGas :: "string option"
  sgGasLimit :: "string option"

datatype body =
    EInit initT
  | ENetworkAdded string string
  | EAccount string string int string
  | EEnrolStart string string string int
  | EKey string string string string string int
  | EKeyRevoked string
  | EPolicy "int policy" string
  | EIntent string string "string option"
  | EApproval string string string int
  | ECancel string string
  | EVeto string
  | EFreeze string string
  | EUnfreeze
  | ESigned signedT
  | ERekey strmap
  | EMandate string string
  | EMandateApproval string string string int
  | EMandateRevoked string string

record event =
  evSeq :: int
  evAt :: int
  evBody :: body

section \<open>State\<close>

record keyRecord =
  kCredId :: string
  kPerson :: string
  kSpki :: string
  kAaguid :: string
  kCounter :: int
  kActive :: bool
  kEnrolledAt :: int

record approvalT =
  apCredId :: string
  apPerson :: string
  apAt :: int

record intentRecord =
  rIntentId :: string
  rText :: string
  rIntent :: intent
  rCreatedAt :: int
  rApprovals :: "approvalT list"
  rApprovedAt :: "int option"
  rSignableAt :: "int option"
  rSignUntil :: "int option"
  rActiveFrom :: "int option"
  rCancelled :: bool
  rVetoed :: bool
  rSignatures :: "(int \<times> signedT) list"
  rMandateId :: "string option"

record mandateRecord =
  dMandateId :: string
  dText :: string
  dMandate :: mandate
  dCreatedAt :: int
  dApprovals :: "approvalT list"
  dApprovedAt :: "int option"
  dRevoked :: bool

record accountRecord =
  aAccountId :: string
  aNetwork :: string
  aIndex :: int
  aXpub :: string

record enrolRecord =
  nEnrolId :: string
  nPerson :: string
  nSecret :: string
  nExpiresAt :: int
  nDone :: bool

record frozenT =
  fzReason :: string
  fzAt :: int
  fzBy :: string

record signerState =
  sInit :: "initT option"
  sFingerprints :: strmap
  sPolicy :: "int policy option"
  sAccounts :: "(string, accountRecord) jsmap"
  sNextIndex :: "(string, int) jsmap"
  sEnrolments :: "(string, enrolRecord) jsmap"
  sKeys :: "(string, keyRecord) jsmap"
  sIntents :: "(string, intentRecord) jsmap"
  sMandates :: "(string, mandateRecord) jsmap"
  sFrozen :: "frozenT option"
  sReserved :: strmap
  sNonces :: "(string, int) jsmap"
  sNextChange :: "(string, int) jsmap"

definition emptyState :: signerState where
  "emptyState = \<lparr>sInit = None, sFingerprints = [], sPolicy = None, sAccounts = [], sNextIndex = [],
     sEnrolments = [], sKeys = [], sIntents = [], sMandates = [], sFrozen = None, sReserved = [],
     sNonces = [], sNextChange = []\<rparr>"

text \<open>\<open>m.get(k) ?? d\<close>\<close>

definition getOr :: "('k, 'v) jsmap \<Rightarrow> 'k \<Rightarrow> 'v \<Rightarrow> 'v" where
  "getOr m k d = (case mapGet m k of None \<Rightarrow> d | Some v \<Rightarrow> v)"

text \<open>A record is changed in place where the map has it.\<close>

definition mapUpdate :: "('k, 'v) jsmap \<Rightarrow> 'k \<Rightarrow> ('v \<Rightarrow> 'v) \<Rightarrow> ('k, 'v) jsmap" where
  "mapUpdate m k f = (case mapGet m k of None \<Rightarrow> m | Some v \<Rightarrow> mapSet m k (f v))"

definition activeKeysByPerson :: "signerState \<Rightarrow> (string, int) jsmap" where
  "activeKeysByPerson s =
     foldl (\<lambda>out k. if kActive k then mapSet out (kPerson k) (getOr out (kPerson k) 0 + 1) else out) [] (mapValues (sKeys s))"

definition keyActive :: "signerState \<Rightarrow> string \<Rightarrow> bool" where
  "keyActive s c = (case mapGet (sKeys s) c of None \<Rightarrow> False | Some k \<Rightarrow> kActive k)"

definition approvalsQuorum :: "signerState \<Rightarrow> approvalT list \<Rightarrow> bool" where
  "approvalsQuorum s as =
     (case sPolicy s of None \<Rightarrow> False
      | Some p \<Rightarrow> approvalsSatisfied p
          (map (\<lambda>a. \<lparr>personId = apPerson a, credentialId = apCredId a\<rparr>) (filter (\<lambda>a. keyActive s (apCredId a)) as))
          (activeKeysByPerson s))"

definition mandateQuorum :: "signerState \<Rightarrow> mandateRecord \<Rightarrow> bool" where
  "mandateQuorum s m \<longleftrightarrow> \<not> dRevoked m \<and> approvalsQuorum s (dApprovals m)"

definition quorum :: "signerState \<Rightarrow> intentRecord \<Rightarrow> bool" where
  "quorum s r =
     (case rMandateId r of
        Some i \<Rightarrow> (case mapGet (sMandates s) i of None \<Rightarrow> False | Some m \<Rightarrow> mandateQuorum s m)
      | None \<Rightarrow> approvalsQuorum s (rApprovals r))"

text \<open>\<open>settle\<close> changes the record \<open>rec\<close>; here it returns the changed record.\<close>

definition settle :: "signerState \<Rightarrow> intentRecord \<Rightarrow> int \<Rightarrow> intentRecord" where
  "settle s r tm =
     (if rApprovedAt r \<noteq> None then r
      else case sPolicy s of None \<Rightarrow> r
      | Some p \<Rightarrow>
          if \<not> quorum s r then r
          else if iKind (rIntent r) = ''payout'' then
            (let delay = (if mode p = ''solo'' then soloDelaySec p else 0) in
             r\<lparr>rApprovedAt := Some tm, rSignableAt := Some (tm + delay),
               rSignUntil := Some (tm + delay + approvalWindowSec p)\<rparr>)
          else r\<lparr>rApprovedAt := Some tm, rActiveFrom := Some (tm + whitelistCooldownSec p)\<rparr>)"

section \<open>Applying an event\<close>

definition applyAccount :: "signerState \<Rightarrow> string \<Rightarrow> string \<Rightarrow> int \<Rightarrow> string \<Rightarrow> signerState" where
  "applyAccount s accountId network index xpub =
     s\<lparr>sAccounts := mapSet (sAccounts s) accountId \<lparr>aAccountId = accountId, aNetwork = network, aIndex = index, aXpub = xpub\<rparr>,
       sNextIndex := mapSet (sNextIndex s) network (max (getOr (sNextIndex s) network 0) (index + 1))\<rparr>"

definition applyKey :: "signerState \<Rightarrow> int \<Rightarrow> string \<Rightarrow> string \<Rightarrow> string \<Rightarrow> string \<Rightarrow> string \<Rightarrow> int \<Rightarrow> signerState" where
  "applyKey s tm enrolId person credId spki ag counter =
     s\<lparr>sEnrolments := mapUpdate (sEnrolments s) enrolId (\<lambda>en. en\<lparr>nDone := True\<rparr>),
       sKeys := mapSet (sKeys s) credId \<lparr>kCredId = credId, kPerson = person, kSpki = spki, kAaguid = ag,
         kCounter = counter, kActive = True, kEnrolledAt = tm\<rparr>\<rparr>"

definition newRecord :: "string \<Rightarrow> string \<Rightarrow> intent \<Rightarrow> int \<Rightarrow> string option \<Rightarrow> intentRecord" where
  "newRecord intentId text i tm mandateId =
     \<lparr>rIntentId = intentId, rText = text, rIntent = i, rCreatedAt = tm, rApprovals = [], rApprovedAt = None,
      rSignableAt = None, rSignUntil = None, rActiveFrom = None, rCancelled = False, rVetoed = False,
      rSignatures = [], rMandateId = mandateId\<rparr>"

definition applyIntent :: "lib \<Rightarrow> signerState \<Rightarrow> int \<Rightarrow> string \<Rightarrow> string \<Rightarrow> string option \<Rightarrow> signerState res" where
  "applyIntent L s tm intentId text mandateId =
     andThen (parseIntent L text) (\<lambda>i.
       let r = newRecord intentId text i tm mandateId;
           s1 = s\<lparr>sIntents := mapSet (sIntents s) intentId r\<rparr> in
       Inr (if mandateId \<noteq> None \<and> mandateId \<noteq> Some []
            then s1\<lparr>sIntents := mapSet (sIntents s1) intentId (settle s1 r tm)\<rparr> else s1))"

definition applyApproval :: "signerState \<Rightarrow> int \<Rightarrow> string \<Rightarrow> string \<Rightarrow> string \<Rightarrow> int \<Rightarrow> signerState" where
  "applyApproval s tm intentId credId person counter =
     (let s1 = s\<lparr>sKeys := mapUpdate (sKeys s) credId (\<lambda>k. k\<lparr>kCounter := counter\<rparr>)\<rparr> in
      case mapGet (sIntents s) intentId of None \<Rightarrow> s1
      | Some r \<Rightarrow>
          let r1 = r\<lparr>rApprovals := rApprovals r @ [\<lparr>apCredId = credId, apPerson = person, apAt = tm\<rparr>]\<rparr>;
              s2 = s1\<lparr>sIntents := mapSet (sIntents s1) intentId r1\<rparr> in
          s2\<lparr>sIntents := mapSet (sIntents s2) intentId (settle s2 r1 tm)\<rparr>)"

definition noteNonce :: "signerState \<Rightarrow> string \<Rightarrow> int \<Rightarrow> signerState" where
  "noteNonce s accountId n =
     (case mapGet (sNonces s) accountId of
        None \<Rightarrow> s\<lparr>sNonces := mapSet (sNonces s) accountId n\<rparr>
      | Some prv \<Rightarrow> if n > prv then s\<lparr>sNonces := mapSet (sNonces s) accountId n\<rparr> else s)"

definition noteChange :: "signerState \<Rightarrow> string \<Rightarrow> int option option \<Rightarrow> signerState" where
  "noteChange s accountId ci =
     (case ci of Some (Some c) \<Rightarrow>
        s\<lparr>sNextChange := mapSet (sNextChange s) accountId (max (getOr (sNextChange s) accountId 0) (c + 1))\<rparr>
      | _ \<Rightarrow> s)"

definition applySigned :: "signerState \<Rightarrow> int \<Rightarrow> signedT \<Rightarrow> signerState res" where
  "applySigned s tm e =
     (let s1 = s\<lparr>sIntents := mapUpdate (sIntents s) (sgIntentId e) (\<lambda>r. r\<lparr>rSignatures := rSignatures r @ [(tm, e)]\<rparr>),
                sReserved := foldl (\<lambda>m o1. mapSet m o1 (sgIntentId e)) (sReserved s) (case sgOutpoints e of None \<Rightarrow> [] | Some os \<Rightarrow> os)\<rparr> in
      andThen (case sgNonce e of None \<Rightarrow> Inr s1
               | Some t \<Rightarrow> andThen (toBigInt t) (\<lambda>n. Inr (noteNonce s1 (sgAccountId e) n)))
        (\<lambda>s2. Inr (noteChange s2 (sgAccountId e) (sgChangeIndex e))))"

definition applyMandate :: "lib \<Rightarrow> signerState \<Rightarrow> int \<Rightarrow> string \<Rightarrow> string \<Rightarrow> signerState" where
  "applyMandate L s tm mandateId text =
     (case parseMandate L text of Inl _ \<Rightarrow> s
      | Inr m \<Rightarrow> s\<lparr>sMandates := mapSet (sMandates s) mandateId \<lparr>dMandateId = mandateId, dText = text, dMandate = m,
          dCreatedAt = tm, dApprovals = [], dApprovedAt = None, dRevoked = False\<rparr>\<rparr>)"

definition applyMandateApproval :: "signerState \<Rightarrow> int \<Rightarrow> string \<Rightarrow> string \<Rightarrow> string \<Rightarrow> int \<Rightarrow> signerState" where
  "applyMandateApproval s tm mandateId credId person counter =
     (let s1 = s\<lparr>sKeys := mapUpdate (sKeys s) credId (\<lambda>k. k\<lparr>kCounter := counter\<rparr>)\<rparr> in
      case mapGet (sMandates s) mandateId of None \<Rightarrow> s1
      | Some m \<Rightarrow>
          let m1 = m\<lparr>dApprovals := dApprovals m @ [\<lparr>apCredId = credId, apPerson = person, apAt = tm\<rparr>]\<rparr>;
              m2 = (if dApprovedAt m1 = None \<and> mandateQuorum s1 m1 then m1\<lparr>dApprovedAt := Some tm\<rparr> else m1) in
          s1\<lparr>sMandates := mapSet (sMandates s1) mandateId m2\<rparr>)"

definition applyBody :: "lib \<Rightarrow> signerState \<Rightarrow> int \<Rightarrow> body \<Rightarrow> signerState res" where
  "applyBody L s tm e =
     (case e of
        EInit i \<Rightarrow> Inr (s\<lparr>sInit := Some i, sFingerprints := inFingerprints i, sPolicy := Some (inPolicy i)\<rparr>)
      | ENetworkAdded n f \<Rightarrow> Inr (s\<lparr>sFingerprints := mapSet (sFingerprints s) n f\<rparr>)
      | EAccount a n i x \<Rightarrow> Inr (applyAccount s a n i x)
      | EEnrolStart i p sec ex \<Rightarrow>
          Inr (s\<lparr>sEnrolments := mapSet (sEnrolments s) i \<lparr>nEnrolId = i, nPerson = p, nSecret = sec, nExpiresAt = ex, nDone = False\<rparr>\<rparr>)
      | EKey en p c sp ag n \<Rightarrow> Inr (applyKey s tm en p c sp ag n)
      | EKeyRevoked c \<Rightarrow> Inr (s\<lparr>sKeys := mapUpdate (sKeys s) c (\<lambda>k. k\<lparr>kActive := False\<rparr>)\<rparr>)
      | EPolicy p by \<Rightarrow> Inr (s\<lparr>sPolicy := Some p\<rparr>)
      | EIntent i t m \<Rightarrow> applyIntent L s tm i t m
      | EApproval i c p n \<Rightarrow> Inr (applyApproval s tm i c p n)
      | ECancel i by \<Rightarrow> Inr (s\<lparr>sIntents := mapUpdate (sIntents s) i (\<lambda>r. r\<lparr>rCancelled := True\<rparr>)\<rparr>)
      | EVeto i \<Rightarrow> Inr (s\<lparr>sIntents := mapUpdate (sIntents s) i (\<lambda>r. r\<lparr>rVetoed := True\<rparr>)\<rparr>)
      | EFreeze rs by \<Rightarrow> Inr (s\<lparr>sFrozen := Some \<lparr>fzReason = rs, fzAt = tm, fzBy = by\<rparr>\<rparr>)
      | EUnfreeze \<Rightarrow> Inr (s\<lparr>sFrozen := None\<rparr>)
      | ESigned g \<Rightarrow> applySigned s tm g
      | ERekey f \<Rightarrow> Inr s
      | EMandate i t \<Rightarrow> Inr (applyMandate L s tm i t)
      | EMandateApproval i c p n \<Rightarrow> Inr (applyMandateApproval s tm i c p n)
      | EMandateRevoked i by \<Rightarrow> Inr (s\<lparr>sMandates := mapUpdate (sMandates s) i (\<lambda>m. m\<lparr>dRevoked := True\<rparr>)\<rparr>))"

definition apply_event :: "lib \<Rightarrow> signerState \<Rightarrow> event \<Rightarrow> signerState res" where
  "apply_event L s e = applyBody L s (evAt e) (evBody e)"

fun replayFrom :: "lib \<Rightarrow> signerState \<Rightarrow> event list \<Rightarrow> signerState res" where
  "replayFrom L s [] = Inr s"
| "replayFrom L s (e # es) = andThen (apply_event L s e) (\<lambda>s1. replayFrom L s1 es)"

definition replay :: "lib \<Rightarrow> event list \<Rightarrow> signerState res" where
  "replay L es = replayFrom L emptyState es"

end
