(* ===== verification/Journal.thy ===== *)
theory Journal
  imports Signer_State WebAuthn
begin

text \<open>
  \<open>signer/journal.ts\<close>: the journal as text, one line \<open>hash TAB body\<close> per event, each hash over the
  previous one and the body. The file is a string; writing and \<open>fsync\<close> succeed or the process
  is gone (a partly written last line is the only trace of a crash).

  \<open>eventJson\<close> lists the fields of an event sorted by key, leaving out those that are \<open>undefined\<close>;
  \<open>eventOf\<close> is the cast \<open>JSON.parse(body) as SignerEvent\<close>, undefined on JSON of another shape.
  Objects used as dictionaries are sorted by key in an event, which is how they come back.
\<close>

definition GENESIS :: string where
  "GENESIS = replicate 64 (CHR ''0'')"

definition MAX_LINE :: int where
  "MAX_LINE = 1024 * 1024"

section \<open>Events as JSON\<close>

definition optField :: "string \<Rightarrow> ('a \<Rightarrow> json) \<Rightarrow> 'a option \<Rightarrow> (string \<times> json) list" where
  "optField k f v = (case v of None \<Rightarrow> [] | Some x \<Rightarrow> [(k, f x)])"

definition strmapJson :: "strmap \<Rightarrow> json" where
  "strmapJson m = JObj (map (\<lambda>(k, v). (k, JStr v)) m)"

definition optIntJson :: "int option \<Rightarrow> json" where
  "optIntJson v = (case v of None \<Rightarrow> JNull | Some n \<Rightarrow> JInt n)"

definition signedFields :: "signedT \<Rightarrow> (string \<times> json) list" where
  "signedFields g = [(''type'', JStr ''signed''), (''intentId'', JStr (sgIntentId g)), (''mode'', sgMode g), (''accountId'', JStr (sgAccountId g)),
     (''network'', JStr (sgNetwork g)), (''asset'', JStr (sgAsset g)), (''amount'', JStr (sgAmount g)), (''txid'', JStr (sgTxid g)),
     (''raw'', JStr (sgRaw g)), (''fee'', JStr (sgFee g))] @
     optField ''outpoints'' (\<lambda>os. JArr (map JStr os)) (sgOutpoints g) @ optField ''changeIndex'' optIntJson (sgChangeIndex g) @
     optField ''nonce'' JStr (sgNonce g) @ optField ''maxFeePerGas'' JStr (sgMaxFeePerGas g) @
     optField ''maxPriorityFeePerGas'' JStr (sgMaxPriorityFeePerGas g) @ optField ''gasLimit'' JStr (sgGasLimit g)"

definition bodyFields :: "body \<Rightarrow> (string \<times> json) list" where
  "bodyFields b =
     (case b of
        EInit i \<Rightarrow> [(''type'', JStr ''init''), (''orgId'', JStr (inOrgId i)), (''rpId'', JStr (inRpId i)), (''origin'', JStr (inOrigin i)),
          (''dev'', JBool (inDev i)), (''fingerprints'', strmapJson (inFingerprints i)), (''policy'', policyJson (inPolicy i))]
      | ENetworkAdded n f \<Rightarrow> [(''type'', JStr ''network_added''), (''network'', JStr n), (''fingerprint'', JStr f)]
      | EAccount a n i x \<Rightarrow> [(''type'', JStr ''account''), (''accountId'', JStr a), (''network'', JStr n), (''index'', JInt i), (''xpub'', JStr x)]
      | EEnrolStart i p sec ex \<Rightarrow> [(''type'', JStr ''enrol_start''), (''enrolId'', JStr i), (''person'', JStr p), (''secret'', JStr sec), (''expiresAt'', JInt ex)]
      | EKey en p c sp ag n \<Rightarrow> [(''type'', JStr ''key''), (''enrolId'', JStr en), (''person'', JStr p), (''credId'', JStr c), (''spki'', JStr sp),
          (''aaguid'', JStr ag), (''counter'', JInt n)]
      | EKeyRevoked c \<Rightarrow> [(''type'', JStr ''key_revoked''), (''credId'', JStr c)]
      | EPolicy p by \<Rightarrow> [(''type'', JStr ''policy''), (''policy'', policyJson p), (''by'', JStr by)]
      | EIntent i t m \<Rightarrow> [(''type'', JStr ''intent''), (''intentId'', JStr i), (''text'', JStr t)] @ optField ''mandateId'' JStr m
      | EApproval i c p n \<Rightarrow> [(''type'', JStr ''approval''), (''intentId'', JStr i), (''credId'', JStr c), (''person'', JStr p), (''counter'', JInt n)]
      | ECancel i by \<Rightarrow> [(''type'', JStr ''cancel''), (''intentId'', JStr i), (''by'', JStr by)]
      | EVeto i \<Rightarrow> [(''type'', JStr ''veto''), (''intentId'', JStr i)]
      | EFreeze rs by \<Rightarrow> [(''type'', JStr ''freeze''), (''reason'', JStr rs), (''by'', JStr by)]
      | EUnfreeze \<Rightarrow> [(''type'', JStr ''unfreeze'')]
      | ESigned g \<Rightarrow> signedFields g
      | ERekey f \<Rightarrow> [(''type'', JStr ''rekey''), (''fingerprints'', strmapJson f)]
      | EMandate i t \<Rightarrow> [(''type'', JStr ''mandate''), (''mandateId'', JStr i), (''text'', JStr t)]
      | EMandateApproval i c p n \<Rightarrow> [(''type'', JStr ''mandate_approval''), (''mandateId'', JStr i), (''credId'', JStr c), (''person'', JStr p), (''counter'', JInt n)]
      | EMandateRevoked i by \<Rightarrow> [(''type'', JStr ''mandate_revoked''), (''mandateId'', JStr i), (''by'', JStr by)])"

definition eventFields :: "event \<Rightarrow> (string \<times> json) list" where
  "eventFields e = (''seq'', JInt (evSeq e)) # (''at'', JInt (evAt e)) # bodyFields (evBody e)"

definition eventJson :: "event \<Rightarrow> json" where
  "eventJson e = JObj (sort_key fst (eventFields e))"

section \<open>Events from JSON\<close>

definition strF :: "(string \<times> json) list \<Rightarrow> string \<Rightarrow> string option" where
  "strF o1 k = (case jfield o1 k of Some (JStr s) \<Rightarrow> Some s | _ \<Rightarrow> None)"

definition jsonInt :: "json \<Rightarrow> int option" where
  "jsonInt v = (case v of JNum r \<Rightarrow> if isInteger r then Some \<lfloor>r\<rfloor> else None | _ \<Rightarrow> None)"

definition intF :: "(string \<times> json) list \<Rightarrow> string \<Rightarrow> int option" where
  "intF o1 k = Option.bind (jfield o1 k) jsonInt"

definition boolF :: "(string \<times> json) list \<Rightarrow> string \<Rightarrow> bool option" where
  "boolF o1 k = (case jfield o1 k of Some (JBool b) \<Rightarrow> Some b | _ \<Rightarrow> None)"

definition objF :: "(string \<times> json) list \<Rightarrow> string \<Rightarrow> (string \<times> json) list option" where
  "objF o1 k = (case jfield o1 k of Some (JObj kvs) \<Rightarrow> Some kvs | _ \<Rightarrow> None)"

definition strOf :: "json \<Rightarrow> string option" where
  "strOf v = (case v of JStr s \<Rightarrow> Some s | _ \<Rightarrow> None)"

definition strmapOf :: "(string \<times> json) list \<Rightarrow> strmap option" where
  "strmapOf kvs = those (map (\<lambda>(k, v). map_option (Pair k) (strOf v)) kvs)"

definition limitOf :: "json \<Rightarrow> assetLimit option option" where
  "limitOf v = (case v of JNull \<Rightarrow> Some None
     | JObj l \<Rightarrow> (case (strF l ''perPayout'', strF l ''perDay'') of (Some a, Some b) \<Rightarrow> Some (Some \<lparr>perPayout = a, perDay = b\<rparr>) | _ \<Rightarrow> None)
     | _ \<Rightarrow> None)"

definition capOf :: "json \<Rightarrow> cap option" where
  "capOf v = (case v of JNum r \<Rightarrow> Some (CapNum r) | JStr s \<Rightarrow> Some (CapText s) | _ \<Rightarrow> None)"

definition prevF :: "(string \<times> json) list \<Rightarrow> string option option" where
  "prevF o1 = (case jfield o1 ''prev'' of Some (JStr s) \<Rightarrow> Some (Some s) | Some JNull \<Rightarrow> Some None | _ \<Rightarrow> None)"

definition strsOf :: "json \<Rightarrow> string list option" where
  "strsOf v = (case v of JArr xs \<Rightarrow> those (map strOf xs) | _ \<Rightarrow> None)"

definition ratF :: "(string \<times> json) list \<Rightarrow> string \<Rightarrow> rat option" where
  "ratF o1 k = (case jfield o1 k of Some (JNum r) \<Rightarrow> Some r | _ \<Rightarrow> None)"

text \<open>
  The cast \<open>as Policy\<close> of a JSON object with the shape of the type: numbers stay JSON numbers,
  the limits are sorted by asset.
\<close>

definition limitsF :: "(string \<times> json) list \<Rightarrow> (string \<times> assetLimit option) list option" where
  "limitsF o1 = Option.bind (objF o1 ''limits'') (\<lambda>ls. those (map (\<lambda>(k, v). map_option (Pair k) (limitOf v)) (sort_key fst ls)))"

definition capsF :: "(string \<times> json) list \<Rightarrow> feeCapsT option" where
  "capsF o1 = Option.bind (objF o1 ''feeCaps'') (\<lambda>fc.
     Option.bind (Option.bind (jfield fc ''btcSatPerVb'') capOf) (\<lambda>b.
     Option.bind (Option.bind (jfield fc ''ethMaxFeeGwei'') capOf) (\<lambda>e.
     Some \<lparr>btcSatPerVb = b, ethMaxFeeGwei = e\<rparr>)))"

definition policyOf :: "(string \<times> json) list \<Rightarrow> rat policy option" where
  "policyOf o1 =
     Option.bind (ratF o1 ''version'') (\<lambda>ve.
     Option.bind (prevF o1) (\<lambda>pv.
     Option.bind (strF o1 ''mode'') (\<lambda>mo.
     Option.bind (ratF o1 ''soloMinKeys'') (\<lambda>mk.
     Option.bind (ratF o1 ''soloDelaySec'') (\<lambda>dl.
     Option.bind (ratF o1 ''whitelistCooldownSec'') (\<lambda>cd.
     Option.bind (ratF o1 ''approvalWindowSec'') (\<lambda>aw.
     Option.bind (limitsF o1) (\<lambda>li.
     Option.bind (capsF o1) (\<lambda>fc.
     Option.bind (Option.bind (jfield o1 ''networks'') strsOf) (\<lambda>ns.
     Option.bind (boolF o1 ''liveFunds'') (\<lambda>lf.
     Some \<lparr>version = ve, prev = pv, mode = mo, soloMinKeys = mk, soloDelaySec = dl, whitelistCooldownSec = cd,
       approvalWindowSec = aw, limits = li, feeCaps = fc, networks = ns, liveFunds = lf\<rparr>)))))))))))"

text \<open>A policy of the journal has integers only.\<close>

definition policyIntOf :: "(string \<times> json) list \<Rightarrow> int policy option" where
  "policyIntOf o1 = Option.bind (policyOf o1) (\<lambda>p. case policyInt p of Inl _ \<Rightarrow> None | Inr q \<Rightarrow> Some q)"

definition optStrF :: "(string \<times> json) list \<Rightarrow> string \<Rightarrow> string option option" where
  "optStrF o1 k = (case jfield o1 k of None \<Rightarrow> Some None | Some (JStr s) \<Rightarrow> Some (Some s) | _ \<Rightarrow> None)"

definition changeF :: "(string \<times> json) list \<Rightarrow> int option option option" where
  "changeF o1 = (case jfield o1 ''changeIndex'' of None \<Rightarrow> Some None | Some JNull \<Rightarrow> Some (Some None)
     | Some v \<Rightarrow> map_option (\<lambda>n. Some (Some n)) (jsonInt v))"

definition outpointsF :: "(string \<times> json) list \<Rightarrow> string list option option" where
  "outpointsF o1 = (case jfield o1 ''outpoints'' of None \<Rightarrow> Some None | Some v \<Rightarrow> map_option Some (strsOf v))"

definition initOf :: "(string \<times> json) list \<Rightarrow> initT option" where
  "initOf o1 =
     Option.bind (strF o1 ''orgId'') (\<lambda>a. Option.bind (strF o1 ''rpId'') (\<lambda>b. Option.bind (strF o1 ''origin'') (\<lambda>c.
     Option.bind (boolF o1 ''dev'') (\<lambda>d. Option.bind (Option.bind (objF o1 ''fingerprints'') strmapOf) (\<lambda>f.
     Option.bind (Option.bind (objF o1 ''policy'') policyIntOf) (\<lambda>p.
     Some \<lparr>inOrgId = a, inRpId = b, inOrigin = c, inDev = d, inFingerprints = f, inPolicy = p\<rparr>))))))"

definition signedOf :: "(string \<times> json) list \<Rightarrow> signedT option" where
  "signedOf o1 =
     Option.bind (strF o1 ''intentId'') (\<lambda>i. Option.bind (jfield o1 ''mode'') (\<lambda>m. Option.bind (strF o1 ''accountId'') (\<lambda>a.
     Option.bind (strF o1 ''network'') (\<lambda>n. Option.bind (strF o1 ''asset'') (\<lambda>c. Option.bind (strF o1 ''amount'') (\<lambda>am.
     Option.bind (strF o1 ''txid'') (\<lambda>t. Option.bind (strF o1 ''raw'') (\<lambda>r. Option.bind (strF o1 ''fee'') (\<lambda>f.
     Option.bind (outpointsF o1) (\<lambda>os. Option.bind (changeF o1) (\<lambda>ch. Option.bind (optStrF o1 ''nonce'') (\<lambda>no.
     Option.bind (optStrF o1 ''maxFeePerGas'') (\<lambda>mf. Option.bind (optStrF o1 ''maxPriorityFeePerGas'') (\<lambda>mp.
     Option.bind (optStrF o1 ''gasLimit'') (\<lambda>gl.
     Some \<lparr>sgIntentId = i, sgMode = m, sgAccountId = a, sgNetwork = n, sgAsset = c, sgAmount = am, sgTxid = t, sgRaw = r, sgFee = f,
       sgOutpoints = os, sgChangeIndex = ch, sgNonce = no, sgMaxFeePerGas = mf, sgMaxPriorityFeePerGas = mp, sgGasLimit = gl\<rparr>)))))))))))))))"

definition bodyOf :: "(string \<times> json) list \<Rightarrow> body option" where
  "bodyOf o1 =
     (case strF o1 ''type'' of None \<Rightarrow> None
      | Some t \<Rightarrow>
          if t = ''init'' then map_option EInit (initOf o1)
          else if t = ''network_added'' then
            Option.bind (strF o1 ''network'') (\<lambda>n. map_option (ENetworkAdded n) (strF o1 ''fingerprint''))
          else if t = ''account'' then
            Option.bind (strF o1 ''accountId'') (\<lambda>a. Option.bind (strF o1 ''network'') (\<lambda>n.
              Option.bind (intF o1 ''index'') (\<lambda>i. map_option (EAccount a n i) (strF o1 ''xpub''))))
          else if t = ''enrol_start'' then
            Option.bind (strF o1 ''enrolId'') (\<lambda>a. Option.bind (strF o1 ''person'') (\<lambda>p.
              Option.bind (strF o1 ''secret'') (\<lambda>c. map_option (EEnrolStart a p c) (intF o1 ''expiresAt''))))
          else if t = ''key'' then
            Option.bind (strF o1 ''enrolId'') (\<lambda>a. Option.bind (strF o1 ''person'') (\<lambda>p. Option.bind (strF o1 ''credId'') (\<lambda>c.
              Option.bind (strF o1 ''spki'') (\<lambda>sp. Option.bind (strF o1 ''aaguid'') (\<lambda>g. map_option (EKey a p c sp g) (intF o1 ''counter''))))))
          else if t = ''key_revoked'' then map_option EKeyRevoked (strF o1 ''credId'')
          else if t = ''policy'' then
            Option.bind (Option.bind (objF o1 ''policy'') policyIntOf) (\<lambda>p. map_option (EPolicy p) (strF o1 ''by''))
          else if t = ''intent'' then
            Option.bind (strF o1 ''intentId'') (\<lambda>i. Option.bind (strF o1 ''text'') (\<lambda>x. map_option (EIntent i x) (optStrF o1 ''mandateId'')))
          else if t = ''approval'' then
            Option.bind (strF o1 ''intentId'') (\<lambda>i. Option.bind (strF o1 ''credId'') (\<lambda>c.
              Option.bind (strF o1 ''person'') (\<lambda>p. map_option (EApproval i c p) (intF o1 ''counter''))))
          else if t = ''cancel'' then Option.bind (strF o1 ''intentId'') (\<lambda>i. map_option (ECancel i) (strF o1 ''by''))
          else if t = ''veto'' then map_option EVeto (strF o1 ''intentId'')
          else if t = ''freeze'' then Option.bind (strF o1 ''reason'') (\<lambda>i. map_option (EFreeze i) (strF o1 ''by''))
          else if t = ''unfreeze'' then Some EUnfreeze
          else if t = ''signed'' then map_option ESigned (signedOf o1)
          else if t = ''rekey'' then map_option ERekey (Option.bind (objF o1 ''fingerprints'') strmapOf)
          else if t = ''mandate'' then Option.bind (strF o1 ''mandateId'') (\<lambda>i. map_option (EMandate i) (strF o1 ''text''))
          else if t = ''mandate_approval'' then
            Option.bind (strF o1 ''mandateId'') (\<lambda>i. Option.bind (strF o1 ''credId'') (\<lambda>c.
              Option.bind (strF o1 ''person'') (\<lambda>p. map_option (EMandateApproval i c p) (intF o1 ''counter''))))
          else if t = ''mandate_revoked'' then Option.bind (strF o1 ''mandateId'') (\<lambda>i. map_option (EMandateRevoked i) (strF o1 ''by''))
          else None)"

definition eventOf :: "json \<Rightarrow> event option" where
  "eventOf v =
     (case v of JObj o1 \<Rightarrow>
        Option.bind (intF o1 ''seq'') (\<lambda>sq. Option.bind (intF o1 ''at'') (\<lambda>t.
          map_option (\<lambda>b. \<lparr>evSeq = sq, evAt = t, evBody = b\<rparr>) (bodyOf o1)))
      | _ \<Rightarrow> None)"

section \<open>The journal\<close>

definition chainHash :: "lib \<Rightarrow> string \<Rightarrow> string \<Rightarrow> string" where
  "chainHash L prv body = hexEncode (sha256 L (utf8 (prv @ body)))"

record journalEntry =
  jeSeq :: int
  jeHead :: string
  jeEvent :: json

record parsedJournal =
  pjEntries :: "journalEntry list"
  pjHead :: string
  pjSeq :: int
  pjTornBytes :: nat

definition parseLine :: "lib \<Rightarrow> string \<Rightarrow> int \<Rightarrow> string \<Rightarrow> journalEntry res" where
  "parseLine L head n line =
     (if int (utf16Length line) > MAX_LINE then Inl (JournalError ''size'' n)
      else if \<not> (CHR 0x09 \<in> set line \<and> length (takeWhile (\<lambda>c. c \<noteq> CHR 0x09) line) = 64) then Inl (JournalError ''format'' n)
      else let hash = take 64 line; body = drop 65 line in
      if chainHash L head body \<noteq> hash then Inl (JournalError ''hash'' n)
      else case jsonParse body of None \<Rightarrow> Inl (JournalError ''format'' n)
      | Some ev \<Rightarrow>
          andThen (canonicalJson ev) (\<lambda>c.
            if c \<noteq> body then Inl (JournalError ''format'' n)
            else case ev of JNull \<Rightarrow> Inl TypeErr
            | _ \<Rightarrow>
                if (case ev of JObj kvs \<Rightarrow> jfield kvs ''seq'' | _ \<Rightarrow> None) \<noteq> Some (JInt n) then Inl (JournalError ''sequence'' n)
                else Inr \<lparr>jeSeq = n, jeHead = hash, jeEvent = ev\<rparr>))"

fun parseLines :: "lib \<Rightarrow> string \<Rightarrow> int \<Rightarrow> string list \<Rightarrow> journalEntry list res" where
  "parseLines L head n [] = Inr []"
| "parseLines L head n (l # ls) =
     andThen (parseLine L head n l) (\<lambda>e. andThen (parseLines L (jeHead e) (n + 1) ls) (\<lambda>es. Inr (e # es)))"

text \<open>\<open>complete\<close> is everything up to the last line feed, the rest is a torn line.\<close>

definition parseJournal :: "lib \<Rightarrow> string \<Rightarrow> parsedJournal res" where
  "parseJournal L text =
     (let parts = split_on (CHR 0x0A) text; lines = butlast parts in
      andThen (parseLines L GENESIS 1 lines) (\<lambda>es.
        Inr \<lparr>pjEntries = es, pjHead = (if es = [] then GENESIS else jeHead (last es)), pjSeq = int (length es),
             pjTornBytes = length (last parts)\<rparr>))"

record journal =
  jFile :: string
  jHead :: string
  jSeq :: int

definition journalOpen :: "lib \<Rightarrow> string \<Rightarrow> (journal \<times> journalEntry list) res" where
  "journalOpen L text =
     andThen (parseJournal L text) (\<lambda>p.
       Inr (\<lparr>jFile = take (length text - pjTornBytes p) text, jHead = pjHead p, jSeq = pjSeq p\<rparr>, pjEntries p))"

definition journalAppend :: "lib \<Rightarrow> journal \<Rightarrow> int \<Rightarrow> body \<Rightarrow> (journal \<times> event) res" where
  "journalAppend L j tm b =
     (let ev = \<lparr>evSeq = jSeq j + 1, evAt = tm, evBody = b\<rparr> in
      andThen (canonicalJson (eventJson ev)) (\<lambda>text.
        if int (utf16Length text) > MAX_LINE then Inl (JournalError ''size'' (jSeq j + 1))
        else let hash = chainHash L (jHead j) text in
          Inr (\<lparr>jFile = jFile j @ hash @ CHR 0x09 # text @ [CHR 0x0A], jHead = hash, jSeq = jSeq j + 1\<rparr>, ev)))"

end
