(* ===== verification/Validate.thy ===== *)
theory Validate
  imports Networks Json
begin

text \<open>
  \<open>signer/validate.ts\<close>: the checks on command arguments. A field of the arguments is
  \<open>json option\<close> (\<open>undefined\<close> when absent); a violation throws \<open>SignerError bad_request\<close> with the name
  of the field.
\<close>

definition bad :: "string \<Rightarrow> 'a res" where
  "bad field = Inl (SignerError ''bad_request'' (Some field))"

definition obj :: "json option \<Rightarrow> string \<Rightarrow> (string \<times> json) list res" where
  "obj v field = (case v of Some (JObj kvs) \<Rightarrow> Inr kvs | _ \<Rightarrow> bad field)"

text \<open>A string that satisfies a condition: the shape of most checks below.\<close>

definition strIf :: "(string \<Rightarrow> bool) \<Rightarrow> json option \<Rightarrow> string \<Rightarrow> string res" where
  "strIf ok v field = (case v of Some (JStr s) \<Rightarrow> if ok s then Inr s else bad field | _ \<Rightarrow> bad field)"

definition uuid :: "json option \<Rightarrow> string \<Rightarrow> string res" where
  "uuid = strIf re_uuid"

definition hex128 :: "json option \<Rightarrow> string \<Rightarrow> string res" where
  "hex128 = strIf (re_hexn 32)"

definition txid :: "json option \<Rightarrow> string \<Rightarrow> string res" where
  "txid = strIf (re_hexn 64)"

definition hexData :: "json option \<Rightarrow> string \<Rightarrow> string res" where
  "hexData = strIf (\<lambda>s. length s \<le> 400000 \<and> length s mod 2 = 0 \<and> s \<noteq> [] \<and> list_all is_lhex s)"

definition b64uStr :: "json option \<Rightarrow> string \<Rightarrow> nat \<Rightarrow> string res" where
  "b64uStr v field mx = strIf (\<lambda>s. length s \<le> mx \<and> s \<noteq> [] \<and> list_all is_b64u s) v field"

definition uintArg :: "json option \<Rightarrow> string \<Rightarrow> int res" where
  "uintArg v field = andThen (strIf re_uint v field) (\<lambda>s. Inr (bigInt s))"

definition posUint :: "json option \<Rightarrow> string \<Rightarrow> int res" where
  "posUint v field = andThen (uintArg v field) (\<lambda>n. if n > 0 then Inr n else bad field)"

definition intArg :: "json option \<Rightarrow> string \<Rightarrow> int \<Rightarrow> int \<Rightarrow> int res" where
  "intArg v field mn mx =
     (case v of Some (JNum r) \<Rightarrow> if isInteger r \<and> r \<ge> of_int mn \<and> r \<le> of_int mx then Inr \<lfloor>r\<rfloor> else bad field
      | _ \<Rightarrow> bad field)"

definition networkArg :: "json option \<Rightarrow> string res" where
  "networkArg v = strIf isWalletNetwork v ''network''"

definition assetArg :: "string \<Rightarrow> json option \<Rightarrow> string res" where
  "assetArg net v =
     (case v of Some (JStr s) \<Rightarrow>
        (case ASSETS net of None \<Rightarrow> Inl TypeErr
         | Some as \<Rightarrow> if \<exists>a\<in>set as. code a = s then Inr s else bad ''asset'')
      | _ \<Rightarrow> bad ''asset'')"

definition shortText :: "lib \<Rightarrow> nat \<Rightarrow> json option \<Rightarrow> string \<Rightarrow> string res" where
  "shortText L mx = strIf (\<lambda>s. utf16Length s > 0 \<and> utf16Length s \<le> mx \<and> unicodeText L s)"

definition is_label :: "string \<Rightarrow> bool" where
  "is_label s \<longleftrightarrow> s \<noteq> [] \<and> length s \<le> 63 \<and> list_all (\<lambda>c. is_lower c \<or> is_digit c \<or> c = CHR ''-'') s \<and>
     hd s \<noteq> CHR ''-'' \<and> last s \<noteq> CHR ''-''"

definition rpIdOf :: "json option \<Rightarrow> string res" where
  "rpIdOf v = strIf (\<lambda>s. s = ''localhost'' \<or>
     (let ls = split_on (CHR ''.'') s in length ls \<ge> 2 \<and> list_all is_label ls)) v ''rpId''"

definition is_originHost :: "char \<Rightarrow> bool" where
  "is_originHost c \<longleftrightarrow> is_lower c \<or> is_digit c \<or> c = CHR ''.'' \<or> c = CHR ''-''"

definition originOf :: "json option \<Rightarrow> string res" where
  "originOf v = strIf (\<lambda>s.
     (startsWith s ''https://'' \<and> drop 8 s \<noteq> [] \<and> list_all is_originHost (drop 8 s)) \<or>
     s = ''http://localhost'' \<or>
     (startsWith s ''http://localhost:'' \<and> digits (drop 17 s) \<and> length (drop 17 s) \<le> 5)) v ''origin''"

section \<open>Lemmas\<close>

lemma strIf_eq_Inr [exn_simps]: "strIf ok v field = Inr s \<longleftrightarrow> v = Some (JStr s) \<and> ok s"
  by (auto simp: strIf_def bad_def split: option.splits json.splits)

lemma obj_eq_Inr [exn_simps]: "obj v field = Inr kvs \<longleftrightarrow> v = Some (JObj kvs)"
  by (auto simp: obj_def bad_def split: option.splits json.splits)

lemma posUint_pos: "posUint v field = Inr n \<Longrightarrow> 0 < n"
  by (auto simp: posUint_def exn_simps bad_def split: if_splits)

lemma uintArg_nonneg: "uintArg v field = Inr n \<Longrightarrow> 0 \<le> n"
  by (auto simp: uintArg_def exn_simps)

lemma intArg_bounds: "intArg v field mn mx = Inr n \<Longrightarrow> mn \<le> n \<and> n \<le> mx"
  by (auto simp: intArg_def bad_def isInteger_def le_floor_iff floor_le_iff split: option.splits json.splits if_splits)

end
