(* ===== verification/Hashing.thy ===== *)
theory Hashing
  imports WebAuthn "HOL-Library.Multiset"
begin

text \<open>
  What the hash chains and trees of the repository share: digests of 32 bytes, their text in
  hexadecimal, which is injective and read back by \<open>Buffer.from(s, "hex")\<close>, and the bytes of a text.
\<close>

text \<open>SHA-256 has 32 bytes.\<close>

definition shaLib :: "lib \<Rightarrow> bool" where
  "shaLib L \<longleftrightarrow> (\<forall>b. length (sha256 L b) = 32)"

lemma demoLib_sha: "shaLib demoLib"
  by (simp add: shaLib_def demoLib_def demoHash_def)

lemma hexEncode_length: "length (hexEncode bs) = 2 * length bs"
  by (induction bs) (simp_all add: hexEncode_def)

lemma hexEncode_chars: "c \<in> set (hexEncode bs) \<Longrightarrow> \<exists>n < 16. c = nibble_char n"
proof -
  have d: "unat w div 16 < 16" for w :: "8 word" using unat_256 [of w] by (simp add: less_mult_imp_div_less)
  assume "c \<in> set (hexEncode bs)"
  then obtain w :: "8 word" where "c = nibble_char (unat w div 16) \<or> c = nibble_char (unat w mod 16)"
    unfolding hexEncode_def by simp blast
  then show ?thesis using d [of w] mod_less_divisor [of 16 "unat w"] by (metis zero_less_numeral)
qed

lemma hexEncode_inj: "hexEncode a = hexEncode b \<Longrightarrow> a = b"
proof (induction a arbitrary: b)
  case Nil
  then show ?case using hexEncode_length [of b] by (simp add: hexEncode_def)
next
  case (Cons x a)
  then obtain y b' where b: "b = y # b'" using hexEncode_length [of b] by (cases b) (auto simp: hexEncode_def)
  have nib: "m < 16 \<Longrightarrow> n < 16 \<Longrightarrow> nibble_char m = nibble_char n \<Longrightarrow> m = n" for m n
    using arg_cong [of "nibble_char m" "nibble_char n" cval] by (simp add: nibble_char_def cval_char_of split: if_splits)
  have "unat x div 16 < 16" "unat y div 16 < 16" using unat_256 by (simp_all add: less_mult_imp_div_less)
  moreover have "nibble_char (unat x div 16) = nibble_char (unat y div 16)" "nibble_char (unat x mod 16) = nibble_char (unat y mod 16)"
    using Cons.prems b by (simp_all add: hexEncode_def)
  ultimately have "unat x div 16 = unat y div 16" "unat x mod 16 = unat y mod 16" using nib by simp_all
  then have "unat x = unat y" by (metis div_mult_mod_eq)
  then have "x = y" by (simp add: word_unat_eq_iff)
  then show ?case using Cons b by (simp add: hexEncode_def)
qed

lemma cval_less: "cval c < 256"
  by (simp add: cval_def)

lemma utf8_inj: "utf8 a = utf8 b \<Longrightarrow> a = b"
proof -
  have "inj (of_char :: char \<Rightarrow> 8 word)"
  proof (rule injI)
    fix x y :: char
    assume "(of_char x :: 8 word) = of_char y"
    then have "unat (word_of_nat (cval x) :: 8 word) = unat (word_of_nat (cval y) :: 8 word)"
      by (simp only: cval_def of_nat_of_char)
    then have "cval x = cval y" using cval_less [of x] cval_less [of y] by (simp add: unat_of_nat)
    then show "x = y" by (simp add: cval_def)
  qed
  then show "utf8 a = utf8 b \<Longrightarrow> a = b" by (simp add: utf8_def inj_map_eq_map)
qed


lemma nibble_val_nibble: "n < 16 \<Longrightarrow> nibble_val (nibble_char n) = Some n"
  by (simp add: nibble_val_def nibble_char_def is_digit_def cval_char_of)

lemma hexDecode_hexEncode [simp]: "hexDecode (hexEncode bs) = bs"
proof (induction bs)
  case Nil
  then show ?case by (simp add: hexEncode_def)
next
  case (Cons b bs)
  have "unat b div 16 < 16" using unat_256 [of b] by (simp add: less_mult_imp_div_less)
  moreover have "word_of_nat (16 * (unat b div 16) + unat b mod 16) = b" by simp
  ultimately show ?case using Cons by (simp add: hexEncode_def nibble_val_nibble)
qed

text \<open>Two different inputs of the hash with the same digest, one from each list.\<close>

definition clash :: "lib \<Rightarrow> bytes list \<Rightarrow> bytes list \<Rightarrow> bool" where
  "clash L xs ys \<longleftrightarrow> (\<exists>a\<in>set xs. \<exists>b\<in>set ys. a \<noteq> b \<and> sha256 L a = sha256 L b)"

lemma clashI: "a \<in> set xs \<Longrightarrow> b \<in> set ys \<Longrightarrow> a \<noteq> b \<Longrightarrow> sha256 L a = sha256 L b \<Longrightarrow> clash L xs ys"
  unfolding clash_def by blast

lemma clash_mono: "clash L xs ys \<Longrightarrow> set xs \<subseteq> set us \<Longrightarrow> set ys \<subseteq> set vs \<Longrightarrow> clash L us vs"
  unfolding clash_def by blast

lemma nibble_no_nl: "n < 16 \<Longrightarrow> nibble_char n \<noteq> CHR 0x0A \<and> nibble_char n \<noteq> CHR 0x09"
proof -
  assume n: "n < 16"
  have "cval (nibble_char n) \<ge> 48" using n by (auto simp: nibble_char_def cval_def)
  moreover have "cval (CHR 0x0A) = 10" "cval (CHR 0x09) = 9" by (simp_all add: cval_def)
  ultimately show ?thesis by auto
qed

text \<open>The same for the inputs at the same place of two chains.\<close>

definition clashAt :: "lib \<Rightarrow> bytes list \<Rightarrow> bytes list \<Rightarrow> bool" where
  "clashAt L xs ys \<longleftrightarrow> (\<exists>(a, b)\<in>set (zip xs ys). a \<noteq> b \<and> sha256 L a = sha256 L b)"

lemma clashAt_snoc:
  "length xs = length ys \<Longrightarrow> clashAt L (xs @ [a]) (ys @ [b]) \<longleftrightarrow> clashAt L xs ys \<or> (a \<noteq> b \<and> sha256 L a = sha256 L b)"
  by (auto simp: clashAt_def)

text \<open>Sorting by distinct keys forgets the order.\<close>

lemma sort_key_mset:
  assumes "mset xs = mset ys" "distinct (map f xs)"
  shows "sort_key f xs = sort_key f ys"
proof -
  have one: "k \<in> set us \<Longrightarrow> distinct (map f us) \<Longrightarrow> filter (\<lambda>x. f k = f x) us = [k]" for k us
    by (induction us) (auto simp: filter_empty_conv rev_image_eqI)
  have d: "distinct (map f (sort_key f ys))" using assms by (metis mset_map mset_sort mset_eq_imp_distinct_iff)
  show ?thesis
  proof (rule properties_for_sort_key)
    fix k
    assume "k \<in> set (sort_key f ys)"
    moreover from this have "k \<in> set xs" using mset_eq_setD [OF assms(1)] by simp
    ultimately show "filter (\<lambda>x. f k = f x) (sort_key f ys) = filter (\<lambda>x. f k = f x) xs"
      using one d assms(2) by simp
  qed (use assms(1) in simp_all)
qed

end
