(* ===== verification/Journal_Chain.thy ===== *)
theory Journal_Chain
  imports Journal Hashing
begin

text \<open>
  The journal reads back what was written to it: the text of an event contains no line feed, so an
  appended line is one more line of the file, whose hash, canonical form and number pass the
  checks of \<open>parseJournal\<close>; a torn last line is cut off; and a changed body breaks the chain or
  exhibits a collision of the hash.
\<close>

section \<open>Canonical text has no line feed\<close>

lemma escapeChar_no_nl: "CHR 0x0A \<notin> set (escapeChar c)"
proof -
  have "CHR 0x0A \<notin> set (hex4 n)" for n
    using nibble_no_nl [of "n div 4096 mod 16"] nibble_no_nl [of "n div 256 mod 16"] nibble_no_nl [of "n div 16 mod 16"]
      nibble_no_nl [of "n mod 16"] by (simp add: hex4_def eq_commute)
  then show ?thesis by (auto simp: escapeChar_def)
qed

lemma jsonString_no_nl: "CHR 0x0A \<notin> set (jsonString s)"
  using escapeChar_no_nl by (auto simp: jsonString_def)

lemma show_int_no_nl: "CHR 0x0A \<notin> set (show_int n)"
proof -
  have "\<not> is_digit (CHR 0x0A)" by (simp add: is_digit_def cval_def)
  then show ?thesis using digits_no_char [OF show_nat_digits] by (auto simp: show_int_def)
qed

lemma join_no_char: "c \<noteq> d \<Longrightarrow> \<forall>t\<in>set ts. d \<notin> set t \<Longrightarrow> d \<notin> set (join c ts)"
  using set_join [of c ts] by blast

lemma canonical_no_nl:
  "canonicalJson j = Inr t \<Longrightarrow> CHR 0x0A \<notin> set t"
  "canonArr js = Inr ts \<Longrightarrow> \<forall>t\<in>set ts. CHR 0x0A \<notin> set t"
  "canonObj kvs = Inr ps \<Longrightarrow> \<forall>p\<in>set ps. CHR 0x0A \<notin> set (snd p)"
proof (induction j and js and kvs arbitrary: t and ts and ps rule: canonicalJson_canonArr_canonObj.induct)
  case (5 xs)
  then obtain ts where "canonArr xs = Inr ts" "t = CHR ''['' # join (CHR '','') ts @ [CHR '']'']" by (auto simp: exn_simps)
  with 5 join_no_char [of "CHR '',''" "CHR 0x0A" ts] show ?case by simp
next
  case (6 kvs)
  then obtain ps where p: "canonObj kvs = Inr ps" "t = CHR ''{'' # join (CHR '','') (map (\<lambda>(k, t). jsonString k @ CHR '':'' # t) (sort_key fst ps)) @ [CHR ''}'']"
    by (auto simp: exn_simps)
  have "\<forall>t\<in>set (map (\<lambda>(k, t). jsonString k @ CHR '':'' # t) (sort_key fst ps)). CHR 0x0A \<notin> set t"
    using 6 p(1) jsonString_no_nl by fastforce
  with p(2) join_no_char [of "CHR '',''" "CHR 0x0A"] show ?case by simp
next
  case (10 k x kvs)
  then show ?case by (fastforce simp: exn_simps)
qed (auto simp: exn_simps jsonString_no_nl show_int_no_nl split: if_splits)

section \<open>Lines\<close>

lemma split_on_append:
  "split_on c (a @ b) = butlast (split_on c a) @ (last (split_on c a) @ hd (split_on c b)) # tl (split_on c b)"
proof (induction a)
  case Nil
  then show ?case by (simp add: split_on_ne)
next
  case (Cons x a)
  obtain y ys where y: "split_on c a = y # ys" by (cases "split_on c a") auto
  show ?case
  proof (cases "x = c")
    case True
    with Cons show ?thesis by simp
  next
    case False
    with Cons y show ?thesis by (cases ys) auto
  qed
qed

lemma split_append_line:
  assumes "last (split_on c a) = []" "c \<notin> set l"
  shows "split_on c (a @ l @ [c]) = butlast (split_on c a) @ [l, []]"
  using assms split_on_append_sep [of c l "[]"] by (simp add: split_on_append)

lemma split_torn:
  assumes "last (split_on c a) = []" "c \<notin> set l"
  shows "split_on c (a @ l) = butlast (split_on c a) @ [l]"
  using assms by (simp add: split_on_append split_on_no_sep)

text \<open>The number after and the head after some lines.\<close>

definition headAfter :: "string \<Rightarrow> journalEntry list \<Rightarrow> string" where
  "headAfter h es = (if es = [] then h else jeHead (last es))"

lemma parseLines_length: "parseLines L h n ls = Inr es \<Longrightarrow> length es = length ls"
  by (induction L h n ls arbitrary: es rule: parseLines.induct) (auto simp: exn_simps)

lemma parseLines_append:
  "parseLines L h n (as @ bs) =
     andThen (parseLines L h n as) (\<lambda>es. andThen (parseLines L (headAfter h es) (n + int (length as)) bs) (\<lambda>fs. Inr (es @ fs)))"
proof (induction as arbitrary: h n)
  case Nil
  then show ?case by (cases "parseLines L h n bs") (simp_all add: headAfter_def)
next
  case (Cons a as)
  show ?case
  proof (cases "parseLine L h n a")
    case (Inl e)
    then show ?thesis by simp
  next
    case (Inr e)
    have ha: "headAfter (jeHead e) es = headAfter h (e # es)" for es by (simp add: headAfter_def)
    show ?thesis
      by (simp add: Inr Cons andThen_assoc ha algebra_simps)
  qed
qed

section \<open>An appended line is read back\<close>

lemma chainHash_length: "shaLib L \<Longrightarrow> length (chainHash L h b) = 64"
  by (simp add: chainHash_def hexEncode_length shaLib_def)

lemma chainHash_no_sep: "CHR 0x0A \<notin> set (chainHash L h b) \<and> CHR 0x09 \<notin> set (chainHash L h b)"
  unfolding chainHash_def using hexEncode_chars nibble_no_nl by metis

lemma utf16Length_append: "utf16Length (a @ b) = utf16Length a + utf16Length b"
  by (simp add: utf16Length_def)

lemma utf16Length_ascii: "\<forall>c\<in>set s. cval c < 128 \<Longrightarrow> utf16Length s = length s"
  by (induction s) (simp_all add: utf16Length_def)

lemma chainHash_ascii: "\<forall>c\<in>set (chainHash L h b). cval c < 128"
  using hexEncode_chars unfolding chainHash_def by (fastforce simp: nibble_char_def cval_char_of)

lemma utf16Length_hash: "utf16Length (chainHash L h b) \<le> length (chainHash L h b)"
  using utf16Length_ascii [OF chainHash_ascii] by simp

lemma parseLine_canonical:
  assumes "shaLib L" "canonicalJson (eventJson ev) = Inr tx" "jcanonical (eventJson ev)"
    "int (utf16Length tx) + 65 \<le> MAX_LINE" "evSeq ev = n"
  shows "parseLine L h n (chainHash L h tx @ CHR 0x09 # tx) =
    Inr \<lparr>jeSeq = n, jeHead = chainHash L h tx, jeEvent = eventJson ev\<rparr>"
proof -
  let ?h = "chainHash L h tx"
  have len: "length ?h = 64" by (rule chainHash_length [OF assms(1)])
  have "takeWhile (\<lambda>c. c \<noteq> CHR 0x09) (?h @ CHR 0x09 # tx) = ?h"
    using chainHash_no_sep [of L h tx] by (subst takeWhile_append2) auto
  moreover have "int (utf16Length (?h @ CHR 0x09 # tx)) \<le> MAX_LINE"
    using utf16Length_hash [of L h tx] len assms(4) by (simp add: utf16Length_append) (simp add: utf16Length_def cval_def)
  moreover have "jsonParse tx = Some (eventJson ev)" using assms(2,3) by (rule jsonParse_canonicalJson)
  moreover have "map_of (sort_key fst (eventFields ev)) ''seq'' = Some (JInt n)"
  proof -
    have "(''seq'', JInt n) \<in> set (sort_key fst (eventFields ev))" using assms(5) unfolding set_sort by (simp add: eventFields_def)
    moreover have "distinct (map fst (sort_key fst (eventFields ev)))" using assms(3) by (simp add: eventJson_def)
    ultimately show ?thesis by simp
  qed
  ultimately show ?thesis
    using len assms(2) by (simp add: parseLine_def Let_def eventJson_def jfield_def)
qed

text \<open>The journal in memory agrees with its file, which holds the events \<open>es\<close>.\<close>

definition journalHolds :: "lib \<Rightarrow> journal \<Rightarrow> event list \<Rightarrow> bool" where
  "journalHolds L j es \<longleftrightarrow> last (split_on (CHR 0x0A) (jFile j)) = [] \<and>
     (\<exists>ents. parseLines L GENESIS 1 (butlast (split_on (CHR 0x0A) (jFile j))) = Inr ents \<and>
        jHead j = headAfter GENESIS ents \<and> map jeEvent ents = map eventJson es \<and> length ents = length es) \<and>
     jSeq j = int (length es)"

definition emptyJournal :: journal where
  "emptyJournal = \<lparr>jFile = [], jHead = GENESIS, jSeq = 0\<rparr>"

lemma emptyJournal_holds: "journalHolds L emptyJournal []"
  by (simp add: journalHolds_def emptyJournal_def headAfter_def)

lemma journalAppend_ok:
  assumes "journalAppend L j tm b = Inr (j', ev)"
  obtains tx where "ev = \<lparr>evSeq = jSeq j + 1, evAt = tm, evBody = b\<rparr>" "canonicalJson (eventJson ev) = Inr tx"
    "int (utf16Length tx) \<le> MAX_LINE"
    "j' = \<lparr>jFile = jFile j @ chainHash L (jHead j) tx @ CHR 0x09 # tx @ [CHR 0x0A], jHead = chainHash L (jHead j) tx, jSeq = jSeq j + 1\<rparr>"
proof -
  from assms obtain tx where t: "canonicalJson (eventJson \<lparr>evSeq = jSeq j + 1, evAt = tm, evBody = b\<rparr>) = Inr tx"
    unfolding journalAppend_def Let_def andThen_eq_Inr by blast
  with assms show ?thesis
    by (intro that [of tx]) (simp_all add: journalAppend_def Let_def split: if_splits)
qed

lemma journalHolds_append:
  assumes "shaLib L" "journalHolds L j es" "journalAppend L j tm b = Inr (j', ev)" "jcanonical (eventJson ev)"
    "\<And>tx. canonicalJson (eventJson ev) = Inr tx \<Longrightarrow> int (utf16Length tx) + 65 \<le> MAX_LINE"
  shows "journalHolds L j' (es @ [ev])"
  using assms(3)
proof (rule journalAppend_ok)
  fix tx
  assume ev: "ev = \<lparr>evSeq = jSeq j + 1, evAt = tm, evBody = b\<rparr>" and t: "canonicalJson (eventJson ev) = Inr tx"
    and j': "j' = \<lparr>jFile = jFile j @ chainHash L (jHead j) tx @ CHR 0x09 # tx @ [CHR 0x0A],
      jHead = chainHash L (jHead j) tx, jSeq = jSeq j + 1\<rparr>"
  let ?line = "chainHash L (jHead j) tx @ CHR 0x09 # tx"
  from assms(2) obtain ents where e: "last (split_on (CHR 0x0A) (jFile j)) = []"
    "parseLines L GENESIS 1 (butlast (split_on (CHR 0x0A) (jFile j))) = Inr ents" "jHead j = headAfter GENESIS ents"
    "map jeEvent ents = map eventJson es" "length ents = length es" "jSeq j = int (length es)"
    unfolding journalHolds_def by blast
  have "CHR 0x0A \<notin> set ?line" using chainHash_no_sep [of L "jHead j" tx] canonical_no_nl(1) [OF t] by auto
  then have sp: "split_on (CHR 0x0A) (jFile j') = butlast (split_on (CHR 0x0A) (jFile j)) @ [?line, []]"
    using split_append_line [OF e(1), of ?line] by (simp add: j')
  have n: "int (length (butlast (split_on (CHR 0x0A) (jFile j)))) = jSeq j"
    using parseLines_length [OF e(2)] e(5,6) by simp
  have "parseLine L (jHead j) (jSeq j + 1) ?line = Inr \<lparr>jeSeq = jSeq j + 1, jeHead = chainHash L (jHead j) tx, jeEvent = eventJson ev\<rparr>"
    by (rule parseLine_canonical [OF assms(1) t assms(4) assms(5) [OF t]]) (simp add: ev)
  then have "parseLines L GENESIS 1 (butlast (split_on (CHR 0x0A) (jFile j'))) =
      Inr (ents @ [\<lparr>jeSeq = jSeq j + 1, jeHead = chainHash L (jHead j) tx, jeEvent = eventJson ev\<rparr>])"
    using e(2,3) n by (simp add: sp butlast_append parseLines_append algebra_simps)
  then show ?thesis
    using e(4,5,6) j' unfolding journalHolds_def sp by (simp add: headAfter_def ev)
qed

section \<open>Events survive their JSON\<close>

lemma distinct_sort_key: "distinct (map fst (sort_key fst kvs)) \<longleftrightarrow> distinct (map fst kvs)"
  by (simp add: distinct_map)

lemma map_of_sort_key: "distinct (map fst kvs) \<Longrightarrow> map_of (sort_key fst kvs) = map_of kvs"
  using distinct_sort_key [of kvs] by (simp add: map_of_inject_set)

lemma jsonInt_JInt [simp]: "jsonInt (JInt n) = Some n"
  by (simp add: jsonInt_def isInteger_def)

lemma those_map_Some: "those (map (\<lambda>x. Some (f x)) xs) = Some (map f xs)"
  by (induction xs) simp_all

lemma strsOf_strs [simp]: "strsOf (JArr (map JStr xs)) = Some xs"
  using those_map_Some [of id xs] by (simp add: strsOf_def strOf_def comp_def)

lemma capOf_capJson [simp]: "capOf (capJson c) = Some c"
  by (simp add: capOf_def capJson_def split: cap.split)

lemma strmapOf_strmap: "strmapOf (map (\<lambda>(k, v). (k, JStr v)) m) = Some m"
  using those_map_Some [of id m] by (simp add: strmapOf_def strOf_def comp_def case_prod_unfold)

lemma limitOf_limitJson: "map_option (Pair (fst e)) (limitOf (snd (limitJson e))) = Some e"
  by (cases e) (simp add: limitJson_def limitOf_def strF_def jfield_def split: option.split)

lemma sort_key_sorted: "sorted (map fst kvs) \<Longrightarrow> sort_key fst kvs = kvs"
  by (rule sort_key_id_if_sorted)

lemma limitsF_policy:
  assumes "sorted (map fst (limits p))" "jfield o1 ''limits'' = Some (JObj (map limitJson (limits p)))"
  shows "limitsF o1 = Some (limits p)"
proof -
  have "map fst (map limitJson (limits p)) = map fst (limits p)" by (simp add: limitJson_def)
  then have s: "sort_key fst (map limitJson (limits p)) = map limitJson (limits p)"
    using assms(1) by (intro sort_key_sorted) (simp only:)
  have "(\<lambda>(k, v). map_option (Pair k) (limitOf v)) (limitJson e) = Some e" for e
    using limitOf_limitJson [of e] by (simp add: case_prod_unfold limitJson_def)
  then have e: "map (\<lambda>(k, v). map_option (Pair k) (limitOf v)) (map limitJson (limits p)) = map (\<lambda>e. Some (id e)) (limits p)" by simp
  show ?thesis
    by (simp only: limitsF_def objF_def assms(2) s e those_map_Some option.case json.case bind.bind_lunit list.map_id)
qed

lemma policyOf_policyJson:
  assumes "jcanonical (policyJson p)" "policyJson p = JObj kvs"
  shows "policyIntOf kvs = Some p"
proof -
  have so: "sorted (map fst (limits p))" and nums: "list_all isSafeInteger (policyNumbers (policyRat p))"
    "capSafe (btcSatPerVb (feeCaps p))" "capSafe (ethMaxFeeGwei (feeCaps p))"
    using assms(1) by (simp_all add: policyJson_def policyNumbers_def policyRat_def capSafe_def capJson_def comp_def limitJson_def split: cap.splits)
  have l: "limitsF kvs = Some (limits p)"
    using assms(2) by (intro limitsF_policy so) (auto simp: policyJson_def jfield_def)
  have "policyOf kvs = Some (policyRat p)"
    using l assms(2) [symmetric] unfolding policyJson_def json.inject
    by (cases "prev p") (simp_all add: policyOf_def jfield_def ratF_def prevF_def strF_def boolF_def capsF_def objF_def policyRat_def)
  moreover have "policyInt (policyRat p) = Inr p"
    using nums by (simp add: policyInt_def) (simp add: policyRat_def)
  ultimately show ?thesis by (simp add: policyIntOf_def)
qed

text \<open>The fields of a body, read with any object that has the same fields.\<close>

lemmas field_defs = strF_def intF_def boolF_def objF_def optStrF_def changeF_def outpointsF_def

lemma bodyOf_cong: "map_of o1 = map_of o2 \<Longrightarrow> bodyOf o1 = bodyOf o2"
proof -
  assume "map_of o1 = map_of o2"
  then have j: "jfield o1 k = jfield o2 k" for k by (simp add: jfield_def)
  have f: "strF o1 = strF o2" "intF o1 = intF o2" "boolF o1 = boolF o2" "objF o1 = objF o2" "optStrF o1 = optStrF o2"
    "changeF o1 = changeF o2" "outpointsF o1 = outpointsF o2"
    by (simp_all add: fun_eq_iff field_defs j)
  show ?thesis unfolding bodyOf_def initOf_def signedOf_def f j ..
qed

lemma objF_strmap: "jfield o1 k = Some (strmapJson m) \<Longrightarrow> Option.bind (objF o1 k) strmapOf = Some m"
  by (simp add: objF_def strmapJson_def strmapOf_strmap)

lemma objF_policy:
  "jfield o1 k = Some (policyJson p) \<Longrightarrow> jcanonical (policyJson p) \<Longrightarrow> Option.bind (objF o1 k) policyIntOf = Some p"
  using policyOf_policyJson [of p] by (simp add: objF_def policyJson_def)

lemma changeF_json: "jfield o1 ''changeIndex'' = map_option optIntJson c \<Longrightarrow> changeF o1 = Some c"
  by (cases c) (auto simp: changeF_def optIntJson_def split: option.split)

lemma outpointsF_json: "jfield o1 ''outpoints'' = map_option (\<lambda>os. JArr (map JStr os)) v \<Longrightarrow> outpointsF o1 = Some v"
  by (cases v) (auto simp: outpointsF_def)

lemma optStrF_json: "jfield o1 k = map_option JStr v \<Longrightarrow> optStrF o1 k = Some v"
  by (cases v) (auto simp: optStrF_def)

lemma map_of_optField: "map_of (optField k f v @ kvs) x = (if x = k \<and> v \<noteq> None then map_option f v else map_of kvs x)"
  by (cases v) (auto simp: optField_def)

lemma signedOf_fields: "signedOf (a # b # signedFields g) = Some g"
  if "fst a = ''seq''" "fst b = ''at''"
proof -
  let ?o = "a # b # signedFields g"
  have f: "jfield ?o k = map_of (signedFields g) k" if "k \<noteq> ''seq''" "k \<noteq> ''at''" for k
    using that \<open>fst a = ''seq''\<close> \<open>fst b = ''at''\<close> by (cases a, cases b) (simp add: jfield_def)
  have o: "jfield ?o k = map_of (optField ''outpoints'' (\<lambda>os. JArr (map JStr os)) (sgOutpoints g) @ optField ''changeIndex'' optIntJson (sgChangeIndex g) @
     optField ''nonce'' JStr (sgNonce g) @ optField ''maxFeePerGas'' JStr (sgMaxFeePerGas g) @
     optField ''maxPriorityFeePerGas'' JStr (sgMaxPriorityFeePerGas g) @ optField ''gasLimit'' JStr (sgGasLimit g) @ []) k"
    if "k \<in> {''outpoints'', ''changeIndex'', ''nonce'', ''maxFeePerGas'', ''maxPriorityFeePerGas'', ''gasLimit''}" for k
    using that f [of k] by (auto simp: signedFields_def)
  have "outpointsF ?o = Some (sgOutpoints g)" "changeF ?o = Some (sgChangeIndex g)"
    by (rule outpointsF_json changeF_json, subst o, simp, simp only: map_of_optField, simp)+
  moreover have "optStrF ?o ''nonce'' = Some (sgNonce g)" "optStrF ?o ''maxFeePerGas'' = Some (sgMaxFeePerGas g)"
    "optStrF ?o ''maxPriorityFeePerGas'' = Some (sgMaxPriorityFeePerGas g)" "optStrF ?o ''gasLimit'' = Some (sgGasLimit g)"
    by (rule optStrF_json, subst o, simp, simp only: map_of_optField, simp)+
  ultimately show ?thesis
    by (simp add: signedOf_def strF_def f) (simp add: signedFields_def)
qed

lemma bodyOf_bodyFields:
  assumes "\<forall>f\<in>set (bodyFields b). jcanonical (snd f)"
  shows "bodyOf ((''seq'', u) # (''at'', v) # bodyFields b) = Some b"
proof (cases b)
  case (EInit i)
  let ?o = "(''seq'', u) # (''at'', v) # bodyFields b"
  have "jcanonical (policyJson (inPolicy i))" using assms EInit by (simp add: bodyFields_def)
  then have "Option.bind (objF ?o ''policy'') policyIntOf = Some (inPolicy i)"
    by (rule objF_policy [rotated]) (simp add: EInit bodyFields_def jfield_def)
  moreover have "Option.bind (objF ?o ''fingerprints'') strmapOf = Some (inFingerprints i)"
    by (rule objF_strmap) (simp add: EInit bodyFields_def jfield_def)
  ultimately have "initOf ?o = Some i"
    unfolding initOf_def by (simp add: EInit bodyFields_def jfield_def strF_def boolF_def)
  then show ?thesis by (simp add: bodyOf_def strF_def jfield_def) (simp add: EInit bodyFields_def)
next
  case (EPolicy p y)
  let ?o = "(''seq'', u) # (''at'', v) # bodyFields b"
  have "jcanonical (policyJson p)" using assms EPolicy by (simp add: bodyFields_def)
  then have "Option.bind (objF ?o ''policy'') policyIntOf = Some p"
    by (rule objF_policy [rotated]) (simp add: EPolicy bodyFields_def jfield_def)
  then show ?thesis by (simp add: bodyOf_def strF_def jfield_def) (simp add: EPolicy bodyFields_def strF_def jfield_def)
next
  case (ESigned g)
  then have "signedOf ((''seq'', u) # (''at'', v) # bodyFields b) = Some g"
    using signedOf_fields [of "(''seq'', u)" "(''at'', v)" g] by (simp add: bodyFields_def)
  then show ?thesis by (simp add: bodyOf_def strF_def jfield_def) (simp add: ESigned bodyFields_def signedFields_def)
next
  case (ERekey f)
  let ?o = "(''seq'', u) # (''at'', v) # bodyFields b"
  have "Option.bind (objF ?o ''fingerprints'') strmapOf = Some f"
    by (rule objF_strmap) (simp add: ERekey bodyFields_def jfield_def)
  then show ?thesis by (simp add: bodyOf_def strF_def jfield_def) (simp add: ERekey bodyFields_def)
next
  case (EIntent i t m)
  then show ?thesis
    by (cases m) (simp_all add: bodyOf_def bodyFields_def strF_def optStrF_def optField_def jfield_def)
qed (simp_all add: bodyOf_def bodyFields_def strF_def intF_def jfield_def)

lemma eventOf_eventJson:
  assumes "jcanonical (eventJson e)"
  shows "eventOf (eventJson e) = Some e"
proof -
  let ?f = "eventFields e" and ?s = "sort_key fst (eventFields e)"
  from assms have d: "distinct (map fst ?f)" and c: "\<forall>f\<in>set ?f. jcanonical (snd f)"
    by (auto simp: eventJson_def distinct_sort_key list_all_iff)
  have m: "map_of ?s = map_of ?f" by (rule map_of_sort_key [OF d])
  have "bodyOf ?f = Some (evBody e)"
    using c bodyOf_bodyFields [of "evBody e"] by (simp add: eventFields_def)
  then have "bodyOf ?s = Some (evBody e)" using bodyOf_cong [OF m] by simp
  then show ?thesis
    by (simp add: eventOf_def eventJson_def intF_def jfield_def m) (simp add: eventFields_def)
qed

section \<open>Reading the file\<close>

lemma butlast_split_append: "last (split_on c f) = [] \<Longrightarrow> c \<notin> set l \<Longrightarrow> butlast (split_on c (f @ l)) = butlast (split_on c f)"
  by (simp add: split_torn butlast_append)

lemma journalHolds_events:
  assumes "journalHolds L j es" "c = CHR 0x0A" "c \<notin> set torn"
  shows "\<exists>ents. parseJournal L (jFile j @ torn) = Inr \<lparr>pjEntries = ents, pjHead = jHead j, pjSeq = jSeq j, pjTornBytes = length torn\<rparr> \<and>
    map jeEvent ents = map eventJson es"
proof -
  from assms(1) obtain ents where e: "last (split_on c (jFile j)) = []"
    "parseLines L GENESIS 1 (butlast (split_on c (jFile j))) = Inr ents" "jHead j = headAfter GENESIS ents"
    "map jeEvent ents = map eventJson es" "length ents = length es" "jSeq j = int (length es)"
    unfolding journalHolds_def assms(2) by blast
  then show ?thesis
    using split_torn [OF e(1) assms(3)]
    by (intro exI [of _ ents]) (simp add: parseJournal_def Let_def butlast_split_append [OF e(1) assms(3)] assms(2) [symmetric] headAfter_def)
qed

lemma journalOpen_torn:
  assumes "journalHolds L j es" "CHR 0x0A \<notin> set torn"
  shows "\<exists>ents. journalOpen L (jFile j @ torn) = Inr (j, ents) \<and> map jeEvent ents = map eventJson es"
proof -
  from journalHolds_events [OF assms(1) refl assms(2)] obtain ents where
    e: "parseJournal L (jFile j @ torn) = Inr \<lparr>pjEntries = ents, pjHead = jHead j, pjSeq = jSeq j, pjTornBytes = length torn\<rparr>"
    "map jeEvent ents = map eventJson es" by blast
  then show ?thesis by (intro exI [of _ ents]) (cases j, simp add: journalOpen_def)
qed

lemma journalHolds_inj:
  assumes "map jeEvent ents = map eventJson es" "\<forall>e\<in>set es. jcanonical (eventJson e)"
  shows "those (map (eventOf \<circ> jeEvent) ents) = Some es"
proof -
  have "map (eventOf \<circ> jeEvent) ents = map eventOf (map jeEvent ents)" by simp
  also have "\<dots> = map eventOf (map eventJson es)" using assms(1) by simp
  also have "\<dots> = map (\<lambda>e. Some (id e)) es" using assms(2) eventOf_eventJson by simp
  finally show ?thesis by (simp only: those_map_Some list.map_id)
qed

section \<open>Tampering\<close>

text \<open>
  The texts that the chain hashes, line by line: the head before the line and the body of the line.
\<close>

fun hashInputs :: "string \<Rightarrow> string list \<Rightarrow> bytes list" where
  "hashInputs h [] = []"
| "hashInputs h (l # ls) = utf8 (h @ drop 65 l) # hashInputs (take 64 l) ls"

definition journalLines :: "string \<Rightarrow> string list" where
  "journalLines f = butlast (split_on (CHR 0x0A) f)"

lemma hashInputs_length [simp]: "length (hashInputs h ls) = length ls"
  by (induction ls arbitrary: h) simp_all

lemma hashInputs_snoc:
  "hashInputs h (ls @ [l]) = hashInputs h ls @ [utf8 ((if ls = [] then h else take 64 (last ls)) @ drop 65 l)]"
  by (induction ls arbitrary: h) simp_all

lemma parseLine_parts:
  assumes "parseLine L h n l = Inr e"
  shows "l = jeHead e @ CHR 0x09 # drop 65 l \<and> jeHead e = chainHash L h (drop 65 l) \<and> length (jeHead e) = 64"
proof -
  let ?t = "takeWhile (\<lambda>c. c \<noteq> CHR 0x09) l"
  from assms have t: "CHR 0x09 \<in> set l" "length ?t = 64" and h: "chainHash L h (drop 65 l) = take 64 l" and e: "jeHead e = take 64 l"
    by (auto simp: parseLine_def Let_def exn_simps split: if_splits option.splits json.splits)
  have "dropWhile (\<lambda>c. c \<noteq> CHR 0x09) l \<noteq> []" using t(1) by (auto simp: dropWhile_eq_Nil_conv)
  moreover have "length l = 64 + length (dropWhile (\<lambda>c. c \<noteq> CHR 0x09) l)"
    using t(2) takeWhile_dropWhile_id [of "\<lambda>c. c \<noteq> CHR 0x09" l] by (metis length_append)
  ultimately have lt: "64 < length l" by simp
  then have "l ! 64 = CHR 0x09" using t(2) nth_length_takeWhile [of "\<lambda>c. c \<noteq> CHR 0x09" l] by simp
  then have "l = take 64 l @ CHR 0x09 # drop 65 l" using lt id_take_nth_drop [OF lt] by simp
  with h e lt show ?thesis by simp
qed

lemma chainHash_digest: "chainHash L h a = chainHash L g b \<Longrightarrow> sha256 L (utf8 (h @ a)) = sha256 L (utf8 (g @ b))"
  by (auto simp: chainHash_def dest: hexEncode_inj)

lemma parseLines_heads: "parseLines L h n ls = Inr es \<Longrightarrow> \<forall>e\<in>set es. length (jeHead e) = 64"
  by (induction L h n ls arbitrary: es rule: parseLines.induct) (auto simp: exn_simps dest: parseLine_parts)

lemma parseLines_last:
  "parseLines L h n ls = Inr es \<Longrightarrow> ls \<noteq> [] \<Longrightarrow> take 64 (last ls) = headAfter h es"
proof (induction ls rule: rev_induct)
  case Nil
  then show ?case by simp
next
  case (snoc l ls)
  then obtain es' e where e: "parseLine L (headAfter h es') (n + int (length ls)) l = Inr e" "es = es' @ [e]"
    by (auto simp: parseLines_append exn_simps)
  have "take 64 l = jeHead e" using parseLine_parts [OF e(1)] by (metis append_eq_conv_conj)
  with e(2) show ?case by (simp add: headAfter_def)
qed

text \<open>Two chains of the same length with the same last hash have the same lines, or contain a collision.\<close>

lemma chain_determines_lines:
  assumes "length ls = length ms"
    "parseLines L GENESIS 1 ls = Inr es" "parseLines L GENESIS 1 ms = Inr fs" "headAfter GENESIS es = headAfter GENESIS fs"
  shows "ls = ms \<or> clashAt L (hashInputs GENESIS ls) (hashInputs GENESIS ms)"
  using assms
proof (induction ls arbitrary: ms es fs rule: rev_induct)
  case Nil
  then show ?case by simp
next
  case (snoc l ls)
  then obtain m ms' where m: "ms = ms' @ [m]" "length ls = length ms'" by (cases ms rule: rev_cases) auto
  from snoc.prems(2) obtain es' e where e: "parseLines L GENESIS 1 ls = Inr es'" "parseLine L (headAfter GENESIS es') (1 + int (length ls)) l = Inr e" "es = es' @ [e]"
    by (auto simp: parseLines_append exn_simps)
  from snoc.prems(3) obtain fs' f where f: "parseLines L GENESIS 1 ms' = Inr fs'" "parseLine L (headAfter GENESIS fs') (1 + int (length ms')) m = Inr f" "fs = fs' @ [f]"
    by (auto simp: parseLines_append exn_simps m)
  have hd: "jeHead e = jeHead f" using snoc.prems(4) e(3) f(3) by (simp add: headAfter_def)
  let ?g = "headAfter GENESIS es'" and ?h = "headAfter GENESIS fs'"
  have len: "length ?g = 64" "length ?h = 64"
    using parseLines_heads [OF e(1)] parseLines_heads [OF f(1)] by (auto simp: headAfter_def GENESIS_def)
  have ins: "hashInputs GENESIS (ls @ [l]) = hashInputs GENESIS ls @ [utf8 (?g @ drop 65 l)]"
    "hashInputs GENESIS ms = hashInputs GENESIS ms' @ [utf8 (?h @ drop 65 m)]"
    using parseLines_last [OF e(1)] parseLines_last [OF f(1)] e(1) f(1) by (auto simp: hashInputs_snoc m(1) headAfter_def)
  have "chainHash L ?g (drop 65 l) = chainHash L ?h (drop 65 m)" using parseLine_parts [OF e(2)] parseLine_parts [OF f(2)] hd by simp
  then have dig: "sha256 L (utf8 (?g @ drop 65 l)) = sha256 L (utf8 (?h @ drop 65 m))" by (rule chainHash_digest)
  show ?case
  proof (cases "utf8 (?g @ drop 65 l) = utf8 (?h @ drop 65 m)")
    case True
    then have "?g @ drop 65 l = ?h @ drop 65 m" by (rule utf8_inj)
    with len have eq: "?g = ?h" "drop 65 l = drop 65 m" by (simp_all add: append_eq_append_conv)
    have "l = m" using parseLine_parts [OF e(2)] parseLine_parts [OF f(2)] hd eq(2) by metis
    with snoc.IH [OF m(2) e(1) f(1) eq(1)] ins m show ?thesis by (auto simp: clashAt_snoc)
  next
    case False
    with dig ins m(2) show ?thesis by (simp add: clashAt_snoc)
  qed
qed

lemma concat_lines: "concat (map (\<lambda>l. l @ [c]) (butlast (split_on c f))) @ last (split_on c f) = f"
proof (induction f)
  case Nil
  then show ?case by simp
next
  case (Cons x f)
  obtain y ys where "split_on c f = y # ys" by (cases "split_on c f") auto
  with Cons show ?case by (cases ys) auto
qed

lemma journalOpen_lines:
  assumes "journalOpen L f = Inr (j, ents)"
  shows "parseLines L GENESIS 1 (butlast (split_on (CHR 0x0A) f)) = Inr ents" "jHead j = headAfter GENESIS ents" "jSeq j = int (length ents)"
    "jFile j = concat (map (\<lambda>l. l @ [CHR 0x0A]) (butlast (split_on (CHR 0x0A) f)))"
proof -
  let ?s = "split_on (CHR 0x0A) f"
  from assms obtain es where e: "parseLines L GENESIS 1 (butlast ?s) = Inr es" "ents = es"
    "jHead j = headAfter GENESIS es" "jSeq j = int (length es)" "jFile j = take (length f - length (last ?s)) f"
    by (auto simp: journalOpen_def parseJournal_def Let_def exn_simps headAfter_def)
  have "take (length f - length (last ?s)) f = concat (map (\<lambda>l. l @ [CHR 0x0A]) (butlast ?s))"
    using concat_lines [of "CHR 0x0A" f] by (metis add_diff_cancel_right' append_eq_conv_conj length_append)
  with e show "parseLines L GENESIS 1 (butlast ?s) = Inr ents" "jHead j = headAfter GENESIS ents" "jSeq j = int (length ents)"
    "jFile j = concat (map (\<lambda>l. l @ [CHR 0x0A]) (butlast ?s))" by simp_all
qed

section \<open>Properties\<close>

text \<open>The journal after a sequence of appends.\<close>

fun appendAll :: "lib \<Rightarrow> journal \<Rightarrow> (int \<times> body) list \<Rightarrow> (journal \<times> event list) res" where
  "appendAll L j [] = Inr (j, [])"
| "appendAll L j ((tm, b) # bs) =
     andThen (journalAppend L j tm b) (\<lambda>(j1, e). andThen (appendAll L j1 bs) (\<lambda>(j2, es). Inr (j2, e # es)))"

text \<open>Safe integers, dictionaries sorted by key, and room for hash and tab in the line.\<close>

definition storable :: "event \<Rightarrow> bool" where
  "storable e \<longleftrightarrow> jcanonical (eventJson e) \<and>
     (case canonicalJson (eventJson e) of Inl _ \<Rightarrow> False | Inr t \<Rightarrow> int (utf16Length t) + 65 \<le> MAX_LINE)"

lemma journalHolds_append_storable:
  assumes "shaLib L" "journalHolds L j es" "journalAppend L j tm b = Inr (j', ev)" "storable ev"
  shows "journalHolds L j' (es @ [ev])"
  by (rule journalHolds_append [OF assms(1-3)]) (use assms(4) in \<open>auto simp: storable_def\<close>)

lemma appendAll_holds:
  assumes "shaLib L" "appendAll L j bs = Inr (j', es)" "journalHolds L j ds" "\<forall>e\<in>set es. storable e"
  shows "journalHolds L j' (ds @ es) \<and> map evBody es = map snd bs \<and> map evAt es = map fst bs"
  using assms(2-)
proof (induction bs arbitrary: j es ds)
  case Nil
  then show ?case by simp
next
  case (Cons x bs)
  obtain tm b where x: "x = (tm, b)" by (cases x)
  from Cons.prems(1) obtain j1 e fs where a: "journalAppend L j tm b = Inr (j1, e)" "appendAll L j1 bs = Inr (j', fs)" "es = e # fs"
    by (auto simp: exn_simps x)
  have "journalHolds L j1 (ds @ [e])"
    using journalHolds_append_storable [OF assms(1) Cons.prems(2) a(1)] Cons.prems(3) a(3) by simp
  then have "journalHolds L j' ((ds @ [e]) @ fs) \<and> map evBody fs = map snd bs \<and> map evAt fs = map fst bs"
    using Cons.prems(3) a(3) by (intro Cons.IH [OF a(2)]) simp_all
  moreover have "evBody e = b" "evAt e = tm" using a(1) by (auto elim: journalAppend_ok)
  ultimately show ?case by (simp add: a(3) x)
qed

text \<open>
  After any sequence of appends the file, even with a torn last line behind it, opens to the
  journal in memory, with the torn bytes cut off, and the entries are the events with the bodies
  and times that were appended. (\<open>storable\<close>: integers are safe, dictionaries sorted, the line has
  room for the hash; the second bound is missing in the code, see \<open>oversize_line_locks_journal\<close>.)
\<close>

theorem journal_reads_back:
  assumes "shaLib L" "appendAll L emptyJournal bs = Inr (j, es)" "\<forall>e\<in>set es. storable e" "CHR 0x0A \<notin> set torn"
  shows "\<exists>ents. journalOpen L (jFile j @ torn) = Inr (j, ents) \<and> those (map (eventOf \<circ> jeEvent) ents) = Some es \<and>
    map evBody es = map snd bs \<and> map evAt es = map fst bs"
proof -
  have h: "journalHolds L j es" "map evBody es = map snd bs" "map evAt es = map fst bs"
    using appendAll_holds [OF assms(1,2) emptyJournal_holds assms(3)] by simp_all
  from journalOpen_torn [OF h(1) assms(4)] obtain ents where
    o: "journalOpen L (jFile j @ torn) = Inr (j, ents)" "map jeEvent ents = map eventJson es" by blast
  moreover have "those (map (eventOf \<circ> jeEvent) ents) = Some es"
    using assms(3) by (intro journalHolds_inj [OF o(2)]) (simp add: storable_def)
  ultimately show ?thesis using h by blast
qed

definition demoBodies :: "(int \<times> body) list" where
  "demoBodies = [(1700000000, EFreeze ''audit'' ''app''), (1700000100, EUnfreeze)]"

lemma demo_appended: "\<exists>j es. appendAll demoLib emptyJournal demoBodies = Inr (j, es) \<and> (\<forall>e\<in>set es. storable e)"
proof -
  have "case appendAll demoLib emptyJournal demoBodies of Inl _ \<Rightarrow> False | Inr (j, es) \<Rightarrow> list_all storable es" by code_simp
  then show ?thesis by (auto simp: list_all_iff split: sum.splits)
qed

theorem journal_reads_back_witness:
  "\<exists>j es ents. appendAll demoLib emptyJournal demoBodies = Inr (j, es) \<and>
     journalOpen demoLib (jFile j @ ''0123'') = Inr (j, ents) \<and> those (map (eventOf \<circ> jeEvent) ents) = Some es \<and>
     map evBody es = map snd demoBodies"
proof -
  from demo_appended obtain j es where "appendAll demoLib emptyJournal demoBodies = Inr (j, es)" "\<forall>e\<in>set es. storable e" by blast
  with journal_reads_back [OF demoLib_sha, of demoBodies j es "''0123''"] show ?thesis by auto
qed

text \<open>
  C12. Whoever changes, drops or reorders lines and still presents the number and the head of the
  journal has found a collision: at some line the two files hash different texts to the same digest.
\<close>

theorem journal_is_tamper_evident:
  assumes "journalHolds L j es" "journalOpen L file' = Inr (j', ents)" "jSeq j' = jSeq j" "jHead j' = jHead j"
  shows "jFile j' = jFile j \<or> clashAt L (hashInputs GENESIS (journalLines file')) (hashInputs GENESIS (journalLines (jFile j)))"
proof -
  let ?ls = "journalLines (jFile j)" and ?ms = "journalLines file'"
  from assms(1) obtain fs where f: "last (split_on (CHR 0x0A) (jFile j)) = []" "parseLines L GENESIS 1 ?ls = Inr fs"
    "jHead j = headAfter GENESIS fs" "length fs = length es" "jSeq j = int (length es)"
    unfolding journalHolds_def journalLines_def by blast
  note o = journalOpen_lines [OF assms(2), folded journalLines_def]
  have "length ?ms = length ?ls" using parseLines_length [OF o(1)] parseLines_length [OF f(2)] o(3) f(4,5) assms(3) by simp
  then have "?ms = ?ls \<or> clashAt L (hashInputs GENESIS ?ms) (hashInputs GENESIS ?ls)"
    using chain_determines_lines [OF _ o(1) f(2)] o(2) f(3) assms(4) by simp
  moreover have "jFile j' = jFile j" if "?ms = ?ls"
    using o(4) f(1) concat_lines [of "CHR 0x0A" "jFile j"] that by (simp add: journalLines_def)
  ultimately show ?thesis by blast
qed

theorem journal_is_tamper_evident_witness:
  "\<exists>j es j' ents. appendAll demoLib emptyJournal demoBodies = Inr (j, es) \<and> journalOpen demoLib (jFile j @ ''0123'') = Inr (j', ents) \<and>
     (jFile j' = jFile j \<or> clashAt demoLib (hashInputs GENESIS (journalLines (jFile j @ ''0123''))) (hashInputs GENESIS (journalLines (jFile j))))"
proof -
  from demo_appended obtain j es where a: "appendAll demoLib emptyJournal demoBodies = Inr (j, es)" "\<forall>e\<in>set es. storable e" by blast
  then have h: "journalHolds demoLib j es"
    using appendAll_holds [OF demoLib_sha a(1) emptyJournal_holds] by simp
  from journalOpen_torn [OF h, of "''0123''"] obtain ents where "journalOpen demoLib (jFile j @ ''0123'') = Inr (j, ents)" by auto
  with a journal_is_tamper_evident [OF h] show ?thesis by blast
qed

text \<open>
  C23. \<open>append\<close> bounds the text of an event, the parser the whole line: an event whose text is less
  than 65 characters below the bound is written, and the journal cannot be opened any more.
\<close>

theorem oversize_line_locks_journal:
  assumes "shaLib L" "journalHolds L j es" "journalAppend L j tm b = Inr (j', ev)"
    "canonicalJson (eventJson ev) = Inr t" "MAX_LINE < int (utf16Length t) + 65"
  shows "journalOpen L (jFile j') = Inl (JournalError ''size'' (jSeq j + 1))"
  using assms(3)
proof (rule journalAppend_ok)
  fix u
  assume u: "canonicalJson (eventJson ev) = Inr u"
    and j: "j' = \<lparr>jFile = jFile j @ chainHash L (jHead j) u @ CHR 0x09 # u @ [CHR 0x0A], jHead = chainHash L (jHead j) u, jSeq = jSeq j + 1\<rparr>"
  have ut: "u = t" using u assms(4) by simp
  let ?line = "chainHash L (jHead j) t @ CHR 0x09 # t"
  from assms(2) obtain ents where e: "last (split_on (CHR 0x0A) (jFile j)) = []"
    "parseLines L GENESIS 1 (butlast (split_on (CHR 0x0A) (jFile j))) = Inr ents"
    "length ents = length es" "jSeq j = int (length es)"
    unfolding journalHolds_def by blast
  have "CHR 0x0A \<notin> set ?line" using chainHash_no_sep [of L "jHead j" t] canonical_no_nl(1) [OF assms(4)] by auto
  then have sp: "split_on (CHR 0x0A) (jFile j') = butlast (split_on (CHR 0x0A) (jFile j)) @ [?line, []]"
    using split_append_line [OF e(1), of ?line] by (simp add: j ut)
  have "utf16Length ?line = 64 + 1 + utf16Length t"
    using utf16Length_ascii [OF chainHash_ascii] chainHash_length [OF assms(1)] utf16Length_ascii [of "[CHR 0x09]"]
      utf16Length_append [of "[CHR 0x09]" t] by (simp add: utf16Length_append cval_def)
  then have "parseLine L h n ?line = Inl (JournalError ''size'' n)" for h n
    using assms(5) by (simp add: parseLine_def)
  then show ?thesis
    using e parseLines_length [OF e(2)] by (simp add: journalOpen_def parseJournal_def sp butlast_append parseLines_append)
qed

lemma jsonString_as: "jsonString (replicate n (CHR ''a'')) = CHR 0x22 # replicate n (CHR ''a'') @ [CHR 0x22]"
proof -
  have "escapeChar (CHR ''a'') = ''a''" by (simp add: escapeChar_def cval_def)
  then have "concat (map escapeChar (replicate n (CHR ''a''))) = replicate n (CHR ''a'')" by (induction n) simp_all
  then show ?thesis by (simp add: jsonString_def)
qed

text \<open>An event whose text has exactly the bound: \<open>n\<close> is chosen below.\<close>

definition longBefore :: string where
  "longBefore = CHR ''{'' # jsonString ''at'' @ '':0,'' @ jsonString ''by'' @ '':'' @ jsonString ''app'' @ '','' @ jsonString ''reason'' @ '':''"

definition longAfter :: string where
  "longAfter = '','' @ jsonString ''seq'' @ '':1,'' @ jsonString ''type'' @ '':'' @ jsonString ''freeze'' @ ''}''"

lemma longFreeze_text:
  "canonicalJson (eventJson \<lparr>evSeq = 1, evAt = 0, evBody = EFreeze r ''app''\<rparr>) = Inr (longBefore @ jsonString r @ longAfter)"
  by (code_simp, simp)

lemma longFreeze_length:
  "utf16Length (longBefore @ jsonString (replicate n (CHR ''a'')) @ longAfter) = n + utf16Length longBefore + utf16Length longAfter + 2"
proof -
  have "utf16Length (jsonString (replicate n (CHR ''a''))) = n + 2"
    using utf16Length_ascii [of "jsonString (replicate n (CHR ''a''))"] by (simp add: jsonString_as cval_def)
  then show ?thesis by (simp add: utf16Length_append)
qed

theorem oversize_line_locks_journal_witness:
  "\<exists>j ev. journalAppend demoLib emptyJournal 0 (EFreeze (replicate 1048500 (CHR ''a'')) ''app'') = Inr (j, ev) \<and>
     journalOpen demoLib (jFile j) = Inl (JournalError ''size'' 1)"
proof -
  let ?r = "replicate 1048500 (CHR ''a'')" and ?ev = "\<lparr>evSeq = 1, evAt = 0, evBody = EFreeze (replicate 1048500 (CHR ''a'')) ''app''\<rparr>"
  let ?t = "longBefore @ jsonString ?r @ longAfter"
  have "utf16Length longBefore = 28" "utf16Length longAfter = 25" by code_simp+
  then have len: "int (utf16Length ?t) = 1048555" using longFreeze_length [of 1048500] by simp
  have t: "canonicalJson (eventJson ?ev) = Inr ?t" by (rule longFreeze_text)
  have "journalAppend demoLib emptyJournal 0 (EFreeze ?r ''app'') = Inr (\<lparr>jFile = chainHash demoLib GENESIS ?t @ CHR 0x09 # ?t @ [CHR 0x0A],
      jHead = chainHash demoLib GENESIS ?t, jSeq = 1\<rparr>, ?ev)"
    unfolding journalAppend_def Let_def emptyJournal_def using t len by (simp add: MAX_LINE_def)
  moreover from oversize_line_locks_journal [OF demoLib_sha emptyJournal_holds this t]
  have "journalOpen demoLib (chainHash demoLib GENESIS ?t @ CHR 0x09 # ?t @ [CHR 0x0A]) = Inl (JournalError ''size'' 1)"
    using len by (simp add: MAX_LINE_def emptyJournal_def)
  ultimately show ?thesis by auto
qed

end
