(* ===== verification/Signer_Core.thy ===== *)
theory Signer_Core
  imports Journal_Chain Keys Payout_Plan Validate
begin

text \<open>
  \<open>signer/service.ts\<close>, first part: the signer, how a command runs, the views it answers with, and
  the commands on accounts, intents and mandates.

  Most commands check the state, then record at most one event and answer. Such a command is a
  function to a \<open>decision\<close>: an answer, or an event to record with the answer computed from the
  state after it. \<open>runD\<close> carries the decision out: \<open>record\<close> appends to the journal and applies
  the event. A thrown error leaves the signer as it is, except that \<open>record\<close> keeps the journal entry
  when \<open>apply\<close> throws.

  The environment of a command holds what it reads from outside: the clock when it checks, when
  the entry is written and when the answer is built, and the bytes \<open>randomBytes\<close> delivers
  (number of the draw, size).
\<close>

definition PAYOUT_TTL :: int where "PAYOUT_TTL = 4 * 3600"
definition WHITELIST_TTL :: int where "WHITELIST_TTL = 24 * 3600"
definition MANDATE_TTL :: int where "MANDATE_TTL = 24 * 3600"
definition MAX_OPEN :: int where "MAX_OPEN = 50"
definition MAX_PER_DAY :: int where "MAX_PER_DAY = 200"
definition MAX_BTC_INPUTS :: int where "MAX_BTC_INPUTS = 50"
definition MAX_ETH_GAS :: int where "MAX_ETH_GAS = 100000"
definition DAY :: int where "DAY = 86400"

section \<open>The signer\<close>

record preparedT =
  ppToken :: string
  ppEntropy :: "(string, bytes) jsmap"
  ppExpiresAt :: int

record signer =
  gState :: signerState
  gJournal :: journal
  gSeedFile :: seedFile
  gRing :: keyRing
  gPrepared :: "preparedT option"
  gKek :: bytes
  gDev :: bool
  gBundleHash :: "string option"
  gKekNext :: "bytes option"

record env =
  eNow :: int
  eAt :: int
  eEnd :: int
  eRand :: "nat \<Rightarrow> nat \<Rightarrow> bytes"

definition failG :: "string \<Rightarrow> 'a res" where
  "failG c = Inl (SignerError c None)"

datatype decision = Answer json | Commit body "signer \<Rightarrow> json res"

definition recordEvent :: "lib \<Rightarrow> env \<Rightarrow> signer \<Rightarrow> body \<Rightarrow> signer \<times> event res" where
  "recordEvent L E s b =
     (case journalAppend L (gJournal s) (eAt E) b of
        Inl e \<Rightarrow> (s, Inl e)
      | Inr (j, ev) \<Rightarrow>
          (case apply_event L (gState s) ev of
             Inl e \<Rightarrow> (s\<lparr>gJournal := j\<rparr>, Inl e)
           | Inr st \<Rightarrow> (s\<lparr>gJournal := j, gState := st\<rparr>, Inr ev)))"

definition runD :: "lib \<Rightarrow> env \<Rightarrow> signer \<Rightarrow> decision res \<Rightarrow> signer \<times> json res" where
  "runD L E s d =
     (case d of
        Inl e \<Rightarrow> (s, Inl e)
      | Inr (Answer v) \<Rightarrow> (s, Inr v)
      | Inr (Commit b k) \<Rightarrow>
          (case recordEvent L E s b of (t, Inl e) \<Rightarrow> (t, Inl e) | (t, Inr _) \<Rightarrow> (t, k t)))"

text \<open>The constructor of \<open>Signer\<close> and \<open>Signer.open\<close>: seeds and journal have to fit together.\<close>

definition seedsMatch :: "lib \<Rightarrow> keyRing \<Rightarrow> strmap \<Rightarrow> unit res" where
  "seedsMatch L ring fps =
     (case List.find (\<lambda>(n, f). ringFingerprint L ring n \<noteq> Some f) fps of
        None \<Rightarrow> Inr () | Some (n, f) \<Rightarrow> Inl (SignerError ''seed_mismatch'' (Some n)))"

text \<open>\<open>entries.map((e) => e.event)\<close>: entries that are no events of the declared type are outside the model.\<close>

definition entryEvents :: "journalEntry list \<Rightarrow> event list res" where
  "entryEvents es = (case those (map (eventOf \<circ> jeEvent) es) of None \<Rightarrow> Inl TypeErr | Some evs \<Rightarrow> Inr evs)"

definition signerOpen :: "lib \<Rightarrow> string \<Rightarrow> seedFile \<Rightarrow> bytes \<Rightarrow> bool \<Rightarrow> string option \<Rightarrow> bytes option \<Rightarrow> signer res" where
  "signerOpen L logText seeds kek dev bundle kekNext =
     andThen (journalOpen L logText) (\<lambda>(j, ents).
     andThen (entryEvents ents) (\<lambda>evs.
     andThen (replay L evs) (\<lambda>st.
     andThen (ringLoad L seeds kek) (\<lambda>ring.
     andThen (seedsMatch L ring (sFingerprints st)) (\<lambda>_.
     andThen (selfTest L ring) (\<lambda>_.
       Inr \<lparr>gState = st, gJournal = j, gSeedFile = seeds, gRing = ring, gPrepared = None, gKek = kek,
            gDev = dev, gBundleHash = bundle, gKekNext = kekNext\<rparr>))))))"

definition requireInit :: "signer \<Rightarrow> (initT \<times> int policy) res" where
  "requireInit s =
     (case (sInit (gState s), sPolicy (gState s)) of (Some i, Some p) \<Rightarrow> Inr (i, p) | _ \<Rightarrow> failG ''not_initialized'')"

definition requireNotFrozen :: "signer \<Rightarrow> unit res" where
  "requireNotFrozen s = (if sFrozen (gState s) \<noteq> None then failG ''frozen'' else Inr ())"

section \<open>Views\<close>

definition optStrJson :: "string option \<Rightarrow> json" where
  "optStrJson v = (case v of None \<Rightarrow> JNull | Some t \<Rightarrow> JStr t)"

definition headFields :: "signer \<Rightarrow> (string \<times> json) list" where
  "headFields s = [(''seq'', JInt (jSeq (gJournal s))), (''head'', JStr (jHead (gJournal s)))]"

definition frozenJson :: "frozenT option \<Rightarrow> json" where
  "frozenJson f = (case f of None \<Rightarrow> JNull
     | Some z \<Rightarrow> JObj [(''reason'', JStr (fzReason z)), (''at'', JInt (fzAt z)), (''by'', JStr (fzBy z))])"

definition helloFields :: "lib \<Rightarrow> signer \<Rightarrow> (string \<times> json) list" where
  "helloFields L s =
     (let st = gState s; i = sInit st in
      [(''v'', JInt 1), (''initialized'', JBool (i \<noteq> None)), (''orgId'', optStrJson (map_option inOrgId i)),
       (''rpId'', optStrJson (map_option inRpId i)), (''origin'', optStrJson (map_option inOrigin i)), (''dev'', JBool (gDev s)),
       (''networks'', JArr (map JStr (ringNetworks (gRing s)))), (''frozen'', frozenJson (sFrozen st)),
       (''policyHash'', optStrJson (map_option (policyHash L) (sPolicy st))), (''bundleHash'', optStrJson (gBundleHash s))] @ headFields s)"

definition hello :: "lib \<Rightarrow> signer \<Rightarrow> json" where
  "hello L s = JObj (helloFields L s)"

definition isOpen :: "intentRecord \<Rightarrow> int \<Rightarrow> bool" where
  "isOpen r tm =
     (if rCancelled r \<or> rVetoed r then False
      else if iKind (rIntent r) = ''whitelist'' then rApprovedAt r = None \<and> tm \<le> iExpiresAt (rIntent r)
      else if rSignatures r \<noteq> [] then False
      else if rApprovedAt r = None then tm \<le> iExpiresAt (rIntent r)
      else tm \<le> (case rSignUntil r of None \<Rightarrow> 0 | Some u \<Rightarrow> u))"

definition approvalsJson :: "approvalT list \<Rightarrow> json" where
  "approvalsJson as = JArr (map (\<lambda>a. JObj [(''person'', JStr (apPerson a)), (''at'', JInt (apAt a))]) as)"

definition intentView :: "intentRecord \<Rightarrow> (string \<times> json) list" where
  "intentView r =
     [(''intentId'', JStr (rIntentId r)), (''kind'', JStr (iKind (rIntent r))), (''text'', JStr (rText r)), (''createdAt'', JInt (rCreatedAt r)),
      (''expiresAt'', JInt (iExpiresAt (rIntent r))), (''approvals'', approvalsJson (rApprovals r)), (''approvedAt'', optIntJson (rApprovedAt r)),
      (''signableAt'', optIntJson (rSignableAt r)), (''signUntil'', optIntJson (rSignUntil r)), (''activeFrom'', optIntJson (rActiveFrom r)),
      (''cancelled'', JBool (rCancelled r)), (''vetoed'', JBool (rVetoed r)),
      (''signed'', if rSignatures r = [] then JNull else let (t, g) = last (rSignatures r) in
         JObj [(''mode'', sgMode g), (''txid'', JStr (sgTxid g)), (''fee'', JStr (sgFee g)), (''at'', JInt t)]),
      (''mandateId'', optStrJson (rMandateId r))]"

definition accountFields :: "accountRecord \<Rightarrow> (string \<times> json) list" where
  "accountFields a = [(''accountId'', JStr (aAccountId a)), (''network'', JStr (aNetwork a)), (''index'', JInt (aIndex a)), (''xpub'', JStr (aXpub a))]"

text \<open>The sum of the payouts over a mandate: signed or still open.\<close>

definition mandateUsed :: "signerState \<Rightarrow> string \<Rightarrow> int \<Rightarrow> int" where
  "mandateUsed st mandateId tm =
     sum_list (map (\<lambda>r. case iAmount (rIntent r) of None \<Rightarrow> 0 | Some a \<Rightarrow> a)
       (filter (\<lambda>r. rMandateId r = Some mandateId \<and> \<not> rCancelled r \<and> \<not> rVetoed r \<and> (rSignatures r \<noteq> [] \<or> isOpen r tm))
         (mapValues (sIntents st))))"

definition mandateView :: "signerState \<Rightarrow> mandateRecord \<Rightarrow> int \<Rightarrow> (string \<times> json) list" where
  "mandateView st m tm =
     [(''mandateId'', JStr (dMandateId m)), (''text'', JStr (dText m)), (''createdAt'', JInt (dCreatedAt m)), (''approvals'', approvalsJson (dApprovals m)),
      (''approvedAt'', optIntJson (dApprovedAt m)),
      (''approvableUntil'', if dApprovedAt m = None then JInt (min (dCreatedAt m + MANDATE_TTL) (mValidUntil (dMandate m))) else JNull),
      (''active'', JBool (mandateQuorum st m)), (''revoked'', JBool (dRevoked m)), (''validUntil'', JInt (mValidUntil (dMandate m))),
      (''used'', JStr (show_int (mandateUsed st (dMandateId m) tm)))]"

definition status :: "lib \<Rightarrow> env \<Rightarrow> signer \<Rightarrow> json" where
  "status L E s =
     (let st = gState s; now = eNow E in
      JObj (helloFields L s @
       [(''policy'', case sPolicy st of None \<Rightarrow> JNull | Some p \<Rightarrow> policyJson p),
        (''keys'', JArr (map (\<lambda>k. JObj [(''credId'', JStr (kCredId k)), (''person'', JStr (kPerson k)), (''active'', JBool (kActive k)),
           (''aaguid'', JStr (kAaguid k)), (''enrolledAt'', JInt (kEnrolledAt k))]) (mapValues (sKeys st)))),
        (''accounts'', JArr (map (\<lambda>a. JObj (accountFields a)) (mapValues (sAccounts st)))),
        (''openIntents'', JArr (map (\<lambda>r. JObj (intentView r)) (filter (\<lambda>r. isOpen r now) (mapValues (sIntents st))))),
        (''mandates'', JArr (map (\<lambda>m. JObj (mandateView st m now))
           (filter (\<lambda>m. \<not> dRevoked m \<and> now < mValidUntil (dMandate m)) (mapValues (sMandates st)))))]))"

section \<open>Accounts\<close>

definition accountCreate :: "lib \<Rightarrow> env \<Rightarrow> signer \<Rightarrow> json \<Rightarrow> decision res" where
  "accountCreate L E s raw =
     andThen (obj (Some raw) ''args'') (\<lambda>a.
     andThen (requireInit s) (\<lambda>(i, p).
     andThen (uuid (jfield a ''orgId'') ''orgId'') (\<lambda>org.
     if org \<noteq> inOrgId i then failG ''wrong_org''
     else andThen (uuid (jfield a ''accountId'') ''accountId'') (\<lambda>accountId.
     andThen (networkArg (jfield a ''network'')) (\<lambda>net.
     case ringFingerprint L (gRing s) net of None \<Rightarrow> failG ''network_unknown''
     | Some f \<Rightarrow>
         (case mapGet (sAccounts (gState s)) accountId of
            Some ex \<Rightarrow>
              if aNetwork ex \<noteq> net then failG ''account_network''
              else Inr (Answer (JObj (accountFields ex @ [(''fingerprint'', JStr f)])))
          | None \<Rightarrow>
              let index = getOr (sNextIndex (gState s)) net 0 in
              andThen (accountXpub L (gRing s) net index) (\<lambda>xpub.
                Inr (Commit (EAccount accountId net index xpub) (\<lambda>_.
                  Inr (JObj [(''accountId'', JStr accountId), (''network'', JStr net), (''index'', JInt index), (''xpub'', JStr xpub),
                    (''fingerprint'', JStr f)]))))))))))"

section \<open>Intents\<close>

definition activeDestination :: "signerState \<Rightarrow> string \<Rightarrow> string \<Rightarrow> int \<Rightarrow> intentRecord option" where
  "activeDestination st net destination tm =
     List.find (\<lambda>r. iKind (rIntent r) = ''whitelist'' \<and> iNetwork (rIntent r) = net \<and> iDestination (rIntent r) = destination \<and>
         \<not> rVetoed r \<and> \<not> rCancelled r \<and> (case rActiveFrom r of None \<Rightarrow> False | Some t \<Rightarrow> t \<le> tm))
       (mapValues (sIntents st))"

definition feeCeiling :: "string \<Rightarrow> int policy \<Rightarrow> int res" where
  "feeCeiling net p =
     (case NETWORKS net of None \<Rightarrow> Inl TypeErr
      | Some info \<Rightarrow>
          if chain info = Bitcoin
          then andThen (capBig (btcSatPerVb (feeCaps p))) (\<lambda>c. Inr (c * estimateVsize MAX_BTC_INPUTS 2))
          else andThen (capBig (ethMaxFeeGwei (feeCaps p))) (\<lambda>c. Inr (c * GWEI * MAX_ETH_GAS)))"

definition checkNetwork :: "lib \<Rightarrow> signer \<Rightarrow> string \<Rightarrow> int policy \<Rightarrow> unit res" where
  "checkNetwork L s net p =
     (if net \<notin> set (networks p) then failG ''network_off''
      else andThen (networkLive net) (\<lambda>l.
        if l then failG ''live_off''
        else if ringFingerprint L (gRing s) net = None then failG ''network_unknown''
        else Inr ()))"

definition mandateOf :: "signer \<Rightarrow> json option \<Rightarrow> mandateRecord res" where
  "mandateOf s raw =
     andThen (uuid raw ''mandateId'') (\<lambda>i.
       case mapGet (sMandates (gState s)) i of None \<Rightarrow> failG ''mandate_unknown'' | Some m \<Rightarrow> Inr m)"

text \<open>\<open>typeof a.destination === "string" ? a.destination : ""\<close>\<close>

definition textOr :: "json option \<Rightarrow> string" where
  "textOr v = (case v of Some (JStr s) \<Rightarrow> s | _ \<Rightarrow> [])"

definition whitelistIntent :: "lib \<Rightarrow> env \<Rightarrow> signer \<Rightarrow> (string \<times> json) list \<Rightarrow> initT \<Rightarrow> int policy \<Rightarrow> string \<Rightarrow> intent res" where
  "whitelistIntent L E s a i p initiator =
     (let now = eNow E in
      andThen (networkArg (jfield a ''network'')) (\<lambda>net.
      andThen (checkNetwork L s net p) (\<lambda>_.
      let destination = textOr (jfield a ''destination'') in
      if \<exists>r\<in>set (mapValues (sIntents (gState s))). iKind (rIntent r) = ''whitelist'' \<and> iNetwork (rIntent r) = net \<and>
           iDestination (rIntent r) = destination \<and> \<not> rVetoed r \<and> \<not> rCancelled r \<and>
           (rApprovedAt r \<noteq> None \<or> now \<le> iExpiresAt (rIntent r))
      then failG ''destination_exists''
      else Inr \<lparr>iKind = ''whitelist'', iOrgId = inOrgId i, iAccountId = None, iNetwork = net,
        iChainId = Option.bind (NETWORKS net) chainId, iAsset = None, iAmount = None, iDestination = destination,
        iActiveSince = None, iFeeCap = None, iInitiator = initiator, iIntentId = hexEncode (eRand E 0 16),
        iNonce = hexEncode (eRand E 1 16), iExpiresAt = now + WHITELIST_TTL\<rparr>)))"

text \<open>The mandate a payout refers to, if it covers the payout.\<close>

definition mandateFor :: "signer \<Rightarrow> json option \<Rightarrow> string \<Rightarrow> string \<Rightarrow> string \<Rightarrow> int \<Rightarrow> string \<Rightarrow> int \<Rightarrow> string option res" where
  "mandateFor s v initiator net cd amount destination tm =
     (if v = None then Inr None
      else andThen (mandateOf s v) (\<lambda>m.
        if \<not> mandateQuorum (gState s) m then failG ''mandate_not_approved''
        else let use = mandateCovers (dMandate m) \<lparr>uGrantee = initiator, uNetwork = net, uAsset = cd, uAmount = amount,
               uDestination = destination, uAt = tm, uUsed = mandateUsed (gState s) (dMandateId m) tm\<rparr> in
        if use \<noteq> ''ok'' then failG (''mandate_'' @ use) else Inr (Some (dMandateId m))))"

definition payoutIntent :: "lib \<Rightarrow> env \<Rightarrow> signer \<Rightarrow> (string \<times> json) list \<Rightarrow> initT \<Rightarrow> int policy \<Rightarrow> string \<Rightarrow> (intent \<times> string option) res" where
  "payoutIntent L E s a i p initiator =
     (let now = eNow E; st = gState s in
      andThen (uuid (jfield a ''accountId'') ''accountId'') (\<lambda>accountId.
      case mapGet (sAccounts st) accountId of None \<Rightarrow> failG ''account_unknown''
      | Some account \<Rightarrow>
      let net = aNetwork account in
      andThen (checkNetwork L s net p) (\<lambda>_.
      andThen (assetArg net (jfield a ''asset'')) (\<lambda>cd.
      andThen (posUint (jfield a ''amount'') ''amount'') (\<lambda>amount.
      andThen (uintArg (jfield a ''feeCap'') ''feeCap'') (\<lambda>feeCap.
      andThen (feeCeiling net p) (\<lambda>ceiling.
      if feeCap > ceiling then failG ''fee_cap''
      else let allowed = spendAllowed p cd amount 0 in
      if allowed \<noteq> ''ok'' then failG allowed
      else let destination = textOr (jfield a ''destination'') in
      case activeDestination st net destination now of None \<Rightarrow> failG ''destination_inactive''
      | Some act \<Rightarrow>
      andThen (mandateFor s (jfield a ''mandateId'') initiator net cd amount destination now) (\<lambda>mandateId.
        Inr (\<lparr>iKind = ''payout'', iOrgId = inOrgId i, iAccountId = Some accountId, iNetwork = net,
          iChainId = Option.bind (NETWORKS net) chainId, iAsset = Some cd, iAmount = Some amount, iDestination = destination,
          iActiveSince = rActiveFrom act, iFeeCap = Some feeCap, iInitiator = initiator, iIntentId = hexEncode (eRand E 0 16),
          iNonce = hexEncode (eRand E 1 16), iExpiresAt = now + PAYOUT_TTL\<rparr>, mandateId)))))))))"

text \<open>\<open>if (e instanceof IntentError) return bad(e.field)\<close>\<close>

definition intentErrors :: "'a res \<Rightarrow> 'a res" where
  "intentErrors m = (case m of Inl (IntentError f) \<Rightarrow> bad f | _ \<Rightarrow> m)"

definition intentCreate :: "lib \<Rightarrow> env \<Rightarrow> signer \<Rightarrow> json \<Rightarrow> decision res" where
  "intentCreate L E s raw =
     andThen (obj (Some raw) ''args'') (\<lambda>a.
     andThen (requireInit s) (\<lambda>(i, p).
     andThen (requireNotFrozen s) (\<lambda>_.
     let now = eNow E; rs = mapValues (sIntents (gState s)) in
     if int (length (filter (\<lambda>r. isOpen r now) rs)) \<ge> MAX_OPEN then failG ''too_many_open''
     else if int (length (filter (\<lambda>r. rCreatedAt r > now - DAY) rs)) \<ge> MAX_PER_DAY then failG ''too_many_today''
     else andThen (uuid (jfield a ''initiator'') ''initiator'') (\<lambda>initiator.
     andThen (if jfield a ''kind'' = Some (JStr ''whitelist'')
              then andThen (whitelistIntent L E s a i p initiator) (\<lambda>it. Inr (it, None))
              else if jfield a ''kind'' = Some (JStr ''payout'') then payoutIntent L E s a i p initiator
              else bad ''kind'') (\<lambda>(it, mandateId).
     andThen (intentErrors (encodeIntent L it)) (\<lambda>txt.
       Inr (Commit (EIntent (iIntentId it) txt mandateId) (\<lambda>_.
         Inr (JObj [(''intentId'', JStr (iIntentId it)), (''text'', JStr txt), (''challenge'', JStr (b64uEncode (intentChallenge L txt))),
           (''expiresAt'', JInt (iExpiresAt it)), (''approved'', JBool (mandateId \<noteq> None))])))))))))"

end
