(* ===== verification/Signer_Approve.thy ===== *)
theory Signer_Approve
  imports Signer_Core
begin

text \<open>
  \<open>signer/service.ts\<close>, second part: mandates, approvals by security key, cancelling and the veto.
\<close>

section \<open>Mandates\<close>

definition activeCreds :: "signerState \<Rightarrow> json" where
  "activeCreds st = JArr (map (\<lambda>k. JStr (kCredId k)) (filter kActive (mapValues (sKeys st))))"

definition mandateGet :: "lib \<Rightarrow> int \<Rightarrow> signer \<Rightarrow> json \<Rightarrow> json res" where
  "mandateGet L tm s raw =
     andThen (obj (Some raw) ''args'') (\<lambda>a.
     andThen (requireInit s) (\<lambda>(i, p).
     andThen (mandateOf s (jfield a ''mandateId'')) (\<lambda>m.
       Inr (JObj (mandateView (gState s) m tm @
         [(''kind'', JStr ''mandate''), (''rpId'', JStr (inRpId i)), (''challenge'', JStr (b64uEncode (mandateChallenge L (dText m)))),
          (''expiresAt'', JInt (min (dCreatedAt m + MANDATE_TTL) (mValidUntil (dMandate m)))),
          (''allowCredentials'', activeCreds (gState s)), (''frozen'', JBool (sFrozen (gState s) \<noteq> None))])))))"

definition mandateErrors :: "'a res \<Rightarrow> 'a res" where
  "mandateErrors m = (case m of Inl (MandateError f) \<Rightarrow> bad f | _ \<Rightarrow> m)"

definition mandateCreate :: "lib \<Rightarrow> env \<Rightarrow> signer \<Rightarrow> json \<Rightarrow> decision res" where
  "mandateCreate L E s raw =
     andThen (obj (Some raw) ''args'') (\<lambda>a.
     andThen (requireInit s) (\<lambda>(i, p).
     andThen (requireNotFrozen s) (\<lambda>_.
     let now = eNow E; txt = textOr (jfield a ''text''); st = gState s in
     andThen (mandateErrors (parseMandate L txt)) (\<lambda>m.
     if mOrgId m \<noteq> inOrgId i then failG ''wrong_org''
     else let again = (\<lambda>t. mandateGet L (eEnd E) t (JObj [(''mandateId'', JStr (mMandateId m))])) in
     case mapGet (sMandates st) (mMandateId m) of
       Some ex \<Rightarrow>
         if dText ex \<noteq> txt then failG ''mandate_exists'' else andThen (again s) (\<lambda>v. Inr (Answer v))
     | None \<Rightarrow>
         andThen (checkNetwork L s (mNetwork m) p) (\<lambda>_.
         if map_of (limits p) (mAsset m) \<in> {None, Some None} then failG ''asset_not_allowed''
         else if now \<ge> mValidUntil m then failG ''mandate_expired''
         else if \<exists>d\<in>set (mDestinations m). activeDestination st (mNetwork m) d now = None then failG ''destination_inactive''
         else if int (length (filter (\<lambda>x. dApprovedAt x = None \<and> \<not> dRevoked x \<and> now \<le> dCreatedAt x + MANDATE_TTL)
                (mapValues (sMandates st)))) \<ge> MAX_OPEN then failG ''too_many_open''
         else Inr (Commit (EMandate (mMandateId m) txt) again))))))"

text \<open>\<open>throw new SignerError("webauthn", e.code)\<close>\<close>

definition webauthnErrors :: "'a res \<Rightarrow> 'a res" where
  "webauthnErrors m = (case m of Inl (WebAuthnFailure c) \<Rightarrow> Inl (SignerError ''webauthn'' (Some c)) | _ \<Rightarrow> m)"

definition assertionArgs :: "(string \<times> json) list \<Rightarrow> assertionInput res" where
  "assertionArgs a =
     andThen (b64uStr (jfield a ''authenticatorData'') ''authenticatorData'' 4096) (\<lambda>ad.
     andThen (b64uStr (jfield a ''clientDataJSON'') ''clientDataJSON'' 4096) (\<lambda>cdj.
     andThen (b64uStr (jfield a ''signature'') ''signature'' 200) (\<lambda>sig.
       Inr \<lparr>asAuthenticatorData = ad, asClientDataJSON = cdj, asSignature = sig\<rparr>)))"

text \<open>The counter of a verified confirmation of \<open>challenge\<close> with the key.\<close>

definition confirm :: "lib \<Rightarrow> (string \<times> json) list \<Rightarrow> initT \<Rightarrow> bytes \<Rightarrow> keyRecord \<Rightarrow> int res" where
  "confirm L a i challenge key =
     webauthnErrors (andThen (assertionArgs a) (\<lambda>x.
       verifyAssertion L x \<lparr>cxRpId = inRpId i, cxOrigin = inOrigin i, cxChallenge = challenge,
         cxSpki = kSpki key, cxStoredCounter = kCounter key\<rparr>))"

text \<open>\<open>this.state.keys.get(credId)\<close> with \<open>if (!key?.active) throw\<close>\<close>

definition activeKey :: "signer \<Rightarrow> string \<Rightarrow> keyRecord res" where
  "activeKey s c =
     (case mapGet (sKeys (gState s)) c of None \<Rightarrow> failG ''key_unknown''
      | Some k \<Rightarrow> if kActive k then Inr k else failG ''key_unknown'')"

definition mandateViewOf :: "signer \<Rightarrow> string \<Rightarrow> int \<Rightarrow> json res" where
  "mandateViewOf s i tm =
     (case mapGet (sMandates (gState s)) i of None \<Rightarrow> Inl TypeErr | Some m \<Rightarrow> Inr (JObj (mandateView (gState s) m tm)))"

definition mandateApprove :: "lib \<Rightarrow> env \<Rightarrow> signer \<Rightarrow> json \<Rightarrow> decision res" where
  "mandateApprove L E s raw =
     andThen (obj (Some raw) ''args'') (\<lambda>a.
     andThen (requireInit s) (\<lambda>(i, p).
     andThen (requireNotFrozen s) (\<lambda>_.
     andThen (mandateOf s (jfield a ''mandateId'')) (\<lambda>m.
     let now = eNow E in
     if dRevoked m then failG ''mandate_revoked''
     else if now \<ge> mValidUntil (dMandate m) then failG ''mandate_expired''
     else if dApprovedAt m = None \<and> now > dCreatedAt m + MANDATE_TTL then failG ''mandate_expired''
     else andThen (b64uStr (jfield a ''credId'') ''credId'' 1400) (\<lambda>credId.
     andThen (activeKey s credId) (\<lambda>key.
     if kPerson key = mGrantee (dMandate m) then failG ''mandate_self''
     else if \<exists>x\<in>set (dApprovals m). apCredId x = credId then failG ''already_approved''
     else andThen (confirm L a i (mandateChallenge L (dText m)) key) (\<lambda>counter.
       Inr (Commit (EMandateApproval (dMandateId m) credId (kPerson key) counter)
         (\<lambda>t. mandateViewOf t (dMandateId m) now)))))))))"

definition mandateRevoke :: "env \<Rightarrow> signer \<Rightarrow> json \<Rightarrow> string \<Rightarrow> decision res" where
  "mandateRevoke E s raw by =
     andThen (obj (Some raw) ''args'') (\<lambda>a.
     andThen (mandateOf s (jfield a ''mandateId'')) (\<lambda>m.
       if \<not> dRevoked m then Inr (Commit (EMandateRevoked (dMandateId m) by) (\<lambda>t. mandateViewOf t (dMandateId m) (eEnd E)))
       else Inr (Answer (JObj (mandateView (gState s) m (eEnd E))))))"

section \<open>Intents: reading, approving, closing\<close>

definition intentOf :: "signer \<Rightarrow> json option \<Rightarrow> intentRecord res" where
  "intentOf s raw =
     andThen (hex128 raw ''intentId'') (\<lambda>i.
       case mapGet (sIntents (gState s)) i of None \<Rightarrow> failG ''intent_unknown'' | Some r \<Rightarrow> Inr r)"

definition intentViewOf :: "signer \<Rightarrow> string \<Rightarrow> json res" where
  "intentViewOf s i =
     (case mapGet (sIntents (gState s)) i of None \<Rightarrow> Inl TypeErr | Some r \<Rightarrow> Inr (JObj (intentView r)))"

definition intentGet :: "lib \<Rightarrow> signer \<Rightarrow> json \<Rightarrow> json res" where
  "intentGet L s raw =
     andThen (obj (Some raw) ''args'') (\<lambda>a.
     andThen (requireInit s) (\<lambda>(i, p).
     andThen (intentOf s (jfield a ''intentId'')) (\<lambda>r.
       Inr (JObj (intentView r @ [(''rpId'', JStr (inRpId i)), (''challenge'', JStr (b64uEncode (intentChallenge L (rText r)))),
         (''allowCredentials'', activeCreds (gState s)), (''frozen'', JBool (sFrozen (gState s) \<noteq> None))])))))"

definition approve :: "lib \<Rightarrow> env \<Rightarrow> signer \<Rightarrow> json \<Rightarrow> decision res" where
  "approve L E s raw =
     andThen (obj (Some raw) ''args'') (\<lambda>a.
     andThen (requireInit s) (\<lambda>(i, p).
     andThen (requireNotFrozen s) (\<lambda>_.
     andThen (intentOf s (jfield a ''intentId'')) (\<lambda>r.
     if rCancelled r \<or> rVetoed r then failG ''intent_closed''
     else if eNow E > iExpiresAt (rIntent r) then failG ''intent_expired''
     else if rMandateId r \<noteq> None then failG ''mandate_intent''
     else andThen (b64uStr (jfield a ''credId'') ''credId'' 1400) (\<lambda>credId.
     andThen (activeKey s credId) (\<lambda>key.
     if \<exists>x\<in>set (rApprovals r). apCredId x = credId then failG ''already_approved''
     else andThen (confirm L a i (intentChallenge L (rText r)) key) (\<lambda>counter.
       Inr (Commit (EApproval (rIntentId r) credId (kPerson key) counter) (\<lambda>t. intentViewOf t (rIntentId r)))))))))) "

definition intentCancel :: "signer \<Rightarrow> json \<Rightarrow> string \<Rightarrow> decision res" where
  "intentCancel s raw by =
     andThen (obj (Some raw) ''args'') (\<lambda>a.
     andThen (intentOf s (jfield a ''intentId'')) (\<lambda>r.
       if rSignatures r \<noteq> [] then failG ''already_signed''
       else if rCancelled r then Inr (Answer (JObj (intentView r)))
       else Inr (Commit (ECancel (rIntentId r) by) (\<lambda>t. intentViewOf t (rIntentId r)))))"

definition whitelistVeto :: "signer \<Rightarrow> json \<Rightarrow> decision res" where
  "whitelistVeto s raw =
     andThen (obj (Some raw) ''args'') (\<lambda>a.
     andThen (intentOf s (jfield a ''intentId'')) (\<lambda>r.
       if iKind (rIntent r) \<noteq> ''whitelist'' then failG ''not_whitelist''
       else if \<not> rVetoed r then Inr (Commit (EVeto (rIntentId r)) (\<lambda>t. intentViewOf t (rIntentId r)))
       else Inr (Answer (JObj (intentView r)))))"

end
