(* ===== verification/Signer_Sign.thy ===== *)
theory Signer_Sign
  imports Signer_Approve
begin

text \<open>
  \<open>signer/service.ts\<close>, third part: signing. \<open>sign\<close> checks the intent, \<open>signBtc\<close> and \<open>signEth\<close> build
  and sign the transaction from the approved intent and the plan of the app.
\<close>

text \<open>
  \<open>String(v)\<close> as far as the source compares it with words of letters: \<open>None\<close> is a text with other
  characters (numbers, objects, arrays of several elements).
\<close>

fun wordText :: "json \<Rightarrow> string option" where
  "wordText (JStr s) = Some s"
| "wordText (JBool b) = Some (if b then ''true'' else ''false'')"
| "wordText JNull = Some ''null''"
| "wordText (JArr []) = Some []"
| "wordText (JArr [JNull]) = Some []"
| "wordText (JArr [x]) = wordText x"
| "wordText _ = None"

definition modeArg :: "json option \<Rightarrow> json res" where
  "modeArg v =
     (case v of None \<Rightarrow> bad ''mode''
      | Some m \<Rightarrow> (case wordText m of None \<Rightarrow> bad ''mode'' | Some w \<Rightarrow> if w \<in> set SIGN_MODES then Inr m else bad ''mode''))"

definition isMode :: "json \<Rightarrow> string \<Rightarrow> bool" where
  "isMode v m \<longleftrightarrow> v = JStr m"

definition firstSigned :: "intentRecord \<Rightarrow> (int \<times> signedT) option" where
  "firstSigned r = List.find (\<lambda>(t, g). isMode (sgMode g) ''first'') (rSignatures r)"

definition lastSigned :: "intentRecord \<Rightarrow> (int \<times> signedT) option" where
  "lastSigned r = (if rSignatures r = [] then None else Some (last (rSignatures r)))"

text \<open>Sum of the first signatures of an asset in the last 24 hours.\<close>

fun sumSigned :: "string \<Rightarrow> int \<Rightarrow> intentRecord list \<Rightarrow> int res" where
  "sumSigned cd tm [] = Inr 0"
| "sumSigned cd tm (r # rs) =
     andThen (case firstSigned r of
         Some (t, g) \<Rightarrow> if sgAsset g = cd \<and> t > tm - DAY then toBigInt (sgAmount g) else Inr 0
       | None \<Rightarrow> Inr 0)
     (\<lambda>n. andThen (sumSigned cd tm rs) (\<lambda>m. Inr (n + m)))"

definition signedLast24h :: "signerState \<Rightarrow> string \<Rightarrow> int \<Rightarrow> int res" where
  "signedLast24h st cd tm = sumSigned cd tm (mapValues (sIntents st))"

section \<open>Building the transaction\<close>

text \<open>What \<open>signBtc\<close> and \<open>signEth\<close> return.\<close>

record draftT =
  drTxid :: string
  drRaw :: string
  drFee :: string
  drOutpoints :: "string list option"
  drChangeIndex :: "int option option"
  drNonce :: "string option"
  drMaxFeePerGas :: "string option"
  drMaxPriorityFeePerGas :: "string option"
  drGasLimit :: "string option"

definition spendErrors :: "'a res \<Rightarrow> 'a res" where
  "spendErrors m = (case m of Inl (SpendError c) \<Rightarrow> Inl (SignerError ''spend'' (Some c)) | _ \<Rightarrow> m)"

definition inputArg :: "nat \<times> json \<Rightarrow> btcSpendInput res" where
  "inputArg x =
     (let f = ''inputs.'' @ show_int (int (fst x)) in
      andThen (obj (Some (snd x)) f) (\<lambda>o1.
      andThen (txid (jfield o1 ''txid'') (f @ ''.txid'')) (\<lambda>t.
      andThen (intArg (jfield o1 ''vout'') (f @ ''.vout'') 0 100000) (\<lambda>v.
      andThen (hexData (jfield o1 ''prevTxHex'') (f @ ''.prevTxHex'')) (\<lambda>h.
      andThen (intArg (jfield o1 ''branch'') (f @ ''.branch'') 0 1) (\<lambda>b.
      andThen (intArg (jfield o1 ''index'') (f @ ''.index'') 0 2147483647) (\<lambda>n.
        Inr \<lparr>biTxid = t, biVout = v, biPrevTxHex = h, biBranch = b, biIndex = n\<rparr>)))))))"

definition inputArgs :: "json option \<Rightarrow> btcSpendInput list res" where
  "inputArgs v =
     (case v of Some (JArr xs) \<Rightarrow>
        if xs = [] then bad ''inputs''
        else if int (length xs) > MAX_BTC_INPUTS then bad ''inputs''
        else mapR inputArg (List.enumerate 0 xs)
      | _ \<Rightarrow> bad ''inputs'')"

text \<open>The value of the inputs when a payment is cancelled; an output without amount counts zero.\<close>

fun inputTotal :: "lib \<Rightarrow> btcSpendInput list \<Rightarrow> int res" where
  "inputTotal L [] = Inr 0"
| "inputTotal L (x # xs) =
     (case btcFromRaw L (biPrevTxHex x) of None \<Rightarrow> Inl LibErr
      | Some prv \<Rightarrow> andThen (prevGet prv (biVout x)) (\<lambda>out.
          andThen (inputTotal L xs) (\<lambda>n. Inr ((case out of Some (_, Some v) \<Rightarrow> v | _ \<Rightarrow> 0) + n))))"

text \<open>Change index, destination and amount of the transaction, by mode.\<close>

definition btcTarget :: "lib \<Rightarrow> signerState \<Rightarrow> intentRecord \<Rightarrow> json \<Rightarrow> btcSpendInput list \<Rightarrow> int \<Rightarrow> keyAt \<Rightarrow> bool \<Rightarrow>
    signedT option \<Rightarrow> signedT option \<Rightarrow> (int option \<times> int option \<times> string \<times> int) res" where
  "btcTarget L st r md inputs fee keyAt main first lst =
     (let i = rIntent r; outpoints = map outpointOf inputs; acc = the (iAccountId i); amt = the (iAmount i);
          nextCh = getOr (sNextChange st) acc 0 in
      if isMode md ''first'' then
        (if \<exists>o1\<in>set outpoints. (case mapGet (sReserved st) o1 of None \<Rightarrow> False | Some h \<Rightarrow> h \<noteq> [] \<and> h \<noteq> rIntentId r)
         then failG ''input_reserved''
         else Inr (Some nextCh, None, iDestination i, amt))
      else
        (let before = uniq (case Option.bind first sgOutpoints of None \<Rightarrow> [] | Some os \<Rightarrow> os);
             ci = (case Option.bind first sgChangeIndex of Some (Some c) \<Rightarrow> c | _ \<Rightarrow> nextCh) in
         if length outpoints \<noteq> length before \<or> (\<exists>o1\<in>set outpoints. o1 \<notin> set before) then failG ''inputs_differ''
         else andThen (case lst of None \<Rightarrow> Inr 0 | Some g \<Rightarrow> toBigInt (sgFee g)) (\<lambda>lastFee.
         if fee \<le> lastFee then failG ''fee_not_higher''
         else if isMode md ''cancel'' then
           andThen (inputTotal L inputs) (\<lambda>tot.
           andThen (keyAt 1 ci) (\<lambda>(priv, pub).
           if tot - fee \<le> 0 then failG ''insufficient''
           else Inr (None, Some ci, p2wpkhAddress L main pub, tot - fee)))
         else Inr (Some ci, None, iDestination i, amt))))"

definition signBtc :: "lib \<Rightarrow> signer \<Rightarrow> intentRecord \<Rightarrow> int \<Rightarrow> json \<Rightarrow> (string \<times> json) list \<Rightarrow> int policy \<Rightarrow>
    signedT option \<Rightarrow> signedT option \<Rightarrow> draftT res" where
  "signBtc L s r accountIndex md plan p first lst =
     (let i = rIntent r; net = iNetwork i in
      andThen (inputArgs (jfield plan ''inputs'')) (\<lambda>inputs.
      andThen (uintArg (jfield plan ''fee'') ''fee'') (\<lambda>fee.
      andThen (btcKeys L (gRing s) net accountIndex) (\<lambda>keyAt.
      andThen (networkLive net) (\<lambda>main.
      andThen (btcTarget L (gState s) r md inputs fee keyAt main first lst) (\<lambda>(changeIndex, cancelIndex, destination, amount).
      andThen (spendErrors (buildBtcSpend L \<lparr>bqNetwork = net, bqDestination = destination, bqAmount = amount, bqInputs = inputs,
          bqChangeIndex = changeIndex, bqFee = fee, bqFeeCap = (case iFeeCap i of None \<Rightarrow> 0 | Some c \<Rightarrow> c),
          bqMaxSatPerVb = btcSatPerVb (feeCaps p)\<rparr> keyAt)) (\<lambda>b.
        Inr \<lparr>drTxid = bTxid b, drRaw = bRaw b, drFee = show_int (bFee b), drOutpoints = Some (map outpointOf inputs),
          drChangeIndex = Some (if isMode md ''cancel'' then cancelIndex else if bChange b > 0 then changeIndex else None),
          drNonce = None, drMaxFeePerGas = None, drMaxPriorityFeePerGas = None, drGasLimit = None\<rparr>)))))))"

text \<open>\<open>BigInt(text ?? d)\<close>\<close>

definition bigOr :: "int \<Rightarrow> string option \<Rightarrow> int res" where
  "bigOr d v = (case v of None \<Rightarrow> Inr d | Some t \<Rightarrow> toBigInt t)"

definition ethNonceOk :: "signerState \<Rightarrow> intentRecord \<Rightarrow> json \<Rightarrow> int \<Rightarrow> int \<Rightarrow> int \<Rightarrow> signedT option \<Rightarrow> signedT option \<Rightarrow> unit res" where
  "ethNonceOk st r md nonce maxFee maxPrio first lst =
     (if isMode md ''first'' then
        (case mapGet (sNonces st) (the (iAccountId (rIntent r))) of None \<Rightarrow> Inr ()
         | Some mx \<Rightarrow> if nonce \<noteq> mx + 1 then Inl (SignerError ''nonce'' (Some (''expected '' @ show_int (mx + 1)))) else Inr ())
      else
        andThen (bigOr (-1) (Option.bind first sgNonce)) (\<lambda>n0.
        if nonce \<noteq> n0 then failG ''nonce_differs''
        else andThen (bigOr 0 (Option.bind lst sgMaxFeePerGas)) (\<lambda>f0.
        if maxFee * 10 < f0 * 11 then failG ''fee_not_higher''
        else andThen (bigOr 0 (Option.bind lst sgMaxPriorityFeePerGas)) (\<lambda>p0.
        if maxPrio * 10 < p0 * 11 then failG ''fee_not_higher'' else Inr ()))))"

definition signEth :: "lib \<Rightarrow> signer \<Rightarrow> intentRecord \<Rightarrow> int \<Rightarrow> json \<Rightarrow> (string \<times> json) list \<Rightarrow> int policy \<Rightarrow>
    signedT option \<Rightarrow> signedT option \<Rightarrow> draftT res" where
  "signEth L s r accountIndex md plan p first lst =
     (let i = rIntent r; cancel = isMode md ''cancel'' in
      andThen (uintArg (jfield plan ''nonce'') ''nonce'') (\<lambda>nonce.
      andThen (posUint (jfield plan ''gasLimit'') ''gasLimit'') (\<lambda>gasLimit.
      andThen (posUint (jfield plan ''maxFeePerGas'') ''maxFeePerGas'') (\<lambda>maxFeePerGas.
      andThen (uintArg (jfield plan ''maxPriorityFeePerGas'') ''maxPriorityFeePerGas'') (\<lambda>maxPriorityFeePerGas.
      andThen (ethPrivateKey L (gRing s) (iNetwork i) accountIndex) (\<lambda>priv.
      andThen (ethNonceOk (gState s) r md nonce maxFeePerGas maxPriorityFeePerGas first lst) (\<lambda>_.
      andThen (capBig (ethMaxFeeGwei (feeCaps p))) (\<lambda>capGwei.
      andThen (spendErrors (buildEthSpend L \<lparr>eqNetwork = iNetwork i, eqAsset = (if cancel then ''ETH'' else the (iAsset i)),
          eqDestination = (if cancel then ethFromPrivate L priv else iDestination i),
          eqAmount = (if cancel then 1 else the (iAmount i)), eqNonce = nonce, eqGasLimit = gasLimit, eqMaxFeePerGas = maxFeePerGas,
          eqMaxPriorityFeePerGas = maxPriorityFeePerGas, eqFeeCap = (case iFeeCap i of None \<Rightarrow> 0 | Some c \<Rightarrow> c),
          eqMaxFeePerGasCap = capGwei * GWEI\<rparr> priv)) (\<lambda>e.
        Inr \<lparr>drTxid = ethHash e, drRaw = ethRaw e, drFee = show_int (ethMaxFee e), drOutpoints = None, drChangeIndex = None,
          drNonce = Some (show_int nonce), drMaxFeePerGas = Some (show_int maxFeePerGas),
          drMaxPriorityFeePerGas = Some (show_int maxPriorityFeePerGas), drGasLimit = Some (show_int gasLimit)\<rparr>)))))))))"

section \<open>The command\<close>

definition resultOf :: "signedT \<Rightarrow> json" where
  "resultOf g = JObj ([(''intentId'', JStr (sgIntentId g)), (''mode'', sgMode g), (''raw'', JStr (sgRaw g)), (''txid'', JStr (sgTxid g)),
     (''fee'', JStr (sgFee g))] @ optField ''outpoints'' (\<lambda>os. JArr (map JStr os)) (sgOutpoints g) @
     optField ''changeIndex'' optIntJson (sgChangeIndex g) @ optField ''nonce'' JStr (sgNonce g))"

definition signedOfDraft :: "intentRecord \<Rightarrow> json \<Rightarrow> accountRecord \<Rightarrow> draftT \<Rightarrow> signedT" where
  "signedOfDraft r md account d =
     \<lparr>sgIntentId = rIntentId r, sgMode = md, sgAccountId = aAccountId account, sgNetwork = iNetwork (rIntent r),
      sgAsset = the (iAsset (rIntent r)), sgAmount = show_int (the (iAmount (rIntent r))), sgTxid = drTxid d, sgRaw = drRaw d, sgFee = drFee d,
      sgOutpoints = drOutpoints d, sgChangeIndex = drChangeIndex d, sgNonce = drNonce d, sgMaxFeePerGas = drMaxFeePerGas d,
      sgMaxPriorityFeePerGas = drMaxPriorityFeePerGas d, sgGasLimit = drGasLimit d\<rparr>"

text \<open>The checks before a first signature.\<close>

definition firstGuards :: "lib \<Rightarrow> env \<Rightarrow> signer \<Rightarrow> int policy \<Rightarrow> intentRecord \<Rightarrow> unit res" where
  "firstGuards L E s p r =
     (let st = gState s; now = eNow E; i = rIntent r;
          hasM = (rMandateId r \<noteq> None \<and> rMandateId r \<noteq> Some []); m = (if hasM then mapGet (sMandates st) (the (rMandateId r)) else None) in
      if hasM \<and> (m = None \<or> dRevoked (the m)) then failG ''mandate_revoked''
      else if m \<noteq> None \<and> now \<ge> mValidUntil (dMandate (the m)) then failG ''mandate_expired''
      else if (case rSignUntil r of None \<Rightarrow> False | Some u \<Rightarrow> now > u) then failG ''window_closed''
      else if \<not> quorum st r then failG ''not_approved''
      else case rSignableAt r of None \<Rightarrow> failG ''not_approved''
      | Some from \<Rightarrow>
          if now < from then failG ''too_early''
          else if now > (case rSignUntil r of None \<Rightarrow> 0 | Some u \<Rightarrow> u) then failG ''window_closed''
          else if activeDestination st (iNetwork i) (iDestination i) now = None then failG ''destination_inactive''
          else andThen (checkNetwork L s (iNetwork i) p) (\<lambda>_.
          andThen (signedLast24h st (the (iAsset i)) now) (\<lambda>day.
          let allowed = spendAllowed p (the (iAsset i)) (the (iAmount i)) day in
          if allowed \<noteq> ''ok'' then failG allowed else Inr ())))"

text \<open>The checks before the fee is raised or the payment cancelled.\<close>

definition laterGuards :: "signedT option \<Rightarrow> signedT option \<Rightarrow> json \<Rightarrow> unit res" where
  "laterGuards first lst md =
     (if first = None \<or> lst = None then failG ''not_signed''
      else if isMode (sgMode (the lst)) ''cancel'' \<and> isMode md ''bump'' then failG ''cancelled''
      else Inr ())"

definition draftFor :: "lib \<Rightarrow> signer \<Rightarrow> intentRecord \<Rightarrow> int \<Rightarrow> json \<Rightarrow> json option \<Rightarrow> int policy \<Rightarrow> signedT option \<Rightarrow> signedT option \<Rightarrow> draftT res" where
  "draftFor L s r accountIndex md planArg p first lst =
     andThen (obj planArg ''plan'') (\<lambda>plan.
     case NETWORKS (iNetwork (rIntent r)) of None \<Rightarrow> Inl TypeErr
     | Some info \<Rightarrow>
         if chain info = Bitcoin then signBtc L s r accountIndex md plan p first lst
         else signEth L s r accountIndex md plan p first lst)"

definition sign :: "lib \<Rightarrow> env \<Rightarrow> signer \<Rightarrow> json \<Rightarrow> decision res" where
  "sign L E s raw =
     andThen (obj (Some raw) ''args'') (\<lambda>a.
     andThen (requireInit s) (\<lambda>(ini, p).
     andThen (requireNotFrozen s) (\<lambda>_.
     andThen (intentOf s (jfield a ''intentId'')) (\<lambda>r.
     andThen (modeArg (jfield a ''mode'')) (\<lambda>md.
     let i = rIntent r; first = map_option snd (firstSigned r); lst = map_option snd (lastSigned r) in
     if iKind i \<noteq> ''payout'' \<or> iAccountId i \<in> {None, Some []} \<or> iAsset i \<in> {None, Some []} \<or> iAmount i = None then failG ''not_payout''
     else if rCancelled r \<or> rVetoed r then failG ''intent_closed''
     else case mapGet (sAccounts (gState s)) (the (iAccountId i)) of None \<Rightarrow> failG ''account_unknown''
     | Some account \<Rightarrow>
     if isMode md ''first'' \<and> lst \<noteq> None then Inr (Answer (resultOf (the lst)))
     else andThen (if isMode md ''first'' then firstGuards L E s p r else laterGuards first lst md) (\<lambda>_.
     andThen (draftFor L s r (aIndex account) md (jfield a ''plan'') p first lst) (\<lambda>d.
       let g = signedOfDraft r md account d in
       Inr (Commit (ESigned g) (\<lambda>_. Inr (resultOf g))))))))))"

end
