(* ===== verification/Signer_Admin.thy ===== *)
theory Signer_Admin
  imports Signer_Sign
begin

text \<open>
  \<open>signer/service.ts\<close>, fourth part: freezing, the policy, security keys, and the commands of the
  administrator (seeds, set-up, networks, change of the key encryption key).

  The cast \<open>as unknown as Policy\<close> checks nothing; arguments outside the declared type are outside
  the model (\<open>castPolicy\<close> is \<open>TypeErr\<close> there). Writing the seed file succeeds. Commands that change
  the signer before they can fail pass it on explicitly.
\<close>

section \<open>Freezing and the policy\<close>

definition freeze :: "lib \<Rightarrow> signer \<Rightarrow> json \<Rightarrow> string \<Rightarrow> decision res" where
  "freeze L s raw by =
     andThen (obj (Some raw) ''args'') (\<lambda>a.
     andThen (shortText L 200 (jfield a ''reason'') ''reason'') (\<lambda>reason.
     andThen (requireInit s) (\<lambda>_.
       let view = (\<lambda>t. JObj [(''frozen'', frozenJson (sFrozen (gState t)))]) in
       if sFrozen (gState s) = None then Inr (Commit (EFreeze reason by) (\<lambda>t. Inr (view t)))
       else Inr (Answer (view s)))))"

definition castPolicy :: "json \<Rightarrow> rat policy res" where
  "castPolicy raw =
     andThen (obj (Some raw) ''args'') (\<lambda>a.
     andThen (obj (jfield a ''policy'') ''policy'') (\<lambda>o1.
       case policyOf o1 of None \<Rightarrow> Inl TypeErr | Some p \<Rightarrow> Inr p))"

definition checkPolicyChain :: "lib \<Rightarrow> signer \<Rightarrow> rat policy \<Rightarrow> int policy res" where
  "checkPolicyChain L s nxt =
     andThen (requireInit s) (\<lambda>(i, p).
     if version nxt \<noteq> of_int (version p + 1) then failG ''policy_version''
     else if prev nxt \<noteq> Some (policyHash L p) then failG ''policy_prev''
     else andThen (policyIssues nxt (gDev s)) (\<lambda>issues.
       if issues \<noteq> [] then Inl (SignerError ''policy_invalid'' (Some (join (CHR '','') issues))) else Inr p))"

definition policyAnswer :: "lib \<Rightarrow> int policy \<Rightarrow> json" where
  "policyAnswer L q = JObj [(''policy'', policyJson q), (''policyHash'', JStr (policyHash L q))]"

definition policyTighten :: "lib \<Rightarrow> signer \<Rightarrow> json \<Rightarrow> decision res" where
  "policyTighten L s raw =
     andThen (castPolicy raw) (\<lambda>nxt.
     andThen (checkPolicyChain L s nxt) (\<lambda>current.
     if \<not> isTightening (policyRat current) nxt then failG ''not_tightening''
     else andThen (policyInt nxt) (\<lambda>q. Inr (Commit (EPolicy q ''app'') (\<lambda>_. Inr (policyAnswer L q))))))"

definition policySet :: "lib \<Rightarrow> signer \<Rightarrow> json \<Rightarrow> decision res" where
  "policySet L s raw =
     andThen (castPolicy raw) (\<lambda>nxt.
     andThen (checkPolicyChain L s nxt) (\<lambda>current.
     andThen (policyInt nxt) (\<lambda>q. Inr (Commit (EPolicy q ''admin'') (\<lambda>_. Inr (policyAnswer L q))))))"

definition unfreeze :: "signer \<Rightarrow> decision res" where
  "unfreeze s =
     andThen (requireInit s) (\<lambda>_.
       let v = JObj [(''frozen'', JNull)] in
       if sFrozen (gState s) \<noteq> None then Inr (Commit EUnfreeze (\<lambda>_. Inr v)) else Inr (Answer v))"

section \<open>Security keys\<close>

definition enrolOf :: "signer \<Rightarrow> json option \<Rightarrow> (string \<times> enrolRecord) res" where
  "enrolOf s v =
     andThen (hex128 v ''enrolId'') (\<lambda>i.
       case mapGet (sEnrolments (gState s)) i of None \<Rightarrow> failG ''enrol_unknown'' | Some en \<Rightarrow> Inr (i, en))"

definition enrolInfo :: "signer \<Rightarrow> json \<Rightarrow> json res" where
  "enrolInfo s raw =
     andThen (obj (Some raw) ''args'') (\<lambda>a.
     andThen (requireInit s) (\<lambda>(i, p).
     andThen (enrolOf s (jfield a ''enrolId'')) (\<lambda>(d, en).
       Inr (JObj [(''enrolId'', JStr d), (''person'', JStr (nPerson en)), (''expiresAt'', JInt (nExpiresAt en)), (''done'', JBool (nDone en)),
         (''rpId'', JStr (inRpId i)), (''exclude'', JArr (map JStr (mapKeys (sKeys (gState s)))))]))))"

definition enrolArgs :: "string \<Rightarrow> (string \<times> json) list \<Rightarrow> enrolInput res" where
  "enrolArgs d a =
     andThen (b64uStr (jfield a ''credId'') ''credId'' 1400) (\<lambda>c.
     andThen (b64uStr (jfield a ''spki'') ''spki'' 200) (\<lambda>sp.
     andThen (b64uStr (jfield a ''authenticatorData'') ''authenticatorData'' 4096) (\<lambda>ad.
     andThen (b64uStr (jfield a ''clientDataJSON'') ''clientDataJSON'' 4096) (\<lambda>cdj.
     andThen (b64uStr (jfield a ''mac'') ''mac'' 64) (\<lambda>mac.
       Inr \<lparr>eiEnrolId = d, eiCredId = c, eiSpki = sp, eiAuthenticatorData = ad, eiClientDataJSON = cdj, eiMac = mac\<rparr>)))))"

definition enrolFinish :: "lib \<Rightarrow> env \<Rightarrow> signer \<Rightarrow> json \<Rightarrow> decision res" where
  "enrolFinish L E s raw =
     andThen (obj (Some raw) ''args'') (\<lambda>a.
     andThen (requireInit s) (\<lambda>(i, p).
     andThen (enrolOf s (jfield a ''enrolId'')) (\<lambda>(d, en).
     if nDone en then failG ''enrol_done''
     else if eNow E > nExpiresAt en then failG ''enrol_expired''
     else andThen (webauthnErrors (andThen (enrolArgs d a) (\<lambda>x. verifyEnrolment L x (inRpId i) (inOrigin i) (nSecret en)))) (\<lambda>out.
     if enCredId out \<in> set (mapKeys (sKeys (gState s))) then failG ''key_exists''
     else Inr (Commit (EKey d (nPerson en) (enCredId out) (enSpki out) (enAaguid out) (enCounter out)) (\<lambda>t.
       Inr (JObj [(''person'', JStr (nPerson en)), (''credId'', JStr (enCredId out)),
         (''activeKeys'', JInt (getOr (activeKeysByPerson (gState t)) (nPerson en) 0)),
         (''soloMinKeys'', JInt (case sPolicy (gState t) of None \<Rightarrow> 2 | Some q \<Rightarrow> soloMinKeys q))])))))))"

definition enrolStart :: "env \<Rightarrow> signer \<Rightarrow> json \<Rightarrow> decision res" where
  "enrolStart E s raw =
     andThen (obj (Some raw) ''args'') (\<lambda>a.
     andThen (requireInit s) (\<lambda>(i, p).
     andThen (uuid (jfield a ''person'') ''person'') (\<lambda>person.
     andThen (if jfield a ''ttlSec'' = None then Inr 3600 else intArg (jfield a ''ttlSec'') ''ttlSec'' 300 86400) (\<lambda>ttl.
       let enrolId = hexEncode (eRand E 0 16); secret = hexEncode (eRand E 1 32); expiresAt = eNow E + ttl in
       Inr (Commit (EEnrolStart enrolId person secret expiresAt) (\<lambda>_.
         Inr (JObj [(''enrolId'', JStr enrolId), (''person'', JStr person), (''expiresAt'', JInt expiresAt),
           (''url'', JStr (inOrigin i @ ''/enrol.html#e='' @ enrolId @ ''&t='' @ secret @ ''&p='' @ person))])))))))"

definition keyRevoke :: "signer \<Rightarrow> json \<Rightarrow> decision res" where
  "keyRevoke s raw =
     andThen (obj (Some raw) ''args'') (\<lambda>a.
     andThen (b64uStr (jfield a ''credId'') ''credId'' 1400) (\<lambda>credId.
     case mapGet (sKeys (gState s)) credId of None \<Rightarrow> failG ''key_unknown''
     | Some k \<Rightarrow>
         let v = JObj [(''credId'', JStr credId), (''active'', JBool False)] in
         if kActive k then Inr (Commit (EKeyRevoked credId) (\<lambda>_. Inr v)) else Inr (Answer v)))"

section \<open>Seeds\<close>

text \<open>The first network of the list that is live or has a seed already decides.\<close>

fun networksFree :: "lib \<Rightarrow> signer \<Rightarrow> string list \<Rightarrow> unit res" where
  "networksFree L s [] = Inr ()"
| "networksFree L s (n # ns) =
     andThen (networkLive n) (\<lambda>l.
       if l then failG ''live_off''
       else if ringFingerprint L (gRing s) n \<noteq> None then failG ''network_exists''
       else networksFree L s ns)"

definition entropyFor :: "lib \<Rightarrow> env \<Rightarrow> string option \<Rightarrow> string list \<Rightarrow> (string, bytes) jsmap" where
  "entropyFor L E dice nets =
     foldl (\<lambda>m x. mapSet m (snd x) (newEntropy L dice (eRand E (fst x) 32))) [] (List.enumerate 0 nets)"

definition seedPrepare :: "lib \<Rightarrow> env \<Rightarrow> signer \<Rightarrow> json \<Rightarrow> signer \<times> json res" where
  "seedPrepare L E s raw =
     (let checked =
        andThen (obj (Some raw) ''args'') (\<lambda>a.
        andThen (case jfield a ''networks'' of Some (JArr xs) \<Rightarrow> if xs = [] then bad ''networks'' else Inr xs | _ \<Rightarrow> bad ''networks'') (\<lambda>xs.
        andThen (mapR (\<lambda>x. networkArg (Some x)) xs) (\<lambda>nets.
        andThen (networksFree L s nets) (\<lambda>_.
        andThen (case jfield a ''dice'' of None \<Rightarrow> Inr None
                 | Some v \<Rightarrow> andThen (shortText L 400 (Some v) ''dice'') (\<lambda>d. Inr (Some d))) (\<lambda>dice. Inr (nets, dice)))))) in
      case checked of Inl e \<Rightarrow> (s, Inl e)
      | Inr (nets, dice) \<Rightarrow>
          let entropy = entropyFor L E dice nets; token = hexEncode (eRand E (length nets) 16) in
          (s\<lparr>gPrepared := Some \<lparr>ppToken = token, ppEntropy = entropy, ppExpiresAt = eNow E + 15 * 60\<rparr>\<rparr>,
           andThen (mapR (\<lambda>(n, e). andThen (fingerprintOf L n e) (\<lambda>f. Inr (n, JStr f))) entropy) (\<lambda>fps.
             Inr (JObj [(''token'', JStr token), (''words'', JObj (map (\<lambda>(n, e). (n, JStr (mnemonicOf L e))) entropy)),
               (''fingerprints'', JObj fps)]))))"

fun checkWords :: "string \<Rightarrow> string list \<Rightarrow> (string \<times> json) list \<Rightarrow> unit res" where
  "checkWords n ws [] = Inr ()"
| "checkWords n ws ((pos, v) # kvs) =
     (case toNumber pos of
        Some r \<Rightarrow>
          if \<not> isInteger r \<or> r < 1 \<or> r > 24 then bad (''checks.'' @ n)
          else let idx = nat \<lfloor>r\<rfloor> in
          if idx \<le> length ws \<and> map_option (\<lambda>t. toLowerCase (trim t)) (wordText v) = Some (ws ! (idx - 1)) then checkWords n ws kvs
          else Inl (SignerError ''word_mismatch'' (Some (n @ '':'' @ show_int \<lfloor>r\<rfloor>)))
      | None \<Rightarrow> bad (''checks.'' @ n))"

fun checkAll :: "lib \<Rightarrow> (string \<times> json) list \<Rightarrow> (string, bytes) jsmap \<Rightarrow> unit res" where
  "checkAll L checks [] = Inr ()"
| "checkAll L checks ((n, e) # es) =
     andThen (obj (jfield checks n) (''checks.'' @ n)) (\<lambda>c.
     if length c < 3 then bad (''checks.'' @ n)
     else andThen (checkWords n (split_on (CHR '' '') (mnemonicOf L e)) (objectEntries c)) (\<lambda>_. checkAll L checks es))"

definition checkPrepared :: "lib \<Rightarrow> env \<Rightarrow> signer \<Rightarrow> (string \<times> json) list \<Rightarrow> preparedT res" where
  "checkPrepared L E s a =
     (case gPrepared s of None \<Rightarrow> failG ''prepare_expired''
      | Some p \<Rightarrow>
          andThen (hex128 (jfield a ''token'') ''token'') (\<lambda>t.
          if ppToken p \<noteq> t \<or> eNow E > ppExpiresAt p then failG ''prepare_expired''
          else andThen (obj (jfield a ''checks'') ''checks'') (\<lambda>checks.
          andThen (checkAll L checks (ppEntropy p)) (\<lambda>_. Inr p))))"

definition sealAll :: "lib \<Rightarrow> env \<Rightarrow> bytes \<Rightarrow> seedFile \<Rightarrow> (string, bytes) jsmap \<Rightarrow> seedFile res" where
  "sealAll L E kek file es =
     andThen (mapR (\<lambda>(i, n, e). andThen (sealSeed L kek n e (eRand E i 12)) (\<lambda>x. Inr (n, x))) (List.enumerate 0 es)) (\<lambda>xs.
       Inr (foldl (\<lambda>m (n, x). mapSet m n x) file xs))"

definition takePrepared :: "lib \<Rightarrow> env \<Rightarrow> signer \<Rightarrow> (string \<times> json) list \<Rightarrow> signer \<times> strmap res" where
  "takePrepared L E s a =
     (case checkPrepared L E s a of Inl e \<Rightarrow> (s, Inl e)
      | Inr p \<Rightarrow>
          let s1 = s\<lparr>gPrepared := None\<rparr> in
          (case sealAll L E (gKek s) (gSeedFile s) (ppEntropy p) of Inl e \<Rightarrow> (s1, Inl e)
           | Inr f \<Rightarrow>
               let s2 = s1\<lparr>gSeedFile := f\<rparr> in
               (case ringLoad L f (gKek s) of Inl e \<Rightarrow> (s2, Inl e)
                | Inr ring \<Rightarrow>
                    let s3 = s2\<lparr>gRing := ring\<rparr> in
                    (s3, andThen (selfTest L ring) (\<lambda>_.
                       mapR (\<lambda>(n, e). andThen (fingerprintOf L n e) (\<lambda>fp. Inr (n, fp))) (ppEntropy p))))))"

section \<open>Set-up and networks\<close>

definition initArgs :: "lib \<Rightarrow> signer \<Rightarrow> json \<Rightarrow> ((string \<times> json) list \<times> string \<times> string \<times> string) res" where
  "initArgs L s raw =
     andThen (obj (Some raw) ''args'') (\<lambda>a.
     if sInit (gState s) \<noteq> None then failG ''already_initialized''
     else andThen (uuid (jfield a ''orgId'') ''orgId'') (\<lambda>orgId.
     andThen (rpIdOf (jfield a ''rpId'')) (\<lambda>rpId.
     andThen (originOf (if jfield a ''origin'' \<in> {None, Some JNull} then Some (JStr (''https://'' @ rpId)) else jfield a ''origin'')) (\<lambda>origin.
     if urlHostname L origin \<noteq> rpId then bad ''origin'' else Inr (a, orgId, rpId, origin)))))"

definition initCommit :: "lib \<Rightarrow> env \<Rightarrow> signer \<Rightarrow> json \<Rightarrow> signer \<times> json res" where
  "initCommit L E s raw =
     (case initArgs L s raw of Inl e \<Rightarrow> (s, Inl e)
      | Inr (a, orgId, rpId, origin) \<Rightarrow>
          (case takePrepared L E s a of (t, Inl e) \<Rightarrow> (t, Inl e)
           | (t, Inr fps) \<Rightarrow>
               let p = defaultPolicy (mapKeys fps) (gDev s) in
               runD L E t (Inr (Commit
                 (EInit \<lparr>inOrgId = orgId, inRpId = rpId, inOrigin = origin, inDev = gDev s, inFingerprints = sort_key fst fps, inPolicy = p\<rparr>)
                 (\<lambda>_. Inr (JObj [(''orgId'', JStr orgId), (''rpId'', JStr rpId), (''origin'', JStr origin), (''fingerprints'', strmapJson fps),
                   (''policy'', policyJson p)]))))))"

fun recordNetworks :: "lib \<Rightarrow> env \<Rightarrow> signer \<Rightarrow> strmap \<Rightarrow> signer \<times> unit res" where
  "recordNetworks L E s [] = (s, Inr ())"
| "recordNetworks L E s ((n, f) # fs) =
     (case recordEvent L E s (ENetworkAdded n f) of (t, Inl e) \<Rightarrow> (t, Inl e) | (t, Inr _) \<Rightarrow> recordNetworks L E t fs)"

definition networkCommit :: "lib \<Rightarrow> env \<Rightarrow> signer \<Rightarrow> json \<Rightarrow> signer \<times> json res" where
  "networkCommit L E s raw =
     (case andThen (requireInit s) (\<lambda>_. obj (Some raw) ''args'') of Inl e \<Rightarrow> (s, Inl e)
      | Inr a \<Rightarrow>
          (case takePrepared L E s a of (t, Inl e) \<Rightarrow> (t, Inl e)
           | (t, Inr fps) \<Rightarrow>
               (case recordNetworks L E t fps of (u, Inl e) \<Rightarrow> (u, Inl e)
                | (u, Inr _) \<Rightarrow> (u, Inr (JObj [(''fingerprints'', strmapJson fps)])))))"

section \<open>Checking, exporting, changing the key\<close>

definition journalVerify :: "lib \<Rightarrow> signer \<Rightarrow> json res" where
  "journalVerify L s =
     andThen (parseJournal L (jFile (gJournal s))) (\<lambda>pj.
     andThen (entryEvents (pjEntries pj)) (\<lambda>evs.
     andThen (replay L evs) (\<lambda>st.
       Inr (JObj [(''ok'', JBool (pjHead pj = jHead (gJournal s) \<and> pjTornBytes pj = 0)), (''seq'', JInt (pjSeq pj)),
         (''head'', JStr (pjHead pj)), (''intents'', JInt (int (length (sIntents st)))), (''keys'', JInt (int (length (sKeys st))))]))))"

definition exportXpubs :: "signer \<Rightarrow> json" where
  "exportXpubs s = JObj [(''fingerprints'', strmapJson (sFingerprints (gState s))),
     (''accounts'', JArr (map (\<lambda>a. JObj (accountFields a)) (mapValues (sAccounts (gState s)))))]"

definition rekey :: "lib \<Rightarrow> env \<Rightarrow> signer \<Rightarrow> signer \<times> json res" where
  "rekey L E s =
     (let checked =
        (case gKekNext s of None \<Rightarrow> failG ''kek_next_missing''
         | Some raw \<Rightarrow>
             (case kekOfFile raw of None \<Rightarrow> bad ''kek_next''
              | Some nxt \<Rightarrow>
                  andThen (mapR (\<lambda>(n, x). andThen (openSeed L (gKek s) n x) (\<lambda>e. Inr (n, e))) (gSeedFile s)) (\<lambda>es.
                  andThen (sealAll L E nxt [] es) (\<lambda>f. Inr (nxt, f))))) in
      case checked of Inl e \<Rightarrow> (s, Inl e)
      | Inr (nxt, f) \<Rightarrow>
          runD L E (s\<lparr>gSeedFile := f, gKek := nxt\<rparr>)
            (Inr (Commit (ERekey (sort_key fst (map (\<lambda>(n, x). (n, ssFingerprint x)) f)))
              (\<lambda>t. Inr (JObj [(''ok'', JBool True), (''fingerprints'', strmapJson (sFingerprints (gState t)))])))))"

end
