(* ===== verification/Protocol.thy ===== *)
theory Protocol
  imports Signer_Admin
begin

text \<open>
  \<open>signer/protocol.ts\<close> and the socket selection of \<open>signer/server.ts\<close>: the commands of the two
  sockets, one line of JSON to one response, and the buffering of a connection. Listening, file
  modes and the writing of responses are outside.
\<close>

section \<open>Commands\<close>

type_synonym handler = "lib \<Rightarrow> env \<Rightarrow> signer \<Rightarrow> json \<Rightarrow> signer \<times> json res"

definition runC :: "(lib \<Rightarrow> env \<Rightarrow> signer \<Rightarrow> json \<Rightarrow> decision res) \<Rightarrow> handler" where
  "runC f L E s a = runD L E s (f L E s a)"

definition APP_COMMANDS :: "(string \<times> handler) list" where
  "APP_COMMANDS = [
     (''hello'', \<lambda>L E s a. (s, Inr (hello L s))),
     (''status'', \<lambda>L E s a. (s, Inr (status L E s))),
     (''journal.head'', \<lambda>L E s a. (s, Inr (JObj (headFields s)))),
     (''account.create'', runC accountCreate),
     (''intent.create'', runC intentCreate),
     (''intent.get'', \<lambda>L E s a. (s, intentGet L s a)),
     (''approve'', runC approve),
     (''enrol.info'', \<lambda>L E s a. (s, enrolInfo s a)),
     (''enrol.finish'', runC enrolFinish),
     (''sign'', runC sign),
     (''intent.cancel'', runC (\<lambda>L E s a. intentCancel s a ''app'')),
     (''whitelist.veto'', runC (\<lambda>L E s a. whitelistVeto s a)),
     (''freeze'', runC (\<lambda>L E s a. freeze L s a ''app'')),
     (''policy.tighten'', runC (\<lambda>L E s a. policyTighten L s a)),
     (''mandate.create'', runC mandateCreate),
     (''mandate.get'', \<lambda>L E s a. (s, mandateGet L (eNow E) s a)),
     (''mandate.approve'', runC mandateApprove),
     (''mandate.revoke'', runC (\<lambda>L E s a. mandateRevoke E s a ''app''))]"

definition ADMIN_COMMANDS :: "(string \<times> handler) list" where
  "ADMIN_COMMANDS = [
     (''hello'', \<lambda>L E s a. (s, Inr (hello L s))),
     (''status'', \<lambda>L E s a. (s, Inr (status L E s))),
     (''journal.head'', \<lambda>L E s a. (s, Inr (JObj (headFields s)))),
     (''journal.verify'', \<lambda>L E s a. (s, journalVerify L s)),
     (''seed.prepare'', seedPrepare),
     (''init.commit'', initCommit),
     (''network.commit'', networkCommit),
     (''enrol.start'', runC (\<lambda>L E s a. enrolStart E s a)),
     (''enrol.info'', \<lambda>L E s a. (s, enrolInfo s a)),
     (''key.revoke'', runC (\<lambda>L E s a. keyRevoke s a)),
     (''policy.set'', runC (\<lambda>L E s a. policySet L s a)),
     (''freeze'', runC (\<lambda>L E s a. freeze L s a ''admin'')),
     (''unfreeze'', runC (\<lambda>L E s a. unfreeze s)),
     (''intent.cancel'', runC (\<lambda>L E s a. intentCancel s a ''admin'')),
     (''mandate.revoke'', runC (\<lambda>L E s a. mandateRevoke E s a ''admin'')),
     (''export-xpubs'', \<lambda>L E s a. (s, Inr (exportXpubs s))),
     (''rekey'', \<lambda>L E s a. rekey L E s)]"

section \<open>One line\<close>

definition errorJson :: "exn \<Rightarrow> json" where
  "errorJson e =
     (case e of
        SignerError c d \<Rightarrow> JObj ((''code'', JStr c) # (case d of None \<Rightarrow> [] | Some t \<Rightarrow> if t = [] then [] else [(''detail'', JStr t)]))
      | _ \<Rightarrow> JObj [(''code'', JStr ''internal'')])"

definition response :: "json \<Rightarrow> signer \<Rightarrow> json res \<Rightarrow> json" where
  "response i s r =
     JObj ([(''id'', i)] @
       (case r of Inr v \<Rightarrow> [(''ok'', JBool True), (''result'', v)] | Inl e \<Rightarrow> [(''ok'', JBool False), (''error'', errorJson e)]) @
       headFields s)"

definition idOf :: "(string \<times> json) list \<Rightarrow> json" where
  "idOf o1 = (case jfield o1 ''id'' of Some (JStr t) \<Rightarrow> JStr t | Some (JNum r) \<Rightarrow> JNum r | _ \<Rightarrow> JNull)"

definition argsOf :: "(string \<times> json) list \<Rightarrow> json" where
  "argsOf o1 = (case jfield o1 ''args'' of None \<Rightarrow> JObj [] | Some JNull \<Rightarrow> JObj [] | Some v \<Rightarrow> v)"

definition commandOf :: "(string \<times> handler) list \<Rightarrow> (string \<times> json) list \<Rightarrow> handler option" where
  "commandOf commands o1 = (case jfield o1 ''cmd'' of Some (JStr c) \<Rightarrow> map_of commands c | _ \<Rightarrow> None)"

definition handleLine :: "(string \<times> handler) list \<Rightarrow> lib \<Rightarrow> env \<Rightarrow> signer \<Rightarrow> string \<Rightarrow> signer \<times> json" where
  "handleLine commands L E s line =
     (case jsonParse line of
        None \<Rightarrow> (s, response JNull s (bad ''json''))
      | Some (JObj o1) \<Rightarrow>
          (case commandOf commands o1 of
             None \<Rightarrow> (s, response (idOf o1) s (failG ''unknown_command''))
           | Some h \<Rightarrow> let (t, r) = h L E s (argsOf o1) in (t, response (idOf o1) t r))
      | Some _ \<Rightarrow> (s, response JNull s (bad ''line'')))"

section \<open>A connection\<close>

text \<open>
  The buffer of a connection; \<open>Destroyed\<close> and \<open>Ended\<close> are the two ways the server closes it. The
  environment of the \<open>n\<close>-th line handled is \<open>Es n\<close>.
\<close>

datatype connState = Open string | Destroyed | Ended

record conn =
  cnSigner :: signer
  cnCount :: nat
  cnOut :: "json list"
  cnState :: connState

fun serveLines :: "(string \<times> handler) list \<Rightarrow> lib \<Rightarrow> (nat \<Rightarrow> env) \<Rightarrow> signer \<Rightarrow> nat \<Rightarrow> json list \<Rightarrow> string list \<Rightarrow> string \<Rightarrow> conn" where
  "serveLines C L Es s n out [] rest =
     (if int (utf16Length rest) > MAX_LINE
      then \<lparr>cnSigner = s, cnCount = n, cnOut = out @ [response JNull s (failG ''line_too_long'')], cnState = Ended\<rparr>
      else \<lparr>cnSigner = s, cnCount = n, cnOut = out, cnState = Open rest\<rparr>)"
| "serveLines C L Es s n out (l # ls) rest =
     (if int (utf16Length l) > MAX_LINE then \<lparr>cnSigner = s, cnCount = n, cnOut = out, cnState = Destroyed\<rparr>
      else if trim l = [] then serveLines C L Es s n out ls rest
      else let (t, r) = handleLine C L (Es n) s l in serveLines C L Es t (Suc n) (out @ [r]) ls rest)"

definition onData :: "(string \<times> handler) list \<Rightarrow> lib \<Rightarrow> (nat \<Rightarrow> env) \<Rightarrow> conn \<Rightarrow> string \<Rightarrow> conn" where
  "onData C L Es c chunk =
     (case cnState c of
        Open buf \<Rightarrow>
          (let parts = split_on (CHR 0x0A) (buf @ chunk) in
           serveLines C L Es (cnSigner c) (cnCount c) (cnOut c) (butlast parts) (last parts))
      | _ \<Rightarrow> c)"

section \<open>Sockets handed over by systemd\<close>

text \<open>\<open>Number(env.X)\<close> of a missing variable is \<open>NaN\<close>; \<open>for (i = 0; i < count; ...)\<close> runs \<open>count\<close> rounded up times.\<close>

definition systemdFds :: "string list \<Rightarrow> nat \<Rightarrow> (string, int) jsmap" where
  "systemdFds names n = foldl (\<lambda>m i. mapSet m (if i < length names then names ! i else []) (3 + int i)) [] [0..<n]"

definition systemdSockets :: "strmap \<Rightarrow> int \<Rightarrow> (int \<times> int) option" where
  "systemdSockets envv pid =
     (if Option.bind (mapGet envv ''LISTEN_PID'') toNumber \<noteq> Some (of_int pid) then None
      else
        let count = (case mapGet envv ''LISTEN_FDS'' of None \<Rightarrow> 0 | Some t \<Rightarrow> (case toNumber t of None \<Rightarrow> 0 | Some r \<Rightarrow> nat \<lceil>r\<rceil>));
            names = split_on (CHR '':'') (getOr envv ''LISTEN_FDNAMES'' []);
            fds = systemdFds names count in
        case (mapGet fds ''app'', mapGet fds ''admin'') of (Some a, Some b) \<Rightarrow> Some (a, b) | _ \<Rightarrow> None)"

end
