(* ===== verification/Signer_Facts.thy ===== *)
theory Signer_Facts
  imports Protocol
begin

text \<open>
  What the commands of the signer guarantee when they record an event, and what an event changes:
  the facts from which the invariants and safety properties of the signer follow.
\<close>

section \<open>Failing branches\<close>

lemma failG_ne [simp]: "failG c \<noteq> Inr x" "failG c = Inl e \<longleftrightarrow> e = SignerError c None"
  by (auto simp: failG_def)

lemma bad_ne [simp]: "bad c \<noteq> Inr x"
  by (simp add: bad_def)

lemma if_failG: "(if b then failG e else m) = Inr y \<longleftrightarrow> \<not> b \<and> m = Inr y"
  by simp

lemma if_bad: "(if b then bad e else m) = Inr y \<longleftrightarrow> \<not> b \<and> m = Inr y"
  by simp

lemma case_None_failG: "(case v of None \<Rightarrow> failG e | Some x \<Rightarrow> f x) = Inr y \<longleftrightarrow> (\<exists>x. v = Some x \<and> f x = Inr y)"
  by (cases v) auto

lemma case_None_bad: "(case v of None \<Rightarrow> bad e | Some x \<Rightarrow> f x) = Inr y \<longleftrightarrow> (\<exists>x. v = Some x \<and> f x = Inr y)"
  by (cases v) auto

lemma case_prod_eq: "(case p of (a, b) \<Rightarrow> f a b) = y \<longleftrightarrow> f (fst p) (snd p) = y"
  by (cases p) simp

lemmas guard_simps = andThen_eq_Inr case_None_Inl if_failG if_bad case_None_failG case_None_bad case_prod_eq if_Inl_eq_Inr

lemma Inr_Commit_eq: "Inr (Commit b k) = Inr (Commit c l) \<longleftrightarrow> b = c \<and> k = l"
  by simp

lemma requireInit_ok: "requireInit s = Inr x \<longleftrightarrow> sInit (gState s) = Some (fst x) \<and> sPolicy (gState s) = Some (snd x)"
  by (cases x) (auto simp: requireInit_def split: option.splits)

lemma requireNotFrozen_ok: "requireNotFrozen s = Inr x \<longleftrightarrow> sFrozen (gState s) = None"
  by (auto simp: requireNotFrozen_def)

lemma intentOf_ok: "intentOf s v = Inr r \<longleftrightarrow> (\<exists>i. v = Some (JStr i) \<and> re_hexn 32 i \<and> mapGet (sIntents (gState s)) i = Some r)"
  by (auto simp: intentOf_def hex128_def exn_simps split: option.splits)

lemma mandateOf_ok: "mandateOf s v = Inr m \<longleftrightarrow> (\<exists>i. v = Some (JStr i) \<and> re_uuid i \<and> mapGet (sMandates (gState s)) i = Some m)"
  by (auto simp: mandateOf_def uuid_def exn_simps split: option.splits)

lemma activeKey_ok: "activeKey s c = Inr k \<longleftrightarrow> mapGet (sKeys (gState s)) c = Some k \<and> kActive k"
  by (auto simp: activeKey_def split: option.splits)

lemma checkNetwork_ok: "checkNetwork L s n p = Inr u \<longleftrightarrow> n \<in> set (networks p) \<and> networkLive n = Inr False \<and> ringFingerprint L (gRing s) n \<noteq> None"
  unfolding checkNetwork_def guard_simps by auto

section \<open>Carrying out a decision\<close>

lemma journalAppend_event: "journalAppend L j tm b = Inr (j', ev) \<Longrightarrow> evAt ev = tm \<and> evBody ev = b \<and> evSeq ev = jSeq j + 1"
  by (erule journalAppend_ok) simp

text \<open>The state after: unchanged, or the event applied.\<close>

lemma recordEvent_state:
  assumes "recordEvent L E s b = (t, r)"
  shows "(gState t = gState s \<and> (\<exists>e. r = Inl e)) \<or> (applyBody L (gState s) (eAt E) b = Inr (gState t) \<and> (\<exists>ev. r = Inr ev))"
  using assms journalAppend_event [of L "gJournal s" "eAt E" b]
  by (auto simp: recordEvent_def apply_event_def split: sum.splits)

lemma recordEvent_frame:
  "recordEvent L E s b = (t, r) \<Longrightarrow> gRing t = gRing s \<and> gDev t = gDev s \<and> gSeedFile t = gSeedFile s \<and> gKek t = gKek s"
  by (auto simp: recordEvent_def split: sum.splits)

lemma runD_state:
  assumes "runD L E s d = (t, r)"
  shows "gState t = gState s \<or> (\<exists>b k. d = Inr (Commit b k) \<and> applyBody L (gState s) (eAt E) b = Inr (gState t))"
proof (cases d)
  case (Inl e)
  with assms show ?thesis by (simp add: runD_def)
next
  case (Inr c)
  show ?thesis
  proof (cases c)
    case (Answer v)
    with assms Inr show ?thesis by (simp add: runD_def)
  next
    case (Commit b k)
    obtain t' r' where t: "recordEvent L E s b = (t', r')" by fastforce
    then have "t' = t" using assms Inr Commit by (auto simp: runD_def split: sum.splits)
    with recordEvent_state [OF t] Inr Commit show ?thesis by blast
  qed
qed

section \<open>What an event changes\<close>

lemma mapGet_mapUpdate: "mapGet (mapUpdate m k f) x = (if x = k then map_option f (mapGet m x) else mapGet m x)"
  by (auto simp: mapUpdate_def split: option.splits)

text \<open>The parts of a record that only \<open>signed\<close> and the creation of an intent write.\<close>

definition sameCore :: "intentRecord \<Rightarrow> intentRecord \<Rightarrow> bool" where
  "sameCore r q \<longleftrightarrow> rIntentId q = rIntentId r \<and> rIntent q = rIntent r \<and> rSignatures q = rSignatures r \<and> rMandateId q = rMandateId r \<and>
     rText q = rText r \<and> rCreatedAt q = rCreatedAt r"

lemma sameCore_refl [simp]: "sameCore r r"
  by (simp add: sameCore_def)

lemma settle_sameCore [simp]: "sameCore r (settle s r tm)"
  by (simp add: settle_def sameCore_def Let_def split: option.split)

lemma sameCore_trans: "sameCore a b \<Longrightarrow> sameCore b c \<Longrightarrow> sameCore a c"
  by (simp add: sameCore_def)

lemma applyApproval_intents:
  assumes "mapGet (sIntents (applyApproval s tm i c p n)) x = Some q"
  shows "\<exists>r. mapGet (sIntents s) x = Some r \<and> sameCore r q"
proof (cases "mapGet (sIntents s) i")
  case None
  with assms show ?thesis by (auto simp: applyApproval_def Let_def)
next
  case (Some r)
  let ?r1 = "r\<lparr>rApprovals := rApprovals r @ [\<lparr>apCredId = c, apPerson = p, apAt = tm\<rparr>]\<rparr>"
  have "sameCore r ?r1" by (simp add: sameCore_def)
  with assms Some show ?thesis
    by (auto simp: applyApproval_def Let_def split: if_splits intro: sameCore_trans)
qed

lemma applyIntent_intents:
  assumes "applyIntent L s tm i txt m = Inr s'" "mapGet (sIntents s') x = Some q"
  shows "mapGet (sIntents s) x = Some q \<or>
    (x = i \<and> (\<exists>it. parseIntent L txt = Inr it \<and> rIntentId q = i \<and> rIntent q = it \<and> rText q = txt \<and> rSignatures q = [] \<and> rMandateId q = m \<and> rCreatedAt q = tm))"
  using assms settle_sameCore by (auto simp: applyIntent_def exn_simps newRecord_def sameCore_def Let_def split: if_splits)

lemma noteNonce_parts [simp]: "sIntents (noteNonce s a n) = sIntents s" "sReserved (noteNonce s a n) = sReserved s"
  "sAccounts (noteNonce s a n) = sAccounts s" "sMandates (noteNonce s a n) = sMandates s" "sKeys (noteNonce s a n) = sKeys s"
  "sPolicy (noteNonce s a n) = sPolicy s" "sFrozen (noteNonce s a n) = sFrozen s" "sInit (noteNonce s a n) = sInit s"
  by (simp_all add: noteNonce_def split: option.split)

lemma noteChange_parts [simp]: "sIntents (noteChange s a c) = sIntents s" "sReserved (noteChange s a c) = sReserved s"
  "sNonces (noteChange s a c) = sNonces s" "sAccounts (noteChange s a c) = sAccounts s" "sMandates (noteChange s a c) = sMandates s"
  "sKeys (noteChange s a c) = sKeys s" "sPolicy (noteChange s a c) = sPolicy s" "sFrozen (noteChange s a c) = sFrozen s" "sInit (noteChange s a c) = sInit s"
  by (simp_all add: noteChange_def split: option.split)

lemma applySigned_parts:
  assumes "applySigned s tm g = Inr s'"
  shows "sIntents s' = mapUpdate (sIntents s) (sgIntentId g) (\<lambda>r. r\<lparr>rSignatures := rSignatures r @ [(tm, g)]\<rparr>)"
    "sReserved s' = foldl (\<lambda>m o1. mapSet m o1 (sgIntentId g)) (sReserved s) (case sgOutpoints g of None \<Rightarrow> [] | Some os \<Rightarrow> os)"
    "sAccounts s' = sAccounts s" "sMandates s' = sMandates s" "sKeys s' = sKeys s" "sPolicy s' = sPolicy s" "sFrozen s' = sFrozen s" "sInit s' = sInit s"
  using assms by (auto simp: applySigned_def Let_def exn_simps split: option.splits)

lemma noteChange_nonces: "sNonces (noteChange s a c) = sNonces s"
  by (simp add: noteChange_def split: option.split)

lemma noteNonce_nonces:
  "sNonces (noteNonce s a n) = (case mapGet (sNonces s) a of None \<Rightarrow> mapSet (sNonces s) a n
     | Some prv \<Rightarrow> if n > prv then mapSet (sNonces s) a n else sNonces s)"
  by (simp add: noteNonce_def split: option.split)

lemma applySigned_nonces:
  assumes "applySigned s tm g = Inr s'"
  shows "sNonces s' = (case sgNonce g of None \<Rightarrow> sNonces s
     | Some t \<Rightarrow> (case toBigInt t of Inl _ \<Rightarrow> sNonces s
        | Inr n \<Rightarrow> (case mapGet (sNonces s) (sgAccountId g) of Some prv \<Rightarrow> if n > prv then mapSet (sNonces s) (sgAccountId g) n else sNonces s
            | None \<Rightarrow> mapSet (sNonces s) (sgAccountId g) n)))"
proof (cases "sgNonce g")
  case None
  then show ?thesis using assms by (auto simp: applySigned_def Let_def noteChange_nonces)
next
  case (Some t)
  then show ?thesis using assms by (cases "toBigInt t"; cases "mapGet (sNonces s) (sgAccountId g)") (auto simp: applySigned_def Let_def noteChange_nonces noteNonce_nonces)
qed

lemma mapGet_reserved: "mapGet (foldl (\<lambda>m o1. mapSet m o1 i) m os) x = (if x \<in> set os then Some i else mapGet m x)"
  by (induction os arbitrary: m) auto

text \<open>Events other than \<open>signed\<close> and \<open>intent\<close> keep signatures, reservations and nonces.\<close>

lemma applyBody_other:
  assumes "applyBody L s tm b = Inr s'" "\<And>g. b \<noteq> ESigned g"
  shows "sReserved s' = sReserved s \<and> sNonces s' = sNonces s"
proof (cases b)
  case (EIntent i t m)
  with assms show ?thesis by (auto simp: applyBody_def applyIntent_def exn_simps Let_def split: if_splits)
qed (use assms in \<open>auto simp: applyBody_def applyAccount_def applyKey_def applyApproval_def applyMandate_def applyMandateApproval_def Let_def
       split: option.splits sum.splits\<close>)

lemma applyBody_intents:
  assumes "applyBody L s tm b = Inr s'" "mapGet (sIntents s') x = Some q" "\<And>g. b \<noteq> ESigned g"
  shows "(\<exists>r. mapGet (sIntents s) x = Some r \<and> sameCore r q) \<or>
    (\<exists>txt m it. b = EIntent x txt m \<and> parseIntent L txt = Inr it \<and> rIntentId q = x \<and> rIntent q = it \<and> rText q = txt \<and> rSignatures q = [] \<and> rMandateId q = m \<and> rCreatedAt q = tm)"
proof (cases b)
  case (EIntent i t m)
  with assms show ?thesis using applyIntent_intents [of L s tm i t m s' x q] by (auto simp: applyBody_def)
next
  case (EApproval i c p n)
  with assms applyApproval_intents [of s tm i c p n x q] show ?thesis by (auto simp: applyBody_def)
next
  case (ECancel i y)
  with assms show ?thesis by (auto simp: applyBody_def mapGet_mapUpdate sameCore_def split: if_splits)
next
  case (EVeto i)
  with assms show ?thesis by (auto simp: applyBody_def mapGet_mapUpdate sameCore_def split: if_splits)
next
  case (ESigned g)
  with assms(3) show ?thesis by blast
qed (use assms in \<open>auto simp: applyBody_def applyAccount_def applyKey_def applyMandate_def applyMandateApproval_def Let_def
       split: option.splits sum.splits\<close>)

section \<open>Signing\<close>

lemma isMode_simps [simp]: "isMode (JStr m) w \<longleftrightarrow> m = w"
  by (simp add: isMode_def)

lemma lastSigned_None [simp]: "lastSigned r = None \<longleftrightarrow> rSignatures r = []"
  by (simp add: lastSigned_def)

lemma signer_fields_None: "v \<notin> {None, Some []} \<longleftrightarrow> (\<exists>x. v = Some x \<and> x \<noteq> [])"
  by (cases v) auto

lemma laterGuards_ok: "laterGuards first lst md = Inr u \<longleftrightarrow> first \<noteq> None \<and> lst \<noteq> None \<and> \<not> (isMode (sgMode (the lst)) ''cancel'' \<and> isMode md ''bump'')"
  by (auto simp: laterGuards_def)

text \<open>What holds when \<open>sign\<close> records a signature.\<close>

lemma sign_records:
  assumes "sign L E s raw = Inr (Commit b k)"
  obtains a ini p i r md acc account cd amt d where
    "raw = JObj a" "jfield a ''intentId'' = Some (JStr i)" "jfield a ''mode'' = Some md" "wordText md \<in> Some ` set SIGN_MODES"
    "sInit (gState s) = Some ini" "sPolicy (gState s) = Some p" "sFrozen (gState s) = None"
    "re_hexn 32 i" "mapGet (sIntents (gState s)) i = Some r"
    "iKind (rIntent r) = ''payout''" "iAccountId (rIntent r) = Some acc" "iAsset (rIntent r) = Some cd" "iAmount (rIntent r) = Some amt"
    "\<not> rCancelled r" "\<not> rVetoed r" "mapGet (sAccounts (gState s)) acc = Some account"
    "isMode md ''first'' \<Longrightarrow> rSignatures r = [] \<and> firstGuards L E s p r = Inr ()"
    "\<not> isMode md ''first'' \<Longrightarrow> laterGuards (map_option snd (firstSigned r)) (map_option snd (lastSigned r)) md = Inr ()"
    "draftFor L s r (aIndex account) md (jfield a ''plan'') p (map_option snd (firstSigned r)) (map_option snd (lastSigned r)) = Inr d"
    "b = ESigned (signedOfDraft r md account d)"
proof -
  from assms obtain a x r md where a: "raw = JObj a" and x: "sInit (gState s) = Some (fst x)" "sPolicy (gState s) = Some (snd x)"
    and fz: "sFrozen (gState s) = None" and r: "intentOf s (jfield a ''intentId'') = Inr r" and md: "modeArg (jfield a ''mode'') = Inr md"
    and pay: "iKind (rIntent r) = ''payout''" "iAccountId (rIntent r) \<notin> {None, Some []}" "iAsset (rIntent r) \<notin> {None, Some []}" "iAmount (rIntent r) \<noteq> None"
    and cl: "\<not> rCancelled r" "\<not> rVetoed r"
    and rest: "\<exists>account. mapGet (sAccounts (gState s)) (the (iAccountId (rIntent r))) = Some account \<and>
     (if isMode md ''first'' \<and> map_option snd (lastSigned r) \<noteq> None then Inr (Answer (resultOf (the (map_option snd (lastSigned r)))))
      else andThen (if isMode md ''first'' then firstGuards L E s (snd x) r
                    else laterGuards (map_option snd (firstSigned r)) (map_option snd (lastSigned r)) md) (\<lambda>_.
      andThen (draftFor L s r (aIndex account) md (jfield a ''plan'') (snd x) (map_option snd (firstSigned r)) (map_option snd (lastSigned r))) (\<lambda>d.
       Inr (Commit (ESigned (signedOfDraft r md account d)) (\<lambda>_. Inr (resultOf (signedOfDraft r md account d))))))) = Inr (Commit b k)"
    unfolding sign_def guard_simps requireInit_ok requireNotFrozen_ok obj_eq_Inr Let_def option.inject by blast
  then obtain account u d where ac: "mapGet (sAccounts (gState s)) (the (iAccountId (rIntent r))) = Some account"
    and fst: "\<not> (isMode md ''first'' \<and> rSignatures r \<noteq> [])"
    and g: "(if isMode md ''first'' then firstGuards L E s (snd x) r
             else laterGuards (map_option snd (firstSigned r)) (map_option snd (lastSigned r)) md) = Inr u"
    and d: "draftFor L s r (aIndex account) md (jfield a ''plan'') (snd x) (map_option snd (firstSigned r)) (map_option snd (lastSigned r)) = Inr d"
      "b = ESigned (signedOfDraft r md account d)"
    by (auto simp: andThen_eq_Inr split: if_splits)
  from r obtain i where i: "jfield a ''intentId'' = Some (JStr i)" "re_hexn 32 i" "mapGet (sIntents (gState s)) i = Some r"
    unfolding intentOf_ok by blast
  from pay obtain acc cd amt where p: "iAccountId (rIntent r) = Some acc" "iAsset (rIntent r) = Some cd" "iAmount (rIntent r) = Some amt"
    unfolding signer_fields_None by blast
  have w: "jfield a ''mode'' = Some md" "wordText md \<in> Some ` set SIGN_MODES"
    using md by (auto simp: modeArg_def split: option.splits if_splits)
  show thesis
    by (rule that [OF a i(1) w x fz i(2,3) pay(1) p cl _ _ _ d]) (use ac p fst g in auto)
qed

lemma btcTarget_ok:
  assumes "btcTarget L st r md inputs fee keyAt main first lst = Inr (ci, ca, dest, amount)"
  shows "isMode md ''first'' \<Longrightarrow> (\<forall>o1\<in>set (map outpointOf inputs). mapGet (sReserved st) o1 \<in> {None, Some [], Some (rIntentId r)}) \<and>
      dest = iDestination (rIntent r) \<and> amount = the (iAmount (rIntent r))"
    "\<not> isMode md ''first'' \<Longrightarrow> set (map outpointOf inputs) \<subseteq> set (case Option.bind first sgOutpoints of None \<Rightarrow> [] | Some os \<Rightarrow> os) \<and>
      (isMode md ''cancel'' \<or> (dest = iDestination (rIntent r) \<and> amount = the (iAmount (rIntent r))))"
proof -
  assume "isMode md ''first''"
  with assms show "(\<forall>o1\<in>set (map outpointOf inputs). mapGet (sReserved st) o1 \<in> {None, Some [], Some (rIntentId r)}) \<and>
      dest = iDestination (rIntent r) \<and> amount = the (iAmount (rIntent r))"
    unfolding btcTarget_def Let_def by (auto split: if_splits option.splits)
next
  assume "\<not> isMode md ''first''"
  with assms have "\<forall>o1\<in>set (map outpointOf inputs). o1 \<in> set (uniq (case Option.bind first sgOutpoints of None \<Rightarrow> [] | Some os \<Rightarrow> os))"
    "isMode md ''cancel'' \<or> (dest = iDestination (rIntent r) \<and> amount = the (iAmount (rIntent r)))"
    unfolding btcTarget_def Let_def by (auto simp: andThen_eq_Inr split: if_splits)
  then show "set (map outpointOf inputs) \<subseteq> set (case Option.bind first sgOutpoints of None \<Rightarrow> [] | Some os \<Rightarrow> os) \<and>
      (isMode md ''cancel'' \<or> (dest = iDestination (rIntent r) \<and> amount = the (iAmount (rIntent r))))"
    unfolding set_uniq by blast
qed

lemma spendErrors_ok: "spendErrors m = Inr x \<longleftrightarrow> m = Inr x"
  by (auto simp: spendErrors_def split: sum.splits exn.splits)

lemma signBtc_draft:
  assumes "signBtc L s r ai md plan p first lst = Inr d"
  obtains inputs fee keyAt main ci ca dest amount b where
    "btcKeys L (gRing s) (iNetwork (rIntent r)) ai = Inr keyAt"
    "btcTarget L (gState s) r md inputs fee keyAt main first lst = Inr (ci, ca, dest, amount)"
    "buildBtcSpend L \<lparr>bqNetwork = iNetwork (rIntent r), bqDestination = dest, bqAmount = amount, bqInputs = inputs,
          bqChangeIndex = ci, bqFee = fee, bqFeeCap = (case iFeeCap (rIntent r) of None \<Rightarrow> 0 | Some c \<Rightarrow> c),
          bqMaxSatPerVb = btcSatPerVb (feeCaps p)\<rparr> keyAt = Inr b"
    "drOutpoints d = Some (map outpointOf inputs)" "drNonce d = None" "drTxid d = bTxid b" "drRaw d = bRaw b" "drFee d = show_int (bFee b)"
proof -
  from assms obtain inputs fee keyAt main x b where "btcKeys L (gRing s) (iNetwork (rIntent r)) ai = Inr keyAt"
    "btcTarget L (gState s) r md inputs fee keyAt main first lst = Inr x"
    "buildBtcSpend L \<lparr>bqNetwork = iNetwork (rIntent r), bqDestination = fst (snd (snd x)), bqAmount = snd (snd (snd x)), bqInputs = inputs,
          bqChangeIndex = fst x, bqFee = fee, bqFeeCap = (case iFeeCap (rIntent r) of None \<Rightarrow> 0 | Some c \<Rightarrow> c),
          bqMaxSatPerVb = btcSatPerVb (feeCaps p)\<rparr> keyAt = Inr b"
    "d = \<lparr>drTxid = bTxid b, drRaw = bRaw b, drFee = show_int (bFee b), drOutpoints = Some (map outpointOf inputs),
          drChangeIndex = Some (if isMode md ''cancel'' then fst (snd x) else if bChange b > 0 then fst x else None),
          drNonce = None, drMaxFeePerGas = None, drMaxPriorityFeePerGas = None, drGasLimit = None\<rparr>"
    unfolding signBtc_def Let_def guard_simps spendErrors_ok sum.inject by blast
  then show thesis by (cases x) (rule that, simp_all)
qed

lemma ethNonceOk_ok:
  assumes "ethNonceOk st r md nonce mf mp first lst = Inr u"
  shows "isMode md ''first'' \<Longrightarrow> mapGet (sNonces st) (the (iAccountId (rIntent r))) \<in> {None, Some (nonce - 1)}"
    "\<not> isMode md ''first'' \<Longrightarrow> bigOr (-1) (Option.bind first sgNonce) = Inr nonce \<and>
      (\<exists>f0 p0. bigOr 0 (Option.bind lst sgMaxFeePerGas) = Inr f0 \<and> bigOr 0 (Option.bind lst sgMaxPriorityFeePerGas) = Inr p0 \<and>
        f0 * 11 \<le> mf * 10 \<and> p0 * 11 \<le> mp * 10)"
  using assms unfolding ethNonceOk_def by (auto simp: andThen_eq_Inr not_less split: if_splits option.splits)

lemma signEth_draft:
  assumes "signEth L s r ai md plan p first lst = Inr d"
  obtains nonce gas mf mp priv capGwei e where "0 \<le> nonce" "0 < mf"
    "ethPrivateKey L (gRing s) (iNetwork (rIntent r)) ai = Inr priv" "capBig (ethMaxFeeGwei (feeCaps p)) = Inr capGwei"
    "ethNonceOk (gState s) r md nonce mf mp first lst = Inr ()"
    "buildEthSpend L \<lparr>eqNetwork = iNetwork (rIntent r), eqAsset = (if isMode md ''cancel'' then ''ETH'' else the (iAsset (rIntent r))),
          eqDestination = (if isMode md ''cancel'' then ethFromPrivate L priv else iDestination (rIntent r)),
          eqAmount = (if isMode md ''cancel'' then 1 else the (iAmount (rIntent r))), eqNonce = nonce, eqGasLimit = gas, eqMaxFeePerGas = mf,
          eqMaxPriorityFeePerGas = mp, eqFeeCap = (case iFeeCap (rIntent r) of None \<Rightarrow> 0 | Some c \<Rightarrow> c),
          eqMaxFeePerGasCap = capGwei * GWEI\<rparr> priv = Inr e"
    "drOutpoints d = None" "drNonce d = Some (show_int nonce)" "drTxid d = ethHash e" "drRaw d = ethRaw e" "drFee d = show_int (ethMaxFee e)"
    "drMaxFeePerGas d = Some (show_int mf)" "drMaxPriorityFeePerGas d = Some (show_int mp)"
proof -
  from assms obtain nonce gas mf mp priv u capGwei e where x: "uintArg (jfield plan ''nonce'') ''nonce'' = Inr nonce"
    "posUint (jfield plan ''maxFeePerGas'') ''maxFeePerGas'' = Inr mf" and y: "ethPrivateKey L (gRing s) (iNetwork (rIntent r)) ai = Inr priv"
    "capBig (ethMaxFeeGwei (feeCaps p)) = Inr capGwei" "ethNonceOk (gState s) r md nonce mf mp first lst = Inr u"
    "buildEthSpend L \<lparr>eqNetwork = iNetwork (rIntent r), eqAsset = (if isMode md ''cancel'' then ''ETH'' else the (iAsset (rIntent r))),
          eqDestination = (if isMode md ''cancel'' then ethFromPrivate L priv else iDestination (rIntent r)),
          eqAmount = (if isMode md ''cancel'' then 1 else the (iAmount (rIntent r))), eqNonce = nonce, eqGasLimit = gas, eqMaxFeePerGas = mf,
          eqMaxPriorityFeePerGas = mp, eqFeeCap = (case iFeeCap (rIntent r) of None \<Rightarrow> 0 | Some c \<Rightarrow> c),
          eqMaxFeePerGasCap = capGwei * GWEI\<rparr> priv = Inr e"
    and d: "d = \<lparr>drTxid = ethHash e, drRaw = ethRaw e, drFee = show_int (ethMaxFee e), drOutpoints = None, drChangeIndex = None,
          drNonce = Some (show_int nonce), drMaxFeePerGas = Some (show_int mf),
          drMaxPriorityFeePerGas = Some (show_int mp), drGasLimit = Some (show_int gas)\<rparr>"
    unfolding signEth_def Let_def guard_simps spendErrors_ok sum.inject by blast
  have "ethNonceOk (gState s) r md nonce mf mp first lst = Inr ()" using y(3) by simp
  then show thesis using uintArg_nonneg [OF x(1)] posUint_pos [OF x(2)] y d by (intro that) simp_all
qed

lemma draftFor_ok:
  assumes "draftFor L s r ai md planArg p first lst = Inr d"
  obtains plan where "signBtc L s r ai md plan p first lst = Inr d" | plan where "signEth L s r ai md plan p first lst = Inr d"
  using assms unfolding draftFor_def guard_simps by (auto split: if_splits)

end
