(* ===== verification/Signer_Steps.thy ===== *)
theory Signer_Steps
  imports Signer_Facts
begin

text \<open>
  The signer as a state machine: which events the commands record (\<open>commits\<close>), one step of the state
  (\<open>sstep\<close>), and the signers that any sequence of commands on the two sockets can reach while the
  clock does not run backwards (\<open>reachable\<close>). A restart keeps the state (\<open>restart_restores_state\<close>)
  and may change everything else of the signer.
\<close>

inductive commits :: "lib \<Rightarrow> env \<Rightarrow> signer \<Rightarrow> body \<Rightarrow> bool" for L E s where
  c_account: "accountCreate L E s raw = Inr (Commit b k) \<Longrightarrow> commits L E s b"
| c_intent: "intentCreate L E s raw = Inr (Commit b k) \<Longrightarrow> commits L E s b"
| c_mandate: "mandateCreate L E s raw = Inr (Commit b k) \<Longrightarrow> commits L E s b"
| c_mandateApprove: "mandateApprove L E s raw = Inr (Commit b k) \<Longrightarrow> commits L E s b"
| c_mandateRevoke: "mandateRevoke E s raw by = Inr (Commit b k) \<Longrightarrow> commits L E s b"
| c_approve: "approve L E s raw = Inr (Commit b k) \<Longrightarrow> commits L E s b"
| c_cancel: "intentCancel s raw by = Inr (Commit b k) \<Longrightarrow> commits L E s b"
| c_veto: "whitelistVeto s raw = Inr (Commit b k) \<Longrightarrow> commits L E s b"
| c_sign: "sign L E s raw = Inr (Commit b k) \<Longrightarrow> commits L E s b"
| c_freeze: "freeze L s raw by = Inr (Commit b k) \<Longrightarrow> commits L E s b"
| c_tighten: "policyTighten L s raw = Inr (Commit b k) \<Longrightarrow> commits L E s b"
| c_enrolFinish: "enrolFinish L E s raw = Inr (Commit b k) \<Longrightarrow> commits L E s b"
| c_enrolStart: "enrolStart E s raw = Inr (Commit b k) \<Longrightarrow> commits L E s b"
| c_keyRevoke: "keyRevoke s raw = Inr (Commit b k) \<Longrightarrow> commits L E s b"
| c_policySet: "policySet L s raw = Inr (Commit b k) \<Longrightarrow> commits L E s b"
| c_unfreeze: "unfreeze s = Inr (Commit b k) \<Longrightarrow> commits L E s b"
| c_init: "sInit (gState s) = None \<Longrightarrow> commits L E s (EInit i)"
| c_network: "commits L E s (ENetworkAdded n f)"
| c_rekey: "commits L E s (ERekey f)"

inductive sstep :: "lib \<Rightarrow> env \<Rightarrow> signer \<Rightarrow> signer \<Rightarrow> bool" for L E where
  s_keep: "gState t = gState s \<Longrightarrow> sstep L E s t"
| s_commit: "commits L E s b \<Longrightarrow> applyBody L (gState s) (eAt E) b = Inr (gState t) \<Longrightarrow> sstep L E s t"

inductive reachable :: "lib \<Rightarrow> int \<Rightarrow> signer \<Rightarrow> bool" for L where
  r_start: "gState s = emptyState \<Longrightarrow> reachable L tm s"
| r_command: "reachable L tm s \<Longrightarrow> tm \<le> eNow E \<Longrightarrow> eNow E \<le> eAt E \<Longrightarrow> (c, h) \<in> set APP_COMMANDS \<union> set ADMIN_COMMANDS \<Longrightarrow>
    h L E s a = (t, r) \<Longrightarrow> reachable L (eAt E) t"
| r_restart: "reachable L tm s \<Longrightarrow> tm \<le> tn \<Longrightarrow> gState t = gState s \<Longrightarrow> reachable L tn t"

section \<open>Which command records which event\<close>

lemma account_shape: "accountCreate L E s raw = Inr (Commit b k) \<Longrightarrow> \<exists>x n i y. b = EAccount x n i y \<and> mapGet (sAccounts (gState s)) x = None"
  unfolding accountCreate_def guard_simps Let_def by (auto simp: guard_simps split: option.splits if_splits)

lemma intent_shape: "intentCreate L E s raw = Inr (Commit b k) \<Longrightarrow> \<exists>i t m. b = EIntent i t m"
  unfolding intentCreate_def guard_simps Let_def by blast

lemma mandate_shape: "mandateCreate L E s raw = Inr (Commit b k) \<Longrightarrow> \<exists>i t. b = EMandate i t \<and> mapGet (sMandates (gState s)) i = None"
  unfolding mandateCreate_def guard_simps Let_def by (auto simp: guard_simps split: option.splits if_splits)

lemma mandateApprove_shape: "mandateApprove L E s raw = Inr (Commit b k) \<Longrightarrow> \<exists>i c p n. b = EMandateApproval i c p n"
  unfolding mandateApprove_def guard_simps Let_def by blast

lemma mandateRevoke_shape: "mandateRevoke E s raw by = Inr (Commit b k) \<Longrightarrow> \<exists>i c. b = EMandateRevoked i c"
  unfolding mandateRevoke_def guard_simps Let_def by (auto split: if_splits)

lemma approve_shape: "approve L E s raw = Inr (Commit b k) \<Longrightarrow> \<exists>i c p n. b = EApproval i c p n"
  unfolding approve_def guard_simps Let_def by blast

lemma cancel_shape: "intentCancel s raw by = Inr (Commit b k) \<Longrightarrow> \<exists>i c. b = ECancel i c"
  unfolding intentCancel_def guard_simps Let_def by (auto split: if_splits)

lemma veto_shape: "whitelistVeto s raw = Inr (Commit b k) \<Longrightarrow> \<exists>i. b = EVeto i"
  unfolding whitelistVeto_def guard_simps Let_def by (auto split: if_splits)

lemma sign_shape: "sign L E s raw = Inr (Commit b k) \<Longrightarrow> \<exists>g. b = ESigned g"
  by (erule sign_records) blast

lemma freeze_shape: "freeze L s raw by = Inr (Commit b k) \<Longrightarrow> \<exists>x y. b = EFreeze x y"
  unfolding freeze_def guard_simps Let_def by (auto split: if_splits)

lemma tighten_shape: "policyTighten L s raw = Inr (Commit b k) \<Longrightarrow> \<exists>p. b = EPolicy p ''app''"
  unfolding policyTighten_def guard_simps Let_def by blast

lemma policySet_shape: "policySet L s raw = Inr (Commit b k) \<Longrightarrow> \<exists>p. b = EPolicy p ''admin''"
  unfolding policySet_def guard_simps Let_def by blast

lemma enrolFinish_shape: "enrolFinish L E s raw = Inr (Commit b k) \<Longrightarrow> \<exists>e p c x y n. b = EKey e p c x y n \<and> mapGet (sKeys (gState s)) c = None"
  unfolding enrolFinish_def guard_simps Let_def mapGet_None_iff by blast

lemma enrolStart_shape: "enrolStart E s raw = Inr (Commit b k) \<Longrightarrow> \<exists>i p x t. b = EEnrolStart i p x t"
  unfolding enrolStart_def guard_simps Let_def by blast

lemma keyRevoke_shape: "keyRevoke s raw = Inr (Commit b k) \<Longrightarrow> \<exists>c. b = EKeyRevoked c"
  unfolding keyRevoke_def guard_simps Let_def by (auto split: if_splits)

lemma unfreeze_shape: "unfreeze s = Inr (Commit b k) \<Longrightarrow> b = EUnfreeze"
  unfolding unfreeze_def guard_simps Let_def by (auto split: if_splits)

lemmas shapes = account_shape intent_shape mandate_shape mandateApprove_shape mandateRevoke_shape approve_shape cancel_shape veto_shape
  sign_shape freeze_shape tighten_shape policySet_shape enrolFinish_shape enrolStart_shape keyRevoke_shape unfreeze_shape

lemma commits_signed: "commits L E s (ESigned g) \<Longrightarrow> \<exists>raw k. sign L E s raw = Inr (Commit (ESigned g) k)"
  by (erule commits.cases) ((drule shapes, (elim exE conjE)?, simp; fail) | blast | simp)+

lemma commits_intent: "commits L E s (EIntent i t m) \<Longrightarrow> \<exists>raw k. intentCreate L E s raw = Inr (Commit (EIntent i t m) k)"
  by (erule commits.cases) ((drule shapes, (elim exE conjE)?, simp; fail) | blast | simp)+

lemma commits_approval: "commits L E s (EApproval i c p n) \<Longrightarrow> \<exists>raw k. approve L E s raw = Inr (Commit (EApproval i c p n) k)"
  by (erule commits.cases) ((drule shapes, (elim exE conjE)?, simp; fail) | blast | simp)+

lemma commits_account: "commits L E s (EAccount x n i y) \<Longrightarrow> mapGet (sAccounts (gState s)) x = None"
  by (erule commits.cases) ((drule shapes, (elim exE conjE)?, simp; fail) | blast | simp)+

lemma commits_mandate: "commits L E s (EMandate i t) \<Longrightarrow> \<exists>raw k. mandateCreate L E s raw = Inr (Commit (EMandate i t) k)"
  by (erule commits.cases) ((drule shapes, (elim exE conjE)?, simp; fail) | blast | simp)+

section \<open>Every command is a sequence of steps\<close>

definition steps :: "handler \<Rightarrow> bool" where
  "steps h \<longleftrightarrow> (\<forall>L E s a t r. h L E s a = (t, r) \<longrightarrow> (sstep L E)\<^sup>*\<^sup>* s t)"

lemma runD_sstep:
  assumes "runD L E s d = (t, r)" "\<And>b k. d = Inr (Commit b k) \<Longrightarrow> commits L E s b"
  shows "(sstep L E)\<^sup>*\<^sup>* s t"
  using runD_state [OF assms(1)] assms(2) by (blast intro: sstep.intros)

lemma runD_commit_sstep: "runD L E s (Inr (Commit b k)) = (t, r) \<Longrightarrow> commits L E s b \<Longrightarrow> (sstep L E)\<^sup>*\<^sup>* s t"
  by (erule runD_sstep) simp

lemma steps_run: "(\<And>L E s a b k. f L E s a = Inr (Commit b k) \<Longrightarrow> commits L E s b) \<Longrightarrow> steps (runC f)"
  unfolding steps_def runC_def using runD_sstep by blast

lemma steps_read: "steps (\<lambda>L E s a. (s, f L E s a))"
  by (simp add: steps_def)

lemma recordEvent_sstep: "recordEvent L E s b = (t, r) \<Longrightarrow> commits L E s b \<Longrightarrow> sstep L E s t"
  using recordEvent_state by (blast intro: sstep.intros)

lemma steps_prepare: "steps seedPrepare"
  unfolding steps_def seedPrepare_def Let_def by (auto split: sum.splits prod.splits intro!: r_into_rtranclp s_keep)

lemma takePrepared_state: "takePrepared L E s a = (t, r) \<Longrightarrow> gState t = gState s"
  by (auto simp: takePrepared_def Let_def split: sum.splits)

lemma takePrepared_steps: "takePrepared L E s a = (t, r) \<Longrightarrow> (sstep L E)\<^sup>*\<^sup>* s t"
  by (intro r_into_rtranclp s_keep) (rule takePrepared_state)

lemma recordNetworks_steps: "recordNetworks L E s fs = (t, r) \<Longrightarrow> (sstep L E)\<^sup>*\<^sup>* s t"
proof (induction L E s fs arbitrary: r rule: recordNetworks.induct)
  case (1 L E s)
  then show ?case by simp
next
  case (2 L E s n f fs)
  obtain u q where u: "recordEvent L E s (ENetworkAdded n f) = (u, q)" by fastforce
  have "sstep L E s u" by (rule recordEvent_sstep [OF u c_network])
  with 2 u show ?case by (cases q) (auto intro: converse_rtranclp_into_rtranclp)
qed

lemma steps_networkCommit: "steps networkCommit"
proof -
  have "(sstep L E)\<^sup>*\<^sup>* s t" if n: "networkCommit L E s a = (t, r)" for L E s a t r
  proof (cases "andThen (requireInit s) (\<lambda>_. obj (Some a) ''args'')")
    case (Inl e)
    with n show ?thesis by (simp add: networkCommit_def)
  next
    case (Inr o1)
    obtain u q where u: "takePrepared L E s o1 = (u, q)" by fastforce
    show ?thesis
    proof (cases q)
      case (Inl e)
      with n u \<open>_ = Inr o1\<close> takePrepared_steps [OF u] show ?thesis by (simp add: networkCommit_def)
    next
      case (Inr fps)
      obtain v p where v: "recordNetworks L E u fps = (v, p)" by fastforce
      then have "t = v" using n u Inr \<open>_ = Inr o1\<close> by (cases p) (simp_all add: networkCommit_def)
      with takePrepared_steps [OF u] recordNetworks_steps [OF v] show ?thesis by simp
    qed
  qed
  then show ?thesis unfolding steps_def by blast
qed

lemma steps_initCommit: "steps initCommit"
proof -
  have "(sstep L E)\<^sup>*\<^sup>* s t" if n: "initCommit L E s a = (t, r)" for L E s a t r
  proof (cases "initArgs L s a")
    case (Inl e)
    with n show ?thesis by (simp add: initCommit_def)
  next
    case (Inr x)
    obtain o1 orgId rpId origin where x: "x = (o1, orgId, rpId, origin)" by (cases x) auto
    have init: "sInit (gState s) = None" using Inr unfolding initArgs_def guard_simps by blast
    obtain u q where u: "takePrepared L E s o1 = (u, q)" by fastforce
    note st = takePrepared_state [OF u]
    show ?thesis
    proof (cases q)
      case (Inl e)
      with n u \<open>_ = Inr x\<close> x takePrepared_steps [OF u] show ?thesis by (simp add: initCommit_def)
    next
      case (Inr fps)
      have c: "commits L E u (EInit i)" for i by (rule c_init) (simp add: init st)
      have "(sstep L E)\<^sup>*\<^sup>* u t"
        using n u Inr \<open>_ = Inr x\<close> x by (auto simp: initCommit_def Let_def dest!: runD_commit_sstep [OF _ c])
      with takePrepared_steps [OF u] show ?thesis by simp
    qed
  qed
  then show ?thesis unfolding steps_def by blast
qed

lemma steps_rekey: "steps (\<lambda>L E s a. rekey L E s)"
proof -
  have "(sstep L E)\<^sup>*\<^sup>* s t" if n: "rekey L E s = (t, r)" for L E s t r
  proof -
    have "t = s \<or> (\<exists>u. gState u = gState s \<and> (sstep L E)\<^sup>*\<^sup>* u t)"
      using n unfolding rekey_def Let_def
      by (auto split: sum.splits prod.splits dest!: runD_commit_sstep [OF _ c_rekey] intro!: exI [of _ "s\<lparr>gSeedFile := _, gKek := _\<rparr>"])
    then show ?thesis by (meson converse_rtranclp_into_rtranclp rtranclp.rtrancl_refl s_keep)
  qed
  then show ?thesis unfolding steps_def by blast
qed

lemmas steps_intros = steps_read steps_prepare steps_networkCommit steps_initCommit steps_rekey

lemma app_steps: "\<forall>x\<in>set APP_COMMANDS. steps (snd x)"
  unfolding APP_COMMANDS_def
  by (simp, intro conjI; (rule steps_read | (rule steps_run, rule commits.intros, assumption)))

lemma admin_steps: "\<forall>x\<in>set ADMIN_COMMANDS. steps (snd x)"
  unfolding ADMIN_COMMANDS_def
  by (simp, intro conjI; (rule steps_intros | (rule steps_run, rule commits.intros, assumption)))

lemma command_steps:
  "(c, h) \<in> set APP_COMMANDS \<union> set ADMIN_COMMANDS \<Longrightarrow> h L E s a = (t, r) \<Longrightarrow> (sstep L E)\<^sup>*\<^sup>* s t"
proof -
  assume "(c, h) \<in> set APP_COMMANDS \<union> set ADMIN_COMMANDS" and h: "h L E s a = (t, r)"
  then have "steps h" using app_steps admin_steps by (metis UnE snd_conv)
  with h show ?thesis unfolding steps_def by blast
qed

section \<open>Invariants\<close>

text \<open>
  A property of the state at a time: it holds of the empty state, is kept while time passes, and
  every recorded event keeps it at the time of the command.
\<close>

locale timed_invariant =
  fixes L :: lib and I :: "int \<Rightarrow> signerState \<Rightarrow> bool"
  assumes at_start: "I tm emptyState"
    and later: "I tm st \<Longrightarrow> tm \<le> tn \<Longrightarrow> I tn st"
    and commit: "I (eNow E) (gState s) \<Longrightarrow> commits L E s b \<Longrightarrow> applyBody L (gState s) (eAt E) b = Inr st \<Longrightarrow> eNow E \<le> eAt E \<Longrightarrow>
      I (eNow E) st"
begin

lemma one_step: "sstep L E s t \<Longrightarrow> eNow E \<le> eAt E \<Longrightarrow> I (eNow E) (gState s) \<Longrightarrow> I (eNow E) (gState t)"
  by (erule sstep.cases) (use commit in metis)+

lemma all_steps: "(sstep L E)\<^sup>*\<^sup>* s t \<Longrightarrow> eNow E \<le> eAt E \<Longrightarrow> I (eNow E) (gState s) \<Longrightarrow> I (eNow E) (gState t)"
  by (induction rule: rtranclp_induct) (use one_step in blast)+

lemma always: "reachable L tm s \<Longrightarrow> I tm (gState s)"
proof (induction rule: reachable.induct)
  case (r_start s tm)
  with at_start show ?case by simp
next
  case (r_command tm s E c h a t r)
  have "(sstep L E)\<^sup>*\<^sup>* s t" using r_command.hyps(4,5) by (rule command_steps)
  then have "I (eNow E) (gState t)" using all_steps later r_command.IH r_command.hyps(2,3) by blast
  with later r_command.hyps(3) show ?case by blast
next
  case (r_restart tm s tn t)
  with later show ?case by simp
qed

end

text \<open>An invariant that does not mention the time.\<close>

locale signer_invariant =
  fixes L :: lib and I :: "signerState \<Rightarrow> bool"
  assumes inv_empty: "I emptyState"
    and inv_commit: "I (gState s) \<Longrightarrow> commits L E s b \<Longrightarrow> applyBody L (gState s) (eAt E) b = Inr st \<Longrightarrow> I st"

sublocale signer_invariant \<subseteq> timed: timed_invariant L "\<lambda>tm. I"
  by unfold_locales (rule inv_empty, assumption, rule inv_commit)

context signer_invariant
begin

lemma inv_reachable: "reachable L tm s \<Longrightarrow> I (gState s)"
  by (rule timed.always)

end

end
