(* ===== verification/Signer_Inv.thy ===== *)
theory Signer_Inv
  imports Signer_Steps
begin

text \<open>
  The invariant of the signatures in every reachable signer: the first signature of an intent comes
  first and only once, later ones keep its inputs and its nonce, every spent output is reserved for
  its intent, and nonces of an account are never used by two intents.
\<close>

section \<open>Decimal text\<close>

lemma show_int_ne: "show_int n \<noteq> []"
  by (simp add: show_int_def show_nat.simps)

lemma digit_no_space: "is_digit c \<Longrightarrow> \<not> is_space c"
  by (auto simp: is_digit_def is_space_def)

lemma trim_digits: "list_all is_digit s \<Longrightarrow> trim s = s"
proof -
  assume d: "list_all is_digit s"
  have "dropWhile is_space t = t" if "list_all is_digit t" for t
    using that digit_no_space by (cases t) auto
  with d show ?thesis by (simp add: trim_def)
qed

lemma toBigInt_show: "0 \<le> n \<Longrightarrow> toBigInt (show_int n) = Inr n"
proof -
  assume n: "0 \<le> n"
  have d: "list_all is_digit (show_int n)" using n show_nat_digits by (simp add: show_int_def)
  then have "strInt (show_int n) = Some n" using n show_int_ne by (simp add: strInt_def digits_def)
  then show ?thesis by (simp add: toBigInt_def trim_digits [OF d] Let_def split: prod.split)
qed

section \<open>The invariant\<close>

definition outs :: "signedT \<Rightarrow> string set" where
  "outs g = set (case sgOutpoints g of None \<Rightarrow> [] | Some os \<Rightarrow> os)"

abbreviation sigs :: "intentRecord \<Rightarrow> signedT list" where
  "sigs r \<equiv> map snd (rSignatures r)"

definition sigOk :: "signerState \<Rightarrow> string \<Rightarrow> intentRecord \<Rightarrow> signedT \<Rightarrow> bool" where
  "sigOk st i r g \<longleftrightarrow> sgIntentId g = i \<and> iAccountId (rIntent r) = Some (sgAccountId g) \<and>
     (\<forall>o1\<in>outs g. mapGet (sReserved st) o1 = Some i) \<and> outs g \<subseteq> outs (hd (sigs r)) \<and>
     (\<forall>t. sgNonce g = Some t \<longrightarrow> sgNonce (hd (sigs r)) = Some t \<and>
        (\<exists>n mx. t = show_int n \<and> 0 \<le> n \<and> n \<le> mx \<and> mapGet (sNonces st) (sgAccountId g) = Some mx))"

definition recOk :: "signerState \<Rightarrow> string \<Rightarrow> intentRecord \<Rightarrow> bool" where
  "recOk st i r \<longleftrightarrow> rIntentId r = i \<and> (\<forall>g\<in>set (sigs r). sigOk st i r g) \<and>
     (sigs r \<noteq> [] \<longrightarrow> i \<noteq> [] \<and> isMode (sgMode (hd (sigs r))) ''first'' \<and> (\<forall>g\<in>set (tl (sigs r)). \<not> isMode (sgMode g) ''first''))"

definition noncesUnique :: "signerState \<Rightarrow> bool" where
  "noncesUnique st \<longleftrightarrow> (\<forall>i j q r g h t. mapGet (sIntents st) i = Some q \<longrightarrow> mapGet (sIntents st) j = Some r \<longrightarrow> i \<noteq> j \<longrightarrow>
     g \<in> set (sigs q) \<longrightarrow> h \<in> set (sigs r) \<longrightarrow> sgAccountId g = sgAccountId h \<longrightarrow> sgNonce g = Some t \<longrightarrow> sgNonce h \<noteq> Some t)"

definition sigInv :: "signerState \<Rightarrow> bool" where
  "sigInv st \<longleftrightarrow> (\<forall>i r. mapGet (sIntents st) i = Some r \<longrightarrow> recOk st i r) \<and> noncesUnique st \<and>
     (\<forall>k a. mapGet (sAccounts st) k = Some a \<longrightarrow> aAccountId a = k)"

lemma recOk_sig: "recOk st i r \<Longrightarrow> h \<in> set (sigs r) \<Longrightarrow> sigOk st i r h"
  unfolding recOk_def by blast

lemma sigInv_rec: "sigInv st \<Longrightarrow> mapGet (sIntents st) i = Some r \<Longrightarrow> recOk st i r"
  by (simp add: sigInv_def)

lemma sigInv_empty: "sigInv emptyState"
  by (simp add: sigInv_def noncesUnique_def emptyState_def)

section \<open>Events that do not sign\<close>

lemma sameCore_recOk: "sameCore r q \<Longrightarrow> recOk st i r \<Longrightarrow> sReserved st' = sReserved st \<Longrightarrow> sNonces st' = sNonces st \<Longrightarrow> recOk st' i q"
  by (simp add: recOk_def sigOk_def sameCore_def)

lemma applyBody_accounts:
  assumes "applyBody L s tm b = Inr s'" "mapGet (sAccounts s') k = Some a"
  shows "mapGet (sAccounts s) k = Some a \<or> (\<exists>n i x. b = EAccount k n i x \<and> aAccountId a = k \<and> aNetwork a = n)"
proof (cases b)
  case (EIntent i t m)
  with assms show ?thesis by (auto simp: applyBody_def applyIntent_def exn_simps Let_def split: if_splits)
next
  case (ESigned g)
  with assms applySigned_parts(3) [of s tm g s'] show ?thesis by (simp add: applyBody_def)
qed (use assms in \<open>auto simp: applyBody_def applyAccount_def applyKey_def applyApproval_def applyMandate_def applyMandateApproval_def Let_def
       split: option.splits sum.splits if_splits\<close>)

lemma sigInv_other:
  assumes "sigInv s" "applyBody L s tm b = Inr s'" "\<And>g. b \<noteq> ESigned g"
  shows "sigInv s'"
proof -
  note keep = applyBody_other [OF assms(2,3)]
  have rec: "(\<exists>r. mapGet (sIntents s) i = Some r \<and> sameCore r q) \<or> (sigs q = [] \<and> rIntentId q = i)"
    if "mapGet (sIntents s') i = Some q" for i q
    using applyBody_intents [OF assms(2) that assms(3)] by auto
  have "recOk s' i q" if q: "mapGet (sIntents s') i = Some q" for i q
    using rec [OF q]
  proof
    assume "\<exists>r. mapGet (sIntents s) i = Some r \<and> sameCore r q"
    with assms(1) keep show ?thesis unfolding sigInv_def by (meson sameCore_recOk)
  next
    assume "sigs q = [] \<and> rIntentId q = i"
    then show ?thesis by (simp add: recOk_def)
  qed
  moreover have "noncesUnique s'"
    unfolding noncesUnique_def
  proof (intro allI impI)
    fix i j q r g h t
    assume a: "mapGet (sIntents s') i = Some q" "mapGet (sIntents s') j = Some r" "i \<noteq> j" "g \<in> set (sigs q)" "h \<in> set (sigs r)"
      "sgAccountId g = sgAccountId h" "sgNonce g = Some t"
    from rec [OF a(1)] a(4) obtain q0 where "mapGet (sIntents s) i = Some q0" "sigs q0 = sigs q" by (auto simp: sameCore_def)
    moreover from rec [OF a(2)] a(5) obtain r0 where "mapGet (sIntents s) j = Some r0" "sigs r0 = sigs r" by (auto simp: sameCore_def)
    moreover have "noncesUnique s" using assms(1) by (simp add: sigInv_def)
    moreover have "g \<in> set (sigs q0)" "h \<in> set (sigs r0)" using calculation(2,4) a(4,5) by metis+
    ultimately show "sgNonce h \<noteq> Some t" using a(3,6,7) unfolding noncesUnique_def by blast
  qed
  moreover have "aAccountId a = k" if "mapGet (sAccounts s') k = Some a" for k a
    using applyBody_accounts [OF assms(2) that] assms(1) by (auto simp: sigInv_def)
  ultimately show ?thesis by (simp add: sigInv_def)
qed

section \<open>A signature\<close>

lemma firstSigned_hd:
  assumes "recOk st i r" "sigs r \<noteq> []"
  shows "map_option snd (firstSigned r) = Some (hd (sigs r))"
proof -
  obtain x xs where x: "rSignatures r = x # xs" using assms(2) by (cases "rSignatures r") auto
  with assms have "isMode (sgMode (snd x)) ''first''" by (simp add: recOk_def)
  then show ?thesis by (cases x) (simp add: firstSigned_def x)
qed

lemma firstSigned_Some_ne: "firstSigned r \<noteq> None \<Longrightarrow> sigs r \<noteq> []"
  by (auto simp: firstSigned_def)

text \<open>What the guards of \<open>sign\<close> give about the new signature \<open>g\<close> of the intent \<open>i\<close>.\<close>

definition newSig :: "signerState \<Rightarrow> string \<Rightarrow> intentRecord \<Rightarrow> signedT \<Rightarrow> bool" where
  "newSig st i r g \<longleftrightarrow> mapGet (sIntents st) i = Some r \<and> i \<noteq> [] \<and> sgIntentId g = i \<and> iAccountId (rIntent r) = Some (sgAccountId g) \<and>
     (if isMode (sgMode g) ''first''
      then sigs r = [] \<and> (\<forall>o1\<in>outs g. mapGet (sReserved st) o1 \<in> {None, Some [], Some i}) \<and>
        (\<forall>t. sgNonce g = Some t \<longrightarrow> (\<exists>n. t = show_int n \<and> 0 \<le> n \<and> mapGet (sNonces st) (sgAccountId g) \<in> {None, Some (n - 1)}))
      else sigs r \<noteq> [] \<and> outs g \<subseteq> outs (hd (sigs r)) \<and>
        (\<forall>t. sgNonce g = Some t \<longrightarrow> sgNonce (hd (sigs r)) = Some t))"

lemma bump_nonce:
  assumes "bigOr (-1) v = Inr n" "0 \<le> n" "\<And>t. v = Some t \<Longrightarrow> \<exists>m\<ge>0. t = show_int m"
  shows "v = Some (show_int n)"
  using assms toBigInt_show by (cases v) (auto simp: bigOr_def)

lemma sign_newSig:
  assumes "sigInv (gState s)" "sign L E s raw = Inr (Commit (ESigned g) k)"
  obtains i r where "newSig (gState s) i r g"
  using assms(2)
proof (rule sign_records)
  fix a ini p i r md acc account cd amt d
  assume i: "re_hexn 32 i" "mapGet (sIntents (gState s)) i = Some r" and acc: "iAccountId (rIntent r) = Some acc"
    and ac: "mapGet (sAccounts (gState s)) acc = Some account"
    and fi: "isMode md ''first'' \<Longrightarrow> rSignatures r = [] \<and> firstGuards L E s p r = Inr ()"
    and la: "\<not> isMode md ''first'' \<Longrightarrow> laterGuards (map_option snd (firstSigned r)) (map_option snd (lastSigned r)) md = Inr ()"
    and d: "draftFor L s r (aIndex account) md (jfield a ''plan'') p (map_option snd (firstSigned r)) (map_option snd (lastSigned r)) = Inr d"
    and g: "ESigned g = ESigned (signedOfDraft r md account d)"
  have ok: "recOk (gState s) i r" and acid: "aAccountId account = acc" using assms(1) i ac by (auto simp: sigInv_def)
  have ine: "i \<noteq> []" using i(1) by (auto simp: re_hexn_def)
  have sg: "sgIntentId g = i" "sgAccountId g = acc" "sgMode g = md" "sgOutpoints g = drOutpoints d" "sgNonce g = drNonce d"
    using g ok acid by (simp_all add: signedOfDraft_def recOk_def)
  have lat: "sigs r \<noteq> [] \<and> map_option snd (firstSigned r) = Some (hd (sigs r))" if "\<not> isMode md ''first''"
  proof -
    have "sigs r \<noteq> []" using la [OF that] firstSigned_Some_ne by (auto simp: laterGuards_ok)
    with firstSigned_hd [OF ok] show ?thesis by blast
  qed
  have "newSig (gState s) i r g"
    using d
  proof (rule draftFor_ok)
    fix plan
    assume "signBtc L s r (aIndex account) md plan p (map_option snd (firstSigned r)) (map_option snd (lastSigned r)) = Inr d"
    then show ?thesis
    proof (rule signBtc_draft)
      fix inputs fee keyAt main ci ca dest amount b
      assume t: "btcTarget L (gState s) r md inputs fee keyAt main (map_option snd (firstSigned r)) (map_option snd (lastSigned r)) = Inr (ci, ca, dest, amount)"
        and dr: "drOutpoints d = Some (map outpointOf inputs)" "drNonce d = None"
      show ?thesis
      proof (cases "isMode md ''first''")
        case True
        with btcTarget_ok(1) [OF t] dr i ine sg acc fi ok show ?thesis by (simp add: newSig_def outs_def recOk_def)
      next
        case False
        with btcTarget_ok(2) [OF t] dr i ine sg acc lat ok show ?thesis by (simp add: newSig_def outs_def)
      qed
    qed
  next
    fix plan
    assume "signEth L s r (aIndex account) md plan p (map_option snd (firstSigned r)) (map_option snd (lastSigned r)) = Inr d"
    then show ?thesis
    proof (rule signEth_draft)
      fix nonce gas mf mp priv capGwei e
      assume n: "0 \<le> nonce" "ethNonceOk (gState s) r md nonce mf mp (map_option snd (firstSigned r)) (map_option snd (lastSigned r)) = Inr ()"
        and dr: "drOutpoints d = None" "drNonce d = Some (show_int nonce)"
      show ?thesis
      proof (cases "isMode md ''first''")
        case True
        with ethNonceOk_ok(1) [OF n(2)] n(1) dr i ine sg acc fi show ?thesis by (auto simp: newSig_def outs_def)
      next
        case False
        note f = lat [OF False]
        have "bigOr (-1) (sgNonce (hd (sigs r))) = Inr nonce" using ethNonceOk_ok(2) [OF n(2) False] f by simp
        then have "sgNonce (hd (sigs r)) = Some (show_int nonce)"
        proof (rule bump_nonce [OF _ n(1)])
          fix t
          assume "sgNonce (hd (sigs r)) = Some t"
          moreover have "sigOk (gState s) i r (hd (sigs r))" using ok f unfolding recOk_def by (meson list.set_sel(1))
          ultimately show "\<exists>m\<ge>0. t = show_int m" by (auto simp: sigOk_def)
        qed
        with False f dr i ine sg acc show ?thesis by (simp add: newSig_def outs_def)
      qed
    qed
  qed
  then show thesis by (rule that)
qed

lemma signed_reserved:
  assumes "applySigned st tm g = Inr st'"
  shows "mapGet (sReserved st') o1 = (if o1 \<in> outs g then Some (sgIntentId g) else mapGet (sReserved st) o1)"
  unfolding applySigned_parts(2) [OF assms] mapGet_reserved outs_def ..

lemma signed_intents:
  assumes "applySigned st tm g = Inr st'" "mapGet (sIntents st') j = Some q"
  obtains r where "mapGet (sIntents st) j = Some r" "rIntentId q = rIntentId r" "rIntent q = rIntent r"
    "sigs q = (if j = sgIntentId g then sigs r @ [g] else sigs r)" "j \<noteq> sgIntentId g \<Longrightarrow> q = r"
proof -
  from assms obtain r where "mapGet (sIntents st) j = Some r" "q = (if j = sgIntentId g then r\<lparr>rSignatures := rSignatures r @ [(tm, g)]\<rparr> else r)"
    by (auto simp: applySigned_parts(1) mapGet_mapUpdate split: if_splits)
  then show thesis by (intro that) simp_all
qed

lemma signed_nonces:
  assumes "applySigned st tm g = Inr st'"
  shows "mapGet (sNonces st) a = Some mx \<Longrightarrow> \<exists>my\<ge>mx. mapGet (sNonces st') a = Some my"
    and "sgNonce g = Some (show_int n) \<Longrightarrow> 0 \<le> n \<Longrightarrow> \<exists>my\<ge>n. mapGet (sNonces st') (sgAccountId g) = Some my"
proof -
  assume "mapGet (sNonces st) a = Some mx"
  then show "\<exists>my\<ge>mx. mapGet (sNonces st') a = Some my"
    unfolding applySigned_nonces [OF assms] by (auto split: option.split sum.split)
next
  assume "sgNonce g = Some (show_int n)" "0 \<le> n"
  then show "\<exists>my\<ge>n. mapGet (sNonces st') (sgAccountId g) = Some my"
    unfolding applySigned_nonces [OF assms] using toBigInt_show [of n] by (auto split: option.split)
qed

text \<open>An earlier signature stays in order.\<close>

lemma sigOk_kept:
  assumes "sigOk st j r h" "applySigned st tm g = Inr st'" "newSig st i r0 g" "j = i \<or> j \<noteq> []"
    "\<And>q. mapGet (sIntents st) i = Some q \<Longrightarrow> recOk st i q"
    "rIntent q = rIntent r" "hd (sigs q) = hd (sigs r)"
  shows "sigOk st' j q h"
proof -
  have "mapGet (sReserved st') o1 = Some j" if o: "o1 \<in> outs h" for o1
  proof (cases "o1 \<in> outs g \<and> j \<noteq> i")
    case True
    have o1: "mapGet (sReserved st) o1 = Some j" using assms(1) o by (simp add: sigOk_def)
    have r0: "recOk st i r0" using assms(3,5) by (simp add: newSig_def)
    have False
    proof (cases "isMode (sgMode g) ''first''")
      case first: True
      with True assms(3) have "mapGet (sReserved st) o1 \<in> {None, Some [], Some i}" by (simp add: newSig_def)
      with o1 True assms(4) show False by auto
    next
      case False
      with True assms(3) have "o1 \<in> outs (hd (sigs r0))" "sigs r0 \<noteq> []" by (auto simp: newSig_def)
      with r0 have "mapGet (sReserved st) o1 = Some i" unfolding recOk_def sigOk_def by (meson list.set_sel(1))
      with o1 True show False by simp
    qed
    then show ?thesis ..
  next
    case False
    with assms(1,3) o show ?thesis by (auto simp: signed_reserved [OF assms(2)] sigOk_def newSig_def)
  qed
  moreover have "\<exists>n mx. t = show_int n \<and> 0 \<le> n \<and> n \<le> mx \<and> mapGet (sNonces st') (sgAccountId h) = Some mx" if "sgNonce h = Some t" for t
  proof -
    from assms(1) that obtain n mx where "t = show_int n" "0 \<le> n" "n \<le> mx" "mapGet (sNonces st) (sgAccountId h) = Some mx"
      unfolding sigOk_def by blast
    moreover from signed_nonces(1) [OF assms(2)] calculation(4) obtain my where "mx \<le> my" "mapGet (sNonces st') (sgAccountId h) = Some my" by blast
    ultimately show ?thesis by (intro exI [of _ n] exI [of _ my]) simp
  qed
  ultimately show ?thesis using assms(1,6,7) by (simp add: sigOk_def)
qed

lemma sigOk_new:
  assumes "newSig st i r g" "applySigned st tm g = Inr st'" "recOk st i r" "rIntent q = rIntent r" "sigs q = sigs r @ [g]"
  shows "sigOk st' i q g"
proof -
  have hd: "hd (sigs q) = (if sigs r = [] then g else hd (sigs r))" using assms(5) by (simp add: hd_append)
  have non: "\<exists>n. t = show_int n \<and> 0 \<le> n" if t: "sgNonce g = Some t" for t
  proof (cases "isMode (sgMode g) ''first''")
    case True
    with assms(1) t show ?thesis by (auto simp: newSig_def)
  next
    case False
    with assms(1) t have "sgNonce (hd (sigs r)) = Some t" "sigs r \<noteq> []" by (auto simp: newSig_def)
    with assms(3) show ?thesis unfolding recOk_def sigOk_def by (meson list.set_sel(1))
  qed
  have "\<exists>n mx. t = show_int n \<and> 0 \<le> n \<and> n \<le> mx \<and> mapGet (sNonces st') (sgAccountId g) = Some mx" if "sgNonce g = Some t" for t
    using non [OF that] that signed_nonces(2) [OF assms(2)] by blast
  moreover have "outs g \<subseteq> outs (hd (sigs q))" "\<And>t. sgNonce g = Some t \<Longrightarrow> sgNonce (hd (sigs q)) = Some t"
    using assms(1) hd by (auto simp: newSig_def split: if_splits)
  ultimately show ?thesis
    using assms(1,4) by (auto simp: sigOk_def newSig_def signed_reserved [OF assms(2)])
qed

lemma recOk_signed:
  assumes "sigInv st" "newSig st i r0 g" "applySigned st tm g = Inr st'" "mapGet (sIntents st') j = Some q"
  shows "recOk st' j q"
  using assms(3,4)
proof (rule signed_intents)
  fix r
  assume r: "mapGet (sIntents st) j = Some r" and q: "rIntentId q = rIntentId r" "rIntent q = rIntent r"
    "sigs q = (if j = sgIntentId g then sigs r @ [g] else sigs r)" and same: "j \<noteq> sgIntentId g \<Longrightarrow> q = r"
  have ok: "recOk st j r" and oki: "\<And>x. mapGet (sIntents st) i = Some x \<Longrightarrow> recOk st i x" using assms(1) r by (auto simp: sigInv_def)
  have gi: "sgIntentId g = i" using assms(2) by (simp add: newSig_def)
  have kept: "sigOk st' j q h" if h: "h \<in> set (sigs r)" for h
  proof (rule sigOk_kept [OF _ assms(3,2)])
    show "sigOk st j r h" by (rule recOk_sig [OF ok h])
    show "j = i \<or> j \<noteq> []" using ok h by (auto simp: recOk_def)
    show "hd (sigs q) = hd (sigs r)" using h q(3) by (cases "sigs r") auto
  qed (use oki q in auto)
  show ?thesis
  proof (cases "j = i")
    case True
    have r0r: "r0 = r" using r assms(2) True by (simp add: newSig_def)
    with assms(2) have r0: "r0 = r" "newSig st i r g" by simp_all
    have qs: "sigs q = sigs r @ [g]" using q(3) True gi by simp
    have "sigOk st' j q g" using sigOk_new [OF r0(2) assms(3) _ q(2) qs] ok True by simp
    then have all: "\<forall>h\<in>set (sigs q). sigOk st' j q h" unfolding qs using kept by auto
    have "isMode (sgMode (hd (sigs q))) ''first'' \<and> (\<forall>h\<in>set (tl (sigs q)). \<not> isMode (sgMode h) ''first'')"
      using ok r0(2) unfolding qs by (cases "sigs r") (auto simp: recOk_def newSig_def split: if_splits)
    moreover have "i \<noteq> []" using assms(2) by (simp add: newSig_def)
    ultimately show ?thesis using all ok q(1) True by (simp add: recOk_def)
  next
    case False
    with same gi have "q = r" by simp
    with ok kept show ?thesis by (simp add: recOk_def)
  qed
qed

lemma noncesUnique_signed:
  assumes "sigInv st" "newSig st i r0 g" "applySigned st tm g = Inr st'"
  shows "noncesUnique st'"
proof -
  have gi: "sgIntentId g = i" "mapGet (sIntents st) i = Some r0" using assms(2) by (auto simp: newSig_def)
  have old: "sgNonce h \<noteq> Some t"
    if "mapGet (sIntents st) a = Some q" "mapGet (sIntents st) b = Some r" "a \<noteq> b" "x \<in> set (sigs q)" "h \<in> set (sigs r)" "sgAccountId x = sgAccountId h"
      "sgNonce x = Some t" for a b q r x h t
    using assms(1) that unfolding sigInv_def noncesUnique_def by blast
  have new: "sgNonce h \<noteq> Some t" if r: "mapGet (sIntents st) j = Some r" "j \<noteq> i" "h \<in> set (sigs r)" "sgAccountId g = sgAccountId h" "sgNonce g = Some t" for j r h t
  proof (cases "isMode (sgMode g) ''first''")
    case True
    with assms(2) r(5) obtain n where n: "t = show_int n" "0 \<le> n" "mapGet (sNonces st) (sgAccountId g) \<in> {None, Some (n - 1)}"
      by (auto simp: newSig_def)
    show ?thesis
    proof
      assume "sgNonce h = Some t"
      moreover have "sigOk st j r h" using sigInv_rec [OF assms(1) r(1)] r(3) by (rule recOk_sig)
      ultimately obtain m mx where "t = show_int m" "0 \<le> m" "m \<le> mx" "mapGet (sNonces st) (sgAccountId g) = Some mx"
        using r(4) unfolding sigOk_def by auto
      with n show_int_inj [of m n] show False by auto
    qed
  next
    case False
    with assms(2) r(5) have "sgNonce (hd (sigs r0)) = Some t" "sigs r0 \<noteq> []" by (auto simp: newSig_def)
    then have "sgNonce (hd (sigs r0)) = Some t" "hd (sigs r0) \<in> set (sigs r0)" by (blast, meson list.set_sel(1))
    moreover have "sgAccountId (hd (sigs r0)) = sgAccountId h"
    proof -
      have "sigOk st i r0 (hd (sigs r0))" using sigInv_rec [OF assms(1) gi(2)] calculation(2) by (rule recOk_sig)
      then show ?thesis using assms(2) r(4) by (simp add: sigOk_def newSig_def)
    qed
    ultimately show ?thesis using old [OF gi(2) r(1)] r(2,3) by blast
  qed
  show ?thesis
    unfolding noncesUnique_def
  proof (intro allI impI)
    fix a b q r x h t
    assume A: "mapGet (sIntents st') a = Some q" "mapGet (sIntents st') b = Some r" "a \<noteq> b" "x \<in> set (sigs q)" "h \<in> set (sigs r)"
      "sgAccountId x = sgAccountId h" "sgNonce x = Some t"
    obtain q1 where q1: "mapGet (sIntents st) a = Some q1" "sigs q = (if a = i then sigs q1 @ [g] else sigs q1)"
      using signed_intents [OF assms(3) A(1)] gi(1) by metis
    obtain r1 where r1: "mapGet (sIntents st) b = Some r1" "sigs r = (if b = i then sigs r1 @ [g] else sigs r1)"
      using signed_intents [OF assms(3) A(2)] gi(1) by metis
    consider "x \<in> set (sigs q1)" "h \<in> set (sigs r1)" | "a = i" "x = g" "h \<in> set (sigs r1)" | "b = i" "h = g" "x \<in> set (sigs q1)"
      using A(3-5) q1(2) r1(2) by (auto split: if_splits)
    then show "sgNonce h \<noteq> Some t"
    proof cases
      case 1
      then show ?thesis using old [OF q1(1) r1(1) A(3)] A(6,7) by blast
    next
      case 2
      then show ?thesis using new [OF r1(1)] A(3,6,7) by blast
    next
      case 3
      then show ?thesis using new [OF q1(1)] A(3,6,7) by metis
    qed
  qed
qed

lemma sigInv_step:
  assumes "sigInv (gState s)" "commits L E s b" "applyBody L (gState s) tm b = Inr st"
  shows "sigInv st"
proof (cases "\<exists>g. b = ESigned g")
  case True
  then obtain g where g: "b = ESigned g" by blast
  with assms(2) obtain raw k where "sign L E s raw = Inr (Commit (ESigned g) k)" using commits_signed by blast
  then obtain i r where n: "newSig (gState s) i r g" using sign_newSig [OF assms(1)] by blast
  have a: "applySigned (gState s) tm g = Inr st" using assms(3) g by (simp add: applyBody_def)
  show ?thesis
    unfolding sigInv_def
    using recOk_signed [OF assms(1) n a] noncesUnique_signed [OF assms(1) n a] applySigned_parts(3) [OF a] assms(1)
    by (simp add: sigInv_def)
next
  case False
  with sigInv_other [OF assms(1,3)] show ?thesis by blast
qed

interpretation sigI: signer_invariant L sigInv for L
  by unfold_locales (rule sigInv_empty, rule sigInv_step)

end
