(* ===== verification/Signer_Safety.thy ===== *)
theory Signer_Safety
  imports Signer_Inv
begin

text \<open>
  The safety properties of the signer over every reachable state: no output and no nonce is used for
  two payments, one first signature per intent, what a first signature requires, two persons under
  four eyes, keys that never share an index, and what the app socket cannot do.
\<close>

section \<open>Signatures\<close>

text \<open>
  C1. No output is ever signed away for two intents: in every reachable signer the outputs spent by
  signatures of different intents are disjoint.
\<close>

theorem outputs_never_shared:
  assumes "reachable L tm s" "mapGet (sIntents (gState s)) i = Some q" "mapGet (sIntents (gState s)) j = Some r" "i \<noteq> j"
    "g \<in> set (sigs q)" "h \<in> set (sigs r)"
  shows "outs g \<inter> outs h = {}"
proof -
  note I = sigI.inv_reachable [OF assms(1)]
  have "sigOk (gState s) i q g" "sigOk (gState s) j r h"
    using recOk_sig [OF sigInv_rec [OF I assms(2)] assms(5)] recOk_sig [OF sigInv_rec [OF I assms(3)] assms(6)] by simp_all
  then show ?thesis using assms(4) unfolding sigOk_def by fastforce
qed

text \<open>
  C2. No nonce of an Ethereum account is ever signed for two intents.
\<close>

theorem nonces_never_shared:
  assumes "reachable L tm s" "mapGet (sIntents (gState s)) i = Some q" "mapGet (sIntents (gState s)) j = Some r" "i \<noteq> j"
    "g \<in> set (sigs q)" "h \<in> set (sigs r)" "sgAccountId g = sgAccountId h" "sgNonce g = Some t"
  shows "sgNonce h \<noteq> Some t"
  using sigI.inv_reachable [OF assms(1)] assms(2-) unfolding sigInv_def noncesUnique_def by blast

text \<open>
  C3. In every reachable signer the first signature of an intent exists once, at the front, and every
  later one (raised fee, cancellation) spends only outputs of the first and has its nonce: at most
  one of the transactions of an intent can be confirmed.
\<close>

theorem replacements_conflict:
  assumes "reachable L tm s" "mapGet (sIntents (gState s)) i = Some r" "sigs r \<noteq> []"
  shows "isMode (sgMode (hd (sigs r))) ''first'' \<and> (\<forall>g\<in>set (tl (sigs r)). \<not> isMode (sgMode g) ''first'') \<and>
    (\<forall>g\<in>set (sigs r). sgIntentId g = i \<and> outs g \<subseteq> outs (hd (sigs r)) \<and> sgNonce g \<in> {None, sgNonce (hd (sigs r))})"
proof -
  have ok: "recOk (gState s) i r" by (rule sigInv_rec [OF sigI.inv_reachable [OF assms(1)] assms(2)])
  have "sgIntentId g = i \<and> outs g \<subseteq> outs (hd (sigs r)) \<and> sgNonce g \<in> {None, sgNonce (hd (sigs r))}" if "g \<in> set (sigs r)" for g
    using recOk_sig [OF ok that] unfolding sigOk_def by (cases "sgNonce g") auto
  with ok assms(3) show ?thesis unfolding recOk_def by blast
qed

lemma firstGuards_ok:
  assumes "firstGuards L E s p r = Inr u"
  obtains start upto day where "quorum (gState s) r" "rSignableAt r = Some start" "start \<le> eNow E" "rSignUntil r = Some upto \<or> (rSignUntil r = None \<and> upto = 0)" "eNow E \<le> upto"
    "activeDestination (gState s) (iNetwork (rIntent r)) (iDestination (rIntent r)) (eNow E) \<noteq> None"
    "checkNetwork L s (iNetwork (rIntent r)) p = Inr ()"
    "signedLast24h (gState s) (the (iAsset (rIntent r))) (eNow E) = Inr day"
    "spendAllowed p (the (iAsset (rIntent r))) (the (iAmount (rIntent r))) day = ''ok''"
    "\<And>m. rMandateId r = Some m \<Longrightarrow> m \<noteq> [] \<Longrightarrow> \<exists>d. mapGet (sMandates (gState s)) m = Some d \<and> \<not> dRevoked d \<and> eNow E < mValidUntil (dMandate d)"
proof -
  let ?hasM = "rMandateId r \<noteq> None \<and> rMandateId r \<noteq> Some []"
  let ?m = "if ?hasM then mapGet (sMandates (gState s)) (the (rMandateId r)) else None"
  from assms obtain x u1 day where g: "\<not> (?hasM \<and> (?m = None \<or> dRevoked (the ?m)))" "\<not> (?m \<noteq> None \<and> eNow E \<ge> mValidUntil (dMandate (the ?m)))"
    "quorum (gState s) r" "rSignableAt r = Some x" "\<not> eNow E < x" "\<not> eNow E > (case rSignUntil r of None \<Rightarrow> 0 | Some u \<Rightarrow> u)"
    "activeDestination (gState s) (iNetwork (rIntent r)) (iDestination (rIntent r)) (eNow E) \<noteq> None"
    "checkNetwork L s (iNetwork (rIntent r)) p = Inr u1"
    "signedLast24h (gState s) (the (iAsset (rIntent r))) (eNow E) = Inr day"
    "\<not> spendAllowed p (the (iAsset (rIntent r))) (the (iAmount (rIntent r))) day \<noteq> ''ok''"
    unfolding firstGuards_def Let_def guard_simps by blast
  have man: "\<exists>d. mapGet (sMandates (gState s)) m = Some d \<and> \<not> dRevoked d \<and> eNow E < mValidUntil (dMandate d)" if "rMandateId r = Some m" "m \<noteq> []" for m
    using g(1,2) that by (auto split: if_splits)
  show thesis
    by (rule that [of x "case rSignUntil r of None \<Rightarrow> 0 | Some u \<Rightarrow> u" day]) (use g man in \<open>auto split: option.splits\<close>)
qed


section \<open>Approvals and keys\<close>

text \<open>Every approval was given with a registered key of the person it counts for.\<close>

definition approvedBy :: "signerState \<Rightarrow> approvalT list \<Rightarrow> bool" where
  "approvedBy st as \<longleftrightarrow> (\<forall>a\<in>set as. \<exists>k. mapGet (sKeys st) (apCredId a) = Some k \<and> kPerson k = apPerson a)"

definition keyInv :: "signerState \<Rightarrow> bool" where
  "keyInv st \<longleftrightarrow> (\<forall>i r. mapGet (sIntents st) i = Some r \<longrightarrow> approvedBy st (rApprovals r)) \<and>
     (\<forall>i m. mapGet (sMandates st) i = Some m \<longrightarrow> approvedBy st (dApprovals m))"

lemma applyBody_keys:
  assumes "applyBody L s tm b = Inr s'" "mapGet (sKeys s) c = Some k" "\<And>e p x y n. b \<noteq> EKey e p c x y n"
  shows "\<exists>k'. mapGet (sKeys s') c = Some k' \<and> kPerson k' = kPerson k \<and> kSpki k' = kSpki k"
proof (cases b)
  case (EIntent i t m)
  with assms show ?thesis by (auto simp: applyBody_def applyIntent_def exn_simps Let_def split: if_splits)
next
  case (ESigned g)
  with assms applySigned_parts(5) [of s tm g s'] show ?thesis by (simp add: applyBody_def)
next
  case (EKey e p c' x y n)
  then have "c \<noteq> c'" using assms(3) by blast
  with EKey assms(1,2) show ?thesis by (auto simp: applyBody_def applyKey_def)
qed (use assms in \<open>auto simp: applyBody_def applyAccount_def applyApproval_def applyMandate_def applyMandateApproval_def mapGet_mapUpdate Let_def
       split: option.splits sum.splits\<close>)

lemma commits_key: "commits L E s (EKey e p c x y n) \<Longrightarrow> mapGet (sKeys (gState s)) c = None"
  by (erule commits.cases) ((drule shapes, (elim exE conjE)?, simp; fail) | blast | simp)+

lemma approvedBy_step:
  assumes "approvedBy (gState s) as" "commits L E s b" "applyBody L (gState s) tm b = Inr st"
  shows "approvedBy st as"
proof -
  have "\<exists>k'. mapGet (sKeys st) c = Some k' \<and> kPerson k' = kPerson k" if "mapGet (sKeys (gState s)) c = Some k" for c k
  proof -
    have "b \<noteq> EKey e p c x y n" for e p x y n using commits_key assms(2) that by fastforce
    with applyBody_keys [OF assms(3) that] show ?thesis by blast
  qed
  with assms(1) show ?thesis unfolding approvedBy_def by metis
qed

lemma settle_approvals [simp]: "rApprovals (settle s r tm) = rApprovals r"
  by (simp add: settle_def Let_def split: option.split)

lemma applyBody_approvals:
  assumes "applyBody L s tm b = Inr s'" "mapGet (sIntents s') x = Some q"
  shows "rApprovals q = [] \<or> (\<exists>r. mapGet (sIntents s) x = Some r \<and>
    (rApprovals q = rApprovals r \<or> (\<exists>c p n. b = EApproval x c p n \<and> rApprovals q = rApprovals r @ [\<lparr>apCredId = c, apPerson = p, apAt = tm\<rparr>])))"
proof (cases b)
  case (EIntent i t m)
  with assms show ?thesis by (auto simp: applyBody_def applyIntent_def newRecord_def exn_simps Let_def split: if_splits)
next
  case (ESigned g)
  with assms applySigned_parts(1) [of s tm g s'] show ?thesis by (auto simp: applyBody_def mapGet_mapUpdate split: if_splits)
qed (use assms in \<open>auto simp: applyBody_def applyAccount_def applyKey_def applyApproval_def applyMandate_def applyMandateApproval_def mapGet_mapUpdate Let_def
       split: option.splits sum.splits if_splits\<close>)

lemma applyBody_mandates:
  assumes "applyBody L s tm b = Inr s'" "mapGet (sMandates s') x = Some m'"
  shows "(\<exists>t. b = EMandate x t \<and> parseMandate L t = Inr (dMandate m') \<and> dApprovals m' = []) \<or> (\<exists>m. mapGet (sMandates s) x = Some m \<and> dMandate m' = dMandate m \<and>
    (dApprovals m' = dApprovals m \<or> (\<exists>c p n. b = EMandateApproval x c p n \<and> dApprovals m' = dApprovals m @ [\<lparr>apCredId = c, apPerson = p, apAt = tm\<rparr>])))"
proof (cases b)
  case (EIntent i t m)
  with assms show ?thesis by (auto simp: applyBody_def applyIntent_def exn_simps Let_def split: if_splits)
next
  case (ESigned g)
  with assms applySigned_parts(4) [of s tm g s'] show ?thesis by (auto simp: applyBody_def)
qed (use assms in \<open>auto simp: applyBody_def applyAccount_def applyKey_def applyApproval_def applyMandate_def applyMandateApproval_def mapGet_mapUpdate Let_def
       split: option.splits sum.splits if_splits\<close>)

text \<open>The key behind an approval that a command records.\<close>

lemma approve_records:
  assumes "approve L E s raw = Inr (Commit b k)"
  obtains a ini i r c key n where "sInit (gState s) = Some ini" "sFrozen (gState s) = None" "mapGet (sIntents (gState s)) i = Some r"
    "\<not> rCancelled r" "\<not> rVetoed r" "eNow E \<le> iExpiresAt (rIntent r)" "rMandateId r = None"
    "mapGet (sKeys (gState s)) c = Some key" "kActive key" "\<forall>x\<in>set (rApprovals r). apCredId x \<noteq> c"
    "confirm L a ini (intentChallenge L (rText r)) key = Inr n" "b = EApproval (rIntentId r) c (kPerson key) n"
proof -
  from assms obtain a ini r c key n where "sInit (gState s) = Some ini" "sFrozen (gState s) = None" "intentOf s (jfield a ''intentId'') = Inr r"
    "\<not> (rCancelled r \<or> rVetoed r)" "\<not> eNow E > iExpiresAt (rIntent r)" "\<not> rMandateId r \<noteq> None"
    "mapGet (sKeys (gState s)) c = Some key" "kActive key" "\<not> (\<exists>x\<in>set (rApprovals r). apCredId x = c)"
    "confirm L a ini (intentChallenge L (rText r)) key = Inr n" "b = EApproval (rIntentId r) c (kPerson key) n"
    unfolding approve_def guard_simps requireInit_ok requireNotFrozen_ok activeKey_ok sum.inject decision.inject by blast
  then show thesis unfolding intentOf_ok by (elim exE conjE) (rule that, auto)
qed

lemma mandateApprove_records:
  assumes "mandateApprove L E s raw = Inr (Commit b k)"
  obtains a ini i m c key n where "sInit (gState s) = Some ini" "mapGet (sMandates (gState s)) i = Some m" "\<not> dRevoked m"
    "mapGet (sKeys (gState s)) c = Some key" "kActive key" "kPerson key \<noteq> mGrantee (dMandate m)"
    "confirm L a ini (mandateChallenge L (dText m)) key = Inr n" "b = EMandateApproval (dMandateId m) c (kPerson key) n"
proof -
  from assms obtain a ini m c key n where "sInit (gState s) = Some ini" "mandateOf s (jfield a ''mandateId'') = Inr m" "\<not> dRevoked m"
    "mapGet (sKeys (gState s)) c = Some key" "kActive key" "kPerson key \<noteq> mGrantee (dMandate m)"
    "confirm L a ini (mandateChallenge L (dText m)) key = Inr n" "b = EMandateApproval (dMandateId m) c (kPerson key) n"
    unfolding mandateApprove_def guard_simps requireInit_ok requireNotFrozen_ok activeKey_ok Let_def sum.inject decision.inject by blast
  then show thesis unfolding mandateOf_ok by (elim exE conjE) (rule that, auto)
qed

lemma commits_mandateApproval: "commits L E s (EMandateApproval i c p n) \<Longrightarrow> \<exists>raw k. mandateApprove L E s raw = Inr (Commit (EMandateApproval i c p n) k)"
  by (erule commits.cases) ((drule shapes, (elim exE conjE)?, simp; fail) | blast | simp)+

lemma new_approval_has_key:
  assumes "commits L E s (EApproval i c p n) \<or> commits L E s (EMandateApproval i c p n)"
  shows "approvedBy (gState s) [\<lparr>apCredId = c, apPerson = p, apAt = tm\<rparr>]"
  using assms
proof
  assume "commits L E s (EApproval i c p n)"
  then obtain raw k where "approve L E s raw = Inr (Commit (EApproval i c p n) k)" using commits_approval by blast
  then show ?thesis by (rule approve_records) (auto simp: approvedBy_def)
next
  assume "commits L E s (EMandateApproval i c p n)"
  then obtain raw k where "mandateApprove L E s raw = Inr (Commit (EMandateApproval i c p n) k)" using commits_mandateApproval by blast
  then show ?thesis by (rule mandateApprove_records) (auto simp: approvedBy_def)
qed

lemma approvedBy_append: "approvedBy st (as @ bs) \<longleftrightarrow> approvedBy st as \<and> approvedBy st bs"
  by (auto simp: approvedBy_def)

lemma keyInv_step:
  assumes "keyInv (gState s)" "commits L E s b" "applyBody L (gState s) (eAt E) b = Inr st"
  shows "keyInv st"
  unfolding keyInv_def
proof (intro conjI allI impI)
  fix i q
  assume "mapGet (sIntents st) i = Some q"
  from applyBody_approvals [OF assms(3) this] have "approvedBy (gState s) (rApprovals q)"
    using assms(1) new_approval_has_key [of L E s i] assms(2) unfolding keyInv_def by (auto simp: approvedBy_append) (auto simp: approvedBy_def)
  then show "approvedBy st (rApprovals q)" by (rule approvedBy_step [OF _ assms(2,3)])
next
  fix i m
  assume "mapGet (sMandates st) i = Some m"
  from applyBody_mandates [OF assms(3) this] have "approvedBy (gState s) (dApprovals m)"
    using assms(1) new_approval_has_key [of L E s i] assms(2) unfolding keyInv_def by (auto simp: approvedBy_append) (auto simp: approvedBy_def)
  then show "approvedBy st (dApprovals m)" by (rule approvedBy_step [OF _ assms(2,3)])
qed

interpretation keyI: signer_invariant L keyInv for L
  by unfold_locales (simp add: keyInv_def emptyState_def, rule keyInv_step)

lemma approvalsQuorum_four_eyes:
  assumes "approvalsQuorum st as" "sPolicy st = Some p" "mode p = ''four_eyes''" "approvedBy st as"
  shows "\<exists>a b. a \<in> set as \<and> b \<in> set as \<and> apPerson a \<noteq> apPerson b \<and>
    (\<forall>x\<in>{a, b}. \<exists>k. mapGet (sKeys st) (apCredId x) = Some k \<and> kActive k \<and> kPerson k = apPerson x)"
proof -
  have "approvalsSatisfied p (map (\<lambda>a. \<lparr>personId = apPerson a, credentialId = apCredId a\<rparr>) (filter (\<lambda>a. keyActive st (apCredId a)) as)) (activeKeysByPerson st)"
    using assms(1,2) by (simp add: approvalsQuorum_def)
  then obtain a b where ab: "a \<in> set as" "b \<in> set as" "keyActive st (apCredId a)" "keyActive st (apCredId b)" "apPerson a \<noteq> apPerson b"
    by (rule approvalsSatisfied_four_eyes [OF assms(3)]) auto
  have "\<exists>k. mapGet (sKeys st) (apCredId x) = Some k \<and> kActive k \<and> kPerson k = apPerson x" if "x \<in> {a, b}" for x
    using that ab assms(4) unfolding approvedBy_def by (force simp: keyActive_def split: option.splits)
  with ab show ?thesis by blast
qed

text \<open>The approvals that count for an intent: its own, or those of its mandate.\<close>

definition countedApprovals :: "signerState \<Rightarrow> intentRecord \<Rightarrow> approvalT list" where
  "countedApprovals st r = (case rMandateId r of None \<Rightarrow> rApprovals r
     | Some m \<Rightarrow> (case mapGet (sMandates st) m of None \<Rightarrow> [] | Some d \<Rightarrow> dApprovals d))"

lemma quorum_counted: "quorum st r \<Longrightarrow> approvalsQuorum st (countedApprovals st r)"
  by (auto simp: quorum_def countedApprovals_def mandateQuorum_def split: option.splits)

lemma counted_approvedBy: "keyInv st \<Longrightarrow> mapGet (sIntents st) i = Some r \<Longrightarrow> approvedBy st (countedApprovals st r)"
  unfolding keyInv_def countedApprovals_def by (cases "rMandateId r"; cases "mapGet (sMandates st) (the (rMandateId r))") (auto simp: approvedBy_def)


text \<open>
  C8. An approval is recorded only for a fresh, verified confirmation: \<open>approve\<close> records the key, its
  person and the new counter only if the key is active, has not approved this intent before, the
  intent is open and not under a mandate, and the assertion verifies for exactly the text of the intent.
\<close>

theorem approval_is_verified:
  assumes "approve L E s raw = Inr (Commit (EApproval i c person n) k)"
  shows "\<exists>ini r key x. sInit (gState s) = Some ini \<and> sFrozen (gState s) = None \<and> rIntentId r = i \<and> r \<in> set (mapValues (sIntents (gState s))) \<and>
    \<not> rCancelled r \<and> \<not> rVetoed r \<and> eNow E \<le> iExpiresAt (rIntent r) \<and> rMandateId r = None \<and> c \<notin> apCredId ` set (rApprovals r) \<and>
    mapGet (sKeys (gState s)) c = Some key \<and> kActive key \<and> kPerson key = person \<and>
    verifyAssertion L x \<lparr>cxRpId = inRpId ini, cxOrigin = inOrigin ini, cxChallenge = intentChallenge L (rText r),
      cxSpki = kSpki key, cxStoredCounter = kCounter key\<rparr> = Inr n"
  using assms
proof (rule approve_records)
  fix a ini j r c' key n'
  assume A: "sInit (gState s) = Some ini" "sFrozen (gState s) = None" "mapGet (sIntents (gState s)) j = Some r"
    "\<not> rCancelled r" "\<not> rVetoed r" "eNow E \<le> iExpiresAt (rIntent r)" "rMandateId r = None"
    "mapGet (sKeys (gState s)) c' = Some key" "kActive key" "\<forall>x\<in>set (rApprovals r). apCredId x \<noteq> c'"
    "confirm L a ini (intentChallenge L (rText r)) key = Inr n'" "EApproval i c person n = EApproval (rIntentId r) c' (kPerson key) n'"
  have "\<exists>x. verifyAssertion L x \<lparr>cxRpId = inRpId ini, cxOrigin = inOrigin ini, cxChallenge = intentChallenge L (rText r),
      cxSpki = kSpki key, cxStoredCounter = kCounter key\<rparr> = Inr n'"
    using A(11) by (auto simp: confirm_def webauthnErrors_def andThen_eq_Inr split: sum.splits exn.splits)
  moreover have "r \<in> set (mapValues (sIntents (gState s)))" using mapGet_mem [OF A(3)] by force
  ultimately show ?thesis using A by auto
qed

section \<open>The app socket\<close>

text \<open>
  The second state is no looser: set-up, freeze and revoked keys stay, and the policy is the same or one
  that passes the rule \<open>isTightening\<close> and admits no more than the old one (\<open>admitsNoMore\<close>).
\<close>

definition noLooser :: "signerState \<Rightarrow> signerState \<Rightarrow> bool" where
  "noLooser s t \<longleftrightarrow> sInit t = sInit s \<and> (sFrozen s \<noteq> None \<longrightarrow> sFrozen t \<noteq> None) \<and>
     (sPolicy t = sPolicy s \<or> (\<exists>p q. sPolicy s = Some p \<and> sPolicy t = Some q \<and> isTightening p q \<and> admitsNoMore p q)) \<and>
     (\<forall>c k. mapGet (sKeys s) c = Some k \<longrightarrow> \<not> kActive k \<longrightarrow> (\<exists>k'. mapGet (sKeys t) c = Some k' \<and> \<not> kActive k'))"

lemma noLooser_iff:
  "noLooser s t \<longleftrightarrow> sInit t = sInit s \<and> (sFrozen s \<noteq> None \<longrightarrow> sFrozen t \<noteq> None) \<and>
     (sPolicy t = sPolicy s \<or> (\<exists>p q. sPolicy s = Some p \<and> sPolicy t = Some q \<and> isTightening p q)) \<and>
     (\<forall>c k. mapGet (sKeys s) c = Some k \<longrightarrow> \<not> kActive k \<longrightarrow> (\<exists>k'. mapGet (sKeys t) c = Some k' \<and> \<not> kActive k'))"
  unfolding noLooser_def using tightening_admitsNoMore by blast

lemma noLooser_refl: "noLooser s s"
  by (simp add: noLooser_iff)

lemma noLooser_body:
  assumes "applyBody L s tm b = Inr t" "\<And>i. b \<noteq> EInit i" "b \<noteq> EUnfreeze"
    "\<And>p y. b = EPolicy p y \<Longrightarrow> \<exists>q. sPolicy s = Some q \<and> isTightening q p" "\<And>e p c x y n. b = EKey e p c x y n \<Longrightarrow> mapGet (sKeys s) c = None"
  shows "noLooser s t"
proof (cases b)
  case (EIntent i x m)
  with assms(1) show ?thesis by (auto simp: applyBody_def applyIntent_def noLooser_iff exn_simps Let_def split: if_splits)
next
  case (ESigned g)
  with assms(1) applySigned_parts [of s tm g t] show ?thesis by (auto simp: applyBody_def noLooser_iff)
next
  case (EKey e p c x y n)
  with assms(1) assms(5) [OF EKey] show ?thesis by (auto simp: applyBody_def applyKey_def noLooser_iff)
next
  case (EPolicy p y)
  with assms(1) assms(4) [OF EPolicy] show ?thesis by (auto simp: applyBody_def noLooser_iff)
qed (use assms(1-3) in \<open>auto simp: applyBody_def applyAccount_def applyApproval_def applyMandate_def applyMandateApproval_def mapGet_mapUpdate
       noLooser_iff Let_def split: option.splits sum.splits\<close>)

definition calm :: "handler \<Rightarrow> bool" where
  "calm h \<longleftrightarrow> (\<forall>L E s a t r. h L E s a = (t, r) \<longrightarrow> noLooser (gState s) (gState t))"

lemma calm_read: "calm (\<lambda>L E s a. (s, f L E s a))"
  by (simp add: calm_def noLooser_refl)

lemma calm_run:
  assumes "\<And>L E s a b k. f L E s a = Inr (Commit b k) \<Longrightarrow> (\<forall>i. b \<noteq> EInit i) \<and> b \<noteq> EUnfreeze \<and>
    (\<forall>p y. b = EPolicy p y \<longrightarrow> (\<exists>q. sPolicy (gState s) = Some q \<and> isTightening q p)) \<and>
    (\<forall>e p c x y n. b = EKey e p c x y n \<longrightarrow> mapGet (sKeys (gState s)) c = None)"
  shows "calm (runC f)"
  unfolding calm_def runC_def
proof (intro allI impI)
  fix L E s a t r
  assume "runD L E s (f L E s a) = (t, r)"
  from runD_state [OF this] show "noLooser (gState s) (gState t)"
    using assms [of L E s a] noLooser_body [of L "gState s" "eAt E" _ "gState t"] noLooser_refl by metis
qed

lemma calm_shape:
  assumes "\<And>L E s a b k. f L E s a = Inr (Commit b k) \<Longrightarrow> (\<forall>i. b \<noteq> EInit i) \<and> b \<noteq> EUnfreeze \<and> (\<forall>p y. b \<noteq> EPolicy p y) \<and> (\<forall>e p c x y n. b \<noteq> EKey e p c x y n)"
  shows "calm (runC f)"
  by (rule calm_run) (use assms in blast)

lemma calm_tighten: "calm (runC (\<lambda>L E s a. policyTighten L s a))"
proof (rule calm_run)
  fix L and E :: env and s a b k
  assume "policyTighten L s a = Inr (Commit b k)"
  then obtain nxt p q where "checkPolicyChain L s nxt = Inr p" "isTightening (policyRat p) nxt" "policyInt nxt = Inr q" "b = EPolicy q ''app''"
    unfolding policyTighten_def guard_simps sum.inject decision.inject by blast
  moreover then have "sPolicy (gState s) = Some p"
    unfolding checkPolicyChain_def guard_simps requireInit_ok by (auto split: if_splits)
  ultimately show "(\<forall>i. b \<noteq> EInit i) \<and> b \<noteq> EUnfreeze \<and>
    (\<forall>p y. b = EPolicy p y \<longrightarrow> (\<exists>q. sPolicy (gState s) = Some q \<and> isTightening q p)) \<and>
    (\<forall>e p c x y n. b = EKey e p c x y n \<longrightarrow> mapGet (sKeys (gState s)) c = None)"
    using isTightening_rat [of p q] policyInt_rat [of nxt q] by simp
qed

lemma calm_enrolFinish: "calm (runC enrolFinish)"
  by (rule calm_run) (drule enrolFinish_shape, auto)

lemma app_calm: "\<forall>x\<in>set APP_COMMANDS. calm (snd x)"
  unfolding APP_COMMANDS_def
  by (simp, intro conjI; (rule calm_read calm_tighten calm_enrolFinish | (rule calm_shape, drule shapes, (elim exE conjE)?, simp; fail)))

text \<open>
  C9. The app socket cannot loosen the signer: whatever line the app sends, the set-up stays, a frozen
  signer stays frozen, a revoked key stays revoked, and the policy is unchanged or replaced by one that
  passes the rule \<open>isTightening\<close> and admits no payment (per payout and per day), no network and no mode that
  was refused, no smaller number of keys, no shorter delay or cooldown, no longer window, no live funds and no
  higher fee cap where both caps are numbers. A fee cap that was recorded as text is outside this: two
  texts are compared as text, and the app can raise such a cap (\<open>text_caps_defeat_tightening\<close> of \<open>Policy\<close>).
\<close>

theorem app_cannot_loosen:
  "noLooser (gState s) (gState (fst (handleLine APP_COMMANDS L E s line)))"
proof -
  have "noLooser (gState s) (gState t)" if "map_of APP_COMMANDS c = Some h" "h L E s a = (t, r)" for c h a t r
    using app_calm map_of_SomeD [OF that(1)] that(2) unfolding calm_def by fastforce
  then show ?thesis
    by (auto simp: handleLine_def commandOf_def noLooser_refl Let_def split: option.splits json.splits prod.splits)
qed

section \<open>Accounts\<close>

text \<open>The indices of accounts are below the next index of their network, and never shared.\<close>

definition accountInv :: "signerState \<Rightarrow> bool" where
  "accountInv st \<longleftrightarrow> (\<forall>k a. mapGet (sAccounts st) k = Some a \<longrightarrow> 0 \<le> aIndex a \<and> aIndex a < getOr (sNextIndex st) (aNetwork a) 0) \<and>
     (\<forall>k l a c. mapGet (sAccounts st) k = Some a \<longrightarrow> mapGet (sAccounts st) l = Some c \<longrightarrow> k \<noteq> l \<longrightarrow> aNetwork a = aNetwork c \<longrightarrow> aIndex a \<noteq> aIndex c) \<and>
     (\<forall>n. 0 \<le> getOr (sNextIndex st) n 0)"

lemma applyBody_account_maps:
  assumes "applyBody L s tm b = Inr s'" "\<And>x n i y. b \<noteq> EAccount x n i y"
  shows "sAccounts s' = sAccounts s \<and> sNextIndex s' = sNextIndex s"
proof (cases b)
  case (EIntent i t m)
  with assms(1) show ?thesis by (auto simp: applyBody_def applyIntent_def exn_simps Let_def split: if_splits)
next
  case (ESigned g)
  then have a: "applySigned s tm g = Inr s'" using assms(1) by (simp add: applyBody_def)
  have "sNextIndex (noteNonce u k n) = sNextIndex u" "sNextIndex (noteChange u k c) = sNextIndex u" for u k n c
    by (simp_all add: noteNonce_def noteChange_def split: option.split)
  then have "sNextIndex s' = sNextIndex s" using a by (auto simp: applySigned_def Let_def exn_simps split: option.splits)
  with applySigned_parts(3) [OF a] show ?thesis by simp
qed (use assms in \<open>auto simp: applyBody_def applyKey_def applyApproval_def applyMandate_def applyMandateApproval_def Let_def
       split: option.splits sum.splits\<close>)

lemma account_records:
  assumes "accountCreate L E s raw = Inr (Commit b k)"
  shows "\<exists>x n y. b = EAccount x n (getOr (sNextIndex (gState s)) n 0) y \<and> mapGet (sAccounts (gState s)) x = None"
proof -
  from assms obtain x n f where e: "(case mapGet (sAccounts (gState s)) x of
      Some ex \<Rightarrow> if aNetwork ex \<noteq> n then failG ''account_network'' else Inr (Answer (JObj (accountFields ex @ [(''fingerprint'', JStr f)])))
    | None \<Rightarrow> andThen (accountXpub L (gRing s) n (getOr (sNextIndex (gState s)) n 0)) (\<lambda>xpub.
        Inr (Commit (EAccount x n (getOr (sNextIndex (gState s)) n 0) xpub) (\<lambda>_.
          Inr (JObj [(''accountId'', JStr x), (''network'', JStr n), (''index'', JInt (getOr (sNextIndex (gState s)) n 0)), (''xpub'', JStr xpub),
            (''fingerprint'', JStr f)]))))) = Inr (Commit b k)"
    unfolding accountCreate_def guard_simps Let_def by blast
  show ?thesis
  proof (cases "mapGet (sAccounts (gState s)) x")
    case None
    with e show ?thesis by (auto simp: andThen_eq_Inr)
  next
    case (Some ex)
    with e show ?thesis by (simp split: if_splits)
  qed
qed

lemma commits_account_create: "commits L E s (EAccount x n i y) \<Longrightarrow> \<exists>raw k. accountCreate L E s raw = Inr (Commit (EAccount x n i y) k)"
  by (erule commits.cases) ((drule shapes, (elim exE conjE)?, simp; fail) | blast | simp)+

lemma accountInv_step:
  assumes "accountInv (gState s)" "commits L E s b" "applyBody L (gState s) tm b = Inr st"
  shows "accountInv st"
proof (cases "\<exists>x n i y. b = EAccount x n i y")
  case True
  then obtain x n i y where b: "b = EAccount x n i y" by blast
  with assms(2) obtain raw k where "accountCreate L E s raw = Inr (Commit (EAccount x n i y) k)" using commits_account_create by blast
  from account_records [OF this] have new: "mapGet (sAccounts (gState s)) x = None" "i = getOr (sNextIndex (gState s)) n 0" by auto
  let ?old = "gState s" and ?a = "\<lparr>aAccountId = x, aNetwork = n, aIndex = i, aXpub = y\<rparr>"
  have st: "sAccounts st = mapSet (sAccounts ?old) x ?a" "sNextIndex st = mapSet (sNextIndex ?old) n (i + 1)"
    using assms(3) b new(2) by (auto simp: applyBody_def applyAccount_def max_def)
  have nx: "getOr (sNextIndex st) m 0 = (if m = n then i + 1 else getOr (sNextIndex ?old) m 0)" for m by (simp add: st getOr_def)
  have i0: "0 \<le> i" using assms(1) new(2) by (simp add: accountInv_def)
  have acc: "mapGet (sAccounts st) k = (if k = x then Some ?a else mapGet (sAccounts ?old) k)" for k by (simp add: st)
  have bd: "0 \<le> aIndex a \<and> aIndex a < getOr (sNextIndex ?old) (aNetwork a) 0" if "mapGet (sAccounts ?old) k = Some a" for k a
    using assms(1) that unfolding accountInv_def by blast
  have lt: "aIndex a < i" if "mapGet (sAccounts ?old) k = Some a" "aNetwork a = n" for k a using bd [OF that(1)] that(2) new(2) by simp
  have "0 \<le> aIndex a \<and> aIndex a < getOr (sNextIndex st) (aNetwork a) 0" if "mapGet (sAccounts st) k = Some a" for k a
    using that bd [of k a] lt [of k a] i0 by (auto simp: acc nx split: if_splits)
  moreover have "aIndex a \<noteq> aIndex c" if "mapGet (sAccounts st) k = Some a" "mapGet (sAccounts st) l = Some c" "k \<noteq> l" "aNetwork a = aNetwork c" for k l a c
  proof (cases "k = x \<or> l = x")
    case True
    with that lt [of k a] lt [of l c] show ?thesis unfolding acc by fastforce
  next
    case False
    with that have "mapGet (sAccounts ?old) k = Some a" "mapGet (sAccounts ?old) l = Some c" by (simp_all add: acc)
    with assms(1) that(3,4) show ?thesis unfolding accountInv_def by blast
  qed
  moreover have "0 \<le> getOr (sNextIndex st) m 0" for m using assms(1) i0 by (simp add: nx accountInv_def)
  ultimately show ?thesis unfolding accountInv_def by blast
next
  case False
  with applyBody_account_maps [OF assms(3)] assms(1) show ?thesis by (simp add: accountInv_def)
qed

interpretation accountI: signer_invariant L accountInv for L
  by unfold_locales (simp add: accountInv_def emptyState_def getOr_def, rule accountInv_step)

text \<open>
  C11. No two accounts share keys: in every reachable signer different accounts of a network have
  different, non-negative derivation indices, below the index the next account will get.
\<close>

theorem accounts_never_share_keys:
  assumes "reachable L tm s" "mapGet (sAccounts (gState s)) k = Some a" "mapGet (sAccounts (gState s)) l = Some c" "k \<noteq> l" "aNetwork a = aNetwork c"
  shows "aIndex a \<noteq> aIndex c \<and> 0 \<le> aIndex a \<and> aIndex a < getOr (sNextIndex (gState s)) (aNetwork a) 0"
  using accountI.inv_reachable [OF assms(1)] assms(2-) unfolding accountInv_def by blast

end
