(* ===== verification/Signer_Limits.thy ===== *)
theory Signer_Limits
  imports Signer_Safety
begin

text \<open>
  The amounts that can leave: the limit per day is kept by every first signature, and the payouts
  signed over a mandate never exceed its total.
\<close>

section \<open>Sums over a map with one changed entry\<close>

lemma sum_mapSet_Some:
  fixes f :: "'v \<Rightarrow> int"
  shows "mapGet m k = Some v \<Longrightarrow> sum_list (map f (mapValues (mapSet m k w))) = sum_list (map f (mapValues m)) - f v + f w"
  by (induction m) (auto split: if_splits)

lemma sum_mapSet_None:
  fixes f :: "'v \<Rightarrow> int"
  shows "mapGet m k = None \<Longrightarrow> sum_list (map f (mapValues (mapSet m k w))) = sum_list (map f (mapValues m)) + f w"
  by (induction m) (auto split: if_splits)

lemma set_mapValues_mapSet: "set (mapValues (mapSet m k w)) \<subseteq> insert w (set (mapValues m))"
  by (induction m) auto

section \<open>The limit per day\<close>

definition dayShare :: "string \<Rightarrow> int \<Rightarrow> intentRecord \<Rightarrow> int res" where
  "dayShare cd tm r = (case firstSigned r of
      Some (t, g) \<Rightarrow> if sgAsset g = cd \<and> t > tm - DAY then toBigInt (sgAmount g) else Inr 0
    | None \<Rightarrow> Inr 0)"

lemma sumSigned_share: "sumSigned cd tm (r # rs) = andThen (dayShare cd tm r) (\<lambda>n. andThen (sumSigned cd tm rs) (\<lambda>m. Inr (n + m)))"
  by (simp add: dayShare_def)

lemma sumSigned_mapSet:
  assumes "mapGet m i = Some r" "dayShare cd tm r = Inr 0" "dayShare cd tm q = Inr c" "sumSigned cd tm (mapValues m) = Inr n"
  shows "sumSigned cd tm (mapValues (mapSet m i q)) = Inr (n + c)"
  using assms
proof (induction m arbitrary: n)
  case Nil
  then show ?case by simp
next
  case (Cons x m)
  obtain k v where x: "x = (k, v)" by (cases x)
  from Cons.prems(4) x obtain a b where ab: "dayShare cd tm v = Inr a" "sumSigned cd tm (mapValues m) = Inr b" "n = a + b"
    by (auto simp: sumSigned_share andThen_eq_Inr simp del: sumSigned.simps(2))
  show ?case
  proof (cases "k = i")
    case True
    with Cons.prems x have "v = r" by simp
    with ab Cons.prems(2,3) True x show ?thesis by (simp add: sumSigned_share del: sumSigned.simps(2))
  next
    case False
    with Cons.prems x have "mapGet m i = Some r" by simp
    from Cons.IH [OF this Cons.prems(2,3) ab(2)] ab False x show ?thesis
      by (simp add: sumSigned_share del: sumSigned.simps(2))
  qed
qed

lemma buildEthSpend_amount: "buildEthSpend L req k = Inr e \<Longrightarrow> 0 < eqAmount req"
  unfolding buildEthSpend_def build_simps Let_def not_le by blast

lemma draft_amount_pos:
  assumes "draftFor L s r ai md planArg p first lst = Inr d" "\<not> isMode md ''cancel''"
  shows "0 < the (iAmount (rIntent r))"
  using assms(1)
proof (rule draftFor_ok)
  fix plan
  assume "signBtc L s r ai md plan p first lst = Inr d"
  then show ?thesis
  proof (rule signBtc_draft)
    fix inputs fee keyAt main ci ca dest amount b
    assume t: "btcTarget L (gState s) r md inputs fee keyAt main first lst = Inr (ci, ca, dest, amount)"
      and b: "buildBtcSpend L \<lparr>bqNetwork = iNetwork (rIntent r), bqDestination = dest, bqAmount = amount, bqInputs = inputs,
          bqChangeIndex = ci, bqFee = fee, bqFeeCap = (case iFeeCap (rIntent r) of None \<Rightarrow> 0 | Some c \<Rightarrow> c),
          bqMaxSatPerVb = btcSatPerVb (feeCaps p)\<rparr> keyAt = Inr b"
    have "amount = the (iAmount (rIntent r))" using btcTarget_ok [OF t] assms(2) by blast
    moreover from b have "0 < amount" by (rule buildBtcSpend_ok) simp
    ultimately show ?thesis by simp
  qed
next
  fix plan
  assume "signEth L s r ai md plan p first lst = Inr d"
  then show ?thesis
    by (rule signEth_draft) (drule buildEthSpend_amount, use assms(2) in simp)
qed

text \<open>
  C5. The limit per day is kept: after a first signature is applied, the first signatures of its asset
  within the last 24 hours, the new one included, add up to at most the limit per day of the policy.
\<close>

theorem day_limit_is_kept:
  assumes "sign L E s raw = Inr (Commit (ESigned g) k)" "isMode (sgMode g) ''first''" "applyBody L (gState s) (eAt E) (ESigned g) = Inr st"
    "sPolicy (gState s) = Some p" "reachable L tm s" "eNow E \<le> eAt E"
  shows "\<exists>l n. map_of (limits p) (sgAsset g) = Some (Some l) \<and> signedLast24h st (sgAsset g) (eNow E) = Inr n \<and> n \<le> bigInt (perDay l)"
  using assms(1)
proof (rule sign_records)
  fix a ini p' i r md acc account cd amt d
  assume A: "sPolicy (gState s) = Some p'" "mapGet (sIntents (gState s)) i = Some r"
    "iAsset (rIntent r) = Some cd" "iAmount (rIntent r) = Some amt"
    and fi: "isMode md ''first'' \<Longrightarrow> rSignatures r = [] \<and> firstGuards L E s p' r = Inr ()"
    and d: "draftFor L s r (aIndex account) md (jfield a ''plan'') p' (map_option snd (firstSigned r)) (map_option snd (lastSigned r)) = Inr d"
    and g: "ESigned g = ESigned (signedOfDraft r md account d)"
  have md: "isMode md ''first''" using g assms(2) by (simp add: signedOfDraft_def)
  then have r: "rSignatures r = []" and gd: "firstGuards L E s p' r = Inr ()" and nc: "\<not> isMode md ''cancel''" using fi by (auto simp: isMode_def)
  have amt: "0 < amt" using draft_amount_pos [OF d nc] A(4) by simp
  have ri: "rIntentId r = i" using sigInv_rec [OF sigI.inv_reachable [OF assms(5)] A(2)] by (simp add: recOk_def)
  have sg: "sgAsset g = cd" "sgAmount g = show_int amt" "sgIntentId g = i" "sgMode g = md" using g A ri by (simp_all add: signedOfDraft_def)
  let ?q = "r\<lparr>rSignatures := rSignatures r @ [(eAt E, g)]\<rparr>"
  have st: "sIntents st = mapSet (sIntents (gState s)) i ?q"
    using assms(3) applySigned_parts(1) [of "gState s" "eAt E" g st] A(2) sg(3) by (simp add: applyBody_def mapUpdate_def)
  from gd show ?thesis
  proof (rule firstGuards_ok)
    fix start upto day
    assume day: "signedLast24h (gState s) (the (iAsset (rIntent r))) (eNow E) = Inr day"
      "spendAllowed p' (the (iAsset (rIntent r))) (the (iAmount (rIntent r))) day = ''ok''"
    have "dayShare cd (eNow E) ?q = Inr amt"
      using r md sg toBigInt_show [of amt] amt assms(6) by (simp add: dayShare_def firstSigned_def DAY_def)
    moreover have "dayShare cd (eNow E) r = Inr 0" using r by (simp add: dayShare_def firstSigned_def)
    ultimately have "signedLast24h st cd (eNow E) = Inr (day + amt)"
      using sumSigned_mapSet [OF A(2)] day(1) A(3) st by (simp add: signedLast24h_def)
    moreover have "\<exists>l. map_of (limits p) cd = Some (Some l) \<and> day + amt \<le> bigInt (perDay l)"
      using day(2) A(1,3,4) assms(4) by (auto simp: spendAllowed_ok_iff)
    ultimately show ?thesis using sg(1) by blast
  qed
qed

section \<open>Mandates\<close>

definition amountOf :: "intentRecord \<Rightarrow> int" where
  "amountOf r = (case iAmount (rIntent r) of None \<Rightarrow> 0 | Some a \<Rightarrow> a)"

text \<open>What an intent counts for a mandate at a time.\<close>

definition share :: "string \<Rightarrow> int \<Rightarrow> intentRecord \<Rightarrow> int" where
  "share m tm r = (if rMandateId r = Some m \<and> \<not> rCancelled r \<and> \<not> rVetoed r \<and> (rSignatures r \<noteq> [] \<or> isOpen r tm) then amountOf r else 0)"

lemma mandateUsed_share: "mandateUsed st m tm = sum_list (map (share m tm) (mapValues (sIntents st)))"
proof -
  have "sum_list (map f (filter P xs)) = sum_list (map (\<lambda>x. if P x then f x else 0) xs)" for f :: "intentRecord \<Rightarrow> int" and P xs
    by (induction xs) simp_all
  then show ?thesis unfolding mandateUsed_def share_def amountOf_def by simp
qed

lemma isOpen_antitone: "isOpen r tn \<Longrightarrow> tm \<le> tn \<Longrightarrow> isOpen r tm"
  by (auto simp: isOpen_def split: if_splits)

definition plainRec :: "intentRecord \<Rightarrow> bool" where
  "plainRec r \<longleftrightarrow> 0 \<le> amountOf r \<and> (rSignatures r \<noteq> [] \<longrightarrow> \<not> rCancelled r \<and> \<not> rVetoed r \<and> iKind (rIntent r) = ''payout'') \<and>
     (rSignableAt r \<noteq> None \<longrightarrow> rApprovedAt r \<noteq> None)"

lemma share_bounds: "plainRec r \<Longrightarrow> 0 \<le> share m tm r \<and> share m tm r \<le> amountOf r"
  by (simp add: share_def plainRec_def)

lemma share_antitone: "plainRec r \<Longrightarrow> tm \<le> tn \<Longrightarrow> share m tn r \<le> share m tm r"
  using isOpen_antitone by (auto simp: share_def plainRec_def)

definition mandInv :: "int \<Rightarrow> signerState \<Rightarrow> bool" where
  "mandInv tm st \<longleftrightarrow> (\<forall>r\<in>set (mapValues (sIntents st)). plainRec r \<and> (\<forall>m. rMandateId r = Some m \<longrightarrow> mapGet (sMandates st) m \<noteq> None)) \<and>
     (\<forall>m d. mapGet (sMandates st) m = Some d \<longrightarrow> dMandateId d = m \<and> mandateUsed st m tm \<le> mTotal (dMandate d))"

lemma mandInv_empty: "mandInv tm emptyState"
  by (simp add: mandInv_def emptyState_def)

lemma mandInv_later:
  assumes "mandInv tm st" "tm \<le> tn"
  shows "mandInv tn st"
proof -
  have "mandateUsed st m tn \<le> mandateUsed st m tm" for m
    unfolding mandateUsed_share using assms by (intro sum_list_mono share_antitone) (auto simp: mandInv_def)
  with assms(1) show ?thesis unfolding mandInv_def by (meson order.trans)
qed

text \<open>One entry of the map of intents changes.\<close>

lemma mandInv_mapSet:
  assumes "mandInv tm st" "sIntents st' = mapSet (sIntents st) i q" "sMandates st' = sMandates st" "plainRec q"
    "\<And>m. rMandateId q = Some m \<Longrightarrow> mapGet (sMandates st) m \<noteq> None"
    "\<And>m d. mapGet (sMandates st) m = Some d \<Longrightarrow> share m tm q \<le> (case mapGet (sIntents st) i of None \<Rightarrow> 0 | Some r \<Rightarrow> share m tm r) \<or>
      mandateUsed st m tm + share m tm q \<le> mTotal (dMandate d)"
  shows "mandInv tm st'"
proof -
  have old: "plainRec r" if "mapGet (sIntents st) i = Some r" for r
  proof -
    have "r \<in> set (mapValues (sIntents st))" using mapGet_mem [OF that] by force
    with assms(1) show ?thesis unfolding mandInv_def by blast
  qed
  have "mandateUsed st' m tm \<le> mTotal (dMandate d)" if d: "mapGet (sMandates st) m = Some d" for m d
  proof -
    have b: "mandateUsed st m tm \<le> mTotal (dMandate d)" using assms(1) d by (simp add: mandInv_def)
    show ?thesis
    proof (cases "mapGet (sIntents st) i")
      case None
      then have "mandateUsed st' m tm = mandateUsed st m tm + share m tm q"
        unfolding mandateUsed_share assms(2) by (rule sum_mapSet_None)
      with assms(6) [OF d] b None show ?thesis by auto
    next
      case (Some r)
      then have "mandateUsed st' m tm = mandateUsed st m tm - share m tm r + share m tm q"
        unfolding mandateUsed_share assms(2) by (rule sum_mapSet_Some)
      with assms(6) [OF d] b Some share_bounds [OF old [OF Some], of m tm] show ?thesis by auto
    qed
  qed
  moreover have "\<forall>r\<in>set (mapValues (sIntents st')). plainRec r \<and> (\<forall>m. rMandateId r = Some m \<longrightarrow> mapGet (sMandates st') m \<noteq> None)"
  proof
    fix r
    assume "r \<in> set (mapValues (sIntents st'))"
    then have "r = q \<or> r \<in> set (mapValues (sIntents st))" using set_mapValues_mapSet [of i q "sIntents st"] unfolding assms(2) by blast
    then show "plainRec r \<and> (\<forall>m. rMandateId r = Some m \<longrightarrow> mapGet (sMandates st') m \<noteq> None)"
      using assms(1,4,5) unfolding assms(3) mandInv_def by blast
  qed
  ultimately show ?thesis using assms(1) unfolding mandInv_def assms(3) by blast
qed

lemma settle_flags: "rCancelled (settle s r tm) = rCancelled r" "rVetoed (settle s r tm) = rVetoed r"
  "(rSignableAt r \<noteq> None \<longrightarrow> rApprovedAt r \<noteq> None) \<Longrightarrow> rSignableAt (settle s r tm) \<noteq> None \<longrightarrow> rApprovedAt (settle s r tm) \<noteq> None"
  by (auto simp: settle_def Let_def split: option.splits)

lemma settle_plain: "plainRec r \<Longrightarrow> plainRec (settle s r tm)"
  using settle_sameCore [of r s tm] settle_flags(1,2) [of s r tm] settle_flags(3) [of r s tm] by (simp add: plainRec_def sameCore_def amountOf_def)

lemma share_sameCore_None: "sameCore r q \<Longrightarrow> rMandateId r = None \<Longrightarrow> share m tm q = 0"
  by (simp add: share_def sameCore_def)

text \<open>Mandates change only by their own events, and keep their content.\<close>

lemma applyBody_mandate_keys:
  assumes "applyBody L s tm b = Inr s'" "mapGet (sMandates s) m \<noteq> None"
  shows "mapGet (sMandates s') m \<noteq> None"
proof (cases b)
  case (EIntent i t x)
  with assms show ?thesis by (auto simp: applyBody_def applyIntent_def exn_simps Let_def split: if_splits)
next
  case (ESigned g)
  with assms applySigned_parts(4) [of s tm g s'] show ?thesis by (auto simp: applyBody_def)
qed (use assms in \<open>auto simp: applyBody_def applyAccount_def applyKey_def applyApproval_def applyMandate_def applyMandateApproval_def mapGet_mapUpdate Let_def
       split: option.splits sum.splits if_splits\<close>)

lemma applyBody_mandate_ids:
  assumes "applyBody L s tm b = Inr s'" "\<And>m d. mapGet (sMandates s) m = Some d \<Longrightarrow> dMandateId d = m" "mapGet (sMandates s') m = Some d"
  shows "dMandateId d = m"
proof (cases b)
  case (EIntent i t x)
  with assms show ?thesis by (auto simp: applyBody_def applyIntent_def exn_simps Let_def split: if_splits)
next
  case (ESigned g)
  with assms applySigned_parts(4) [of s tm g s'] show ?thesis by (auto simp: applyBody_def)
qed (use assms in \<open>auto simp: applyBody_def applyAccount_def applyKey_def applyApproval_def applyMandate_def applyMandateApproval_def mapGet_mapUpdate Let_def
       split: option.splits sum.splits if_splits\<close>)

lemma parseMandate_total_pos: "parseMandate L t = Inr m \<Longrightarrow> 0 < mTotal m"
proof -
  assume "parseMandate L t = Inr m"
  then have "validateMandate L m = Inr ()" using encode_parseMandate by (auto simp: encodeMandate_def exn_simps)
  from validateMandate_ok(10,11) [OF this] show ?thesis by simp
qed

text \<open>Events that leave the intents alone.\<close>

lemma mandInv_intents_same:
  assumes "mandInv tm s" "applyBody L s tn b = Inr s'" "sIntents s' = sIntents s"
    "\<And>i t. b = EMandate i t \<Longrightarrow> mapGet (sMandates s) i = None"
  shows "mandInv tm s'"
proof -
  have used: "mandateUsed s' m tm = mandateUsed s m tm" for m by (simp add: mandateUsed_def assms(3))
  have ids: "\<And>m d. mapGet (sMandates s) m = Some d \<Longrightarrow> dMandateId d = m" using assms(1) by (simp add: mandInv_def)
  have "mandateUsed s m tm \<le> mTotal (dMandate d)" if d: "mapGet (sMandates s') m = Some d" for m d
    using applyBody_mandates [OF assms(2) d]
  proof
    assume "\<exists>t. b = EMandate m t \<and> parseMandate L t = Inr (dMandate d) \<and> dApprovals d = []"
    then obtain t where t: "b = EMandate m t" "parseMandate L t = Inr (dMandate d)" by blast
    then have n: "mapGet (sMandates s) m = None" using assms(4) by blast
    have "share m tm r = 0" if "r \<in> set (mapValues (sIntents s))" for r
      using assms(1) that n unfolding mandInv_def share_def by auto
    then have "map (share m tm) (mapValues (sIntents s)) = map (\<lambda>_. 0) (mapValues (sIntents s))" by (intro map_cong) auto
    then have "mandateUsed s m tm = 0" unfolding mandateUsed_share by (simp only: sum_list_0)
    with parseMandate_total_pos [OF t(2)] show ?thesis by simp
  next
    assume "\<exists>m0. mapGet (sMandates s) m = Some m0 \<and> dMandate d = dMandate m0 \<and>
      (dApprovals d = dApprovals m0 \<or> (\<exists>c p n. b = EMandateApproval m c p n \<and> dApprovals d = dApprovals m0 @ [\<lparr>apCredId = c, apPerson = p, apAt = tn\<rparr>]))"
    with assms(1) show ?thesis unfolding mandInv_def by auto
  qed
  then show ?thesis
    using assms(1) applyBody_mandate_keys [OF assms(2)] applyBody_mandate_ids [OF assms(2) ids] used
    unfolding mandInv_def assms(3) by auto
qed

lemma mandateFor_ok:
  assumes "mandateFor s v initiator net cd amount dest tm = Inr (Some x)"
  shows "\<exists>key d. mapGet (sMandates (gState s)) key = Some d \<and> x = dMandateId d \<and> mandateQuorum (gState s) d \<and>
    mandateUsed (gState s) x tm + amount \<le> mTotal (dMandate d) \<and> amount \<le> mPerPayout (dMandate d) \<and> initiator = mGrantee (dMandate d) \<and>
    dest \<in> set (mDestinations (dMandate d)) \<and> tm < mValidUntil (dMandate d)"
proof (cases "v = None")
  case True
  with assms show ?thesis by (simp add: mandateFor_def)
next
  case False
  with assms obtain m where "mandateOf s v = Inr m" "mandateQuorum (gState s) m"
    "mandateCovers (dMandate m) \<lparr>uGrantee = initiator, uNetwork = net, uAsset = cd, uAmount = amount,
               uDestination = dest, uAt = tm, uUsed = mandateUsed (gState s) (dMandateId m) tm\<rparr> = ''ok''" "x = dMandateId m"
    unfolding mandateFor_def Let_def by (auto simp: andThen_eq_Inr split: if_splits)
  moreover then obtain key where "mapGet (sMandates (gState s)) key = Some m" unfolding mandateOf_ok by blast
  ultimately show ?thesis by (auto simp: mandateCovers_ok_iff)
qed

lemma payoutIntent_ok:
  assumes "payoutIntent L E s a i p initiator = Inr (it, mid)"
  shows "\<exists>amount v net cd dest. iAmount it = Some amount \<and> mandateFor s v initiator net cd amount dest (eNow E) = Inr mid"
  using assms unfolding payoutIntent_def Let_def guard_simps sum.inject prod.inject by (elim exE conjE) (hypsubst, fastforce)

lemma intentErrors_ok: "intentErrors m = Inr x \<longleftrightarrow> m = Inr x"
  by (auto simp: intentErrors_def bad_def split: sum.splits exn.splits)

lemma intentCreate_records:
  assumes "intentCreate L E s raw = Inr (Commit (EIntent i txt m) k)"
  shows "\<exists>it. encodeIntent L it = Inr txt \<and> (\<forall>x. m = Some x \<longrightarrow> (\<exists>key d. mapGet (sMandates (gState s)) key = Some d \<and> x = dMandateId d \<and>
    mandateUsed (gState s) x (eNow E) + (case iAmount it of None \<Rightarrow> 0 | Some n \<Rightarrow> n) \<le> mTotal (dMandate d)))"
proof -
  from assms obtain a ini p initiator y where y: "(if jfield a ''kind'' = Some (JStr ''whitelist'')
              then andThen (whitelistIntent L E s a ini p initiator) (\<lambda>it. Inr (it, None))
              else if jfield a ''kind'' = Some (JStr ''payout'') then payoutIntent L E s a ini p initiator
              else bad ''kind'') = Inr y" and e: "encodeIntent L (fst y) = Inr txt" "m = snd y"
    unfolding intentCreate_def guard_simps Let_def intentErrors_ok sum.inject decision.inject body.inject by blast
  have "\<exists>key d. mapGet (sMandates (gState s)) key = Some d \<and> x = dMandateId d \<and>
    mandateUsed (gState s) x (eNow E) + (case iAmount (fst y) of None \<Rightarrow> 0 | Some n \<Rightarrow> n) \<le> mTotal (dMandate d)" if "m = Some x" for x
  proof -
    have "payoutIntent L E s a ini p initiator = Inr y" using y e(2) that by (auto simp: andThen_eq_Inr split: if_splits)
    then have "payoutIntent L E s a ini p initiator = Inr (fst y, Some x)" using e(2) that by (cases y) simp
    from payoutIntent_ok [OF this] obtain amount v net cd dest where
      "iAmount (fst y) = Some amount" "mandateFor s v initiator net cd amount dest (eNow E) = Inr (Some x)" by blast
    with mandateFor_ok [of s v initiator net cd amount dest "eNow E" x] show ?thesis by auto
  qed
  with e(1) show ?thesis by blast
qed

lemma parseIntent_valid: "parseIntent L t = Inr it \<Longrightarrow> validateIntent L it = Inr ()"
  using encode_parseIntent [of L t it] by (auto simp: encodeIntent_def exn_simps)

lemma mandInv_intent:
  assumes "addressLib L" "mandInv (eNow E) (gState s)" "intentCreate L E s raw = Inr (Commit (EIntent i txt m) k)"
    "applyIntent L (gState s) tn i txt m = Inr st"
  shows "mandInv (eNow E) st"
proof -
  from intentCreate_records [OF assms(3)] obtain it where it: "encodeIntent L it = Inr txt"
    and man: "\<And>x. m = Some x \<Longrightarrow> \<exists>key d. mapGet (sMandates (gState s)) key = Some d \<and> x = dMandateId d \<and>
      mandateUsed (gState s) x (eNow E) + (case iAmount it of None \<Rightarrow> 0 | Some n \<Rightarrow> n) \<le> mTotal (dMandate d)" by blast
  from assms(4) obtain it' where it': "parseIntent L txt = Inr it'" by (auto simp: applyIntent_def andThen_eq_Inr)
  with encodeIntent_inj [OF assms(1) it encode_parseIntent [OF it']] have same: "it' = it" by simp
  define r0 where "r0 = newRecord i txt it tn m"
  have p0: "plainRec r0"
    using validateIntent_nonneg(2) [OF parseIntent_valid [OF it']] same by (auto simp: r0_def plainRec_def newRecord_def amountOf_def split: option.splits)
  let ?u = "(gState s)\<lparr>sIntents := mapSet (sIntents (gState s)) i r0\<rparr>"
  have "\<exists>q. st = (gState s)\<lparr>sIntents := mapSet (sIntents (gState s)) i q\<rparr> \<and> q \<in> {r0, settle ?u r0 tn}"
    using assms(4) it' same unfolding applyIntent_def r0_def Let_def by (cases "m \<noteq> None \<and> m \<noteq> Some []") auto
  then obtain q where q: "sIntents st = mapSet (sIntents (gState s)) i q" "sMandates st = sMandates (gState s)" "q = r0 \<or> (\<exists>u. q = settle u r0 tn)"
    by (elim exE conjE) (rule that, simp, simp, blast)
  have "sameCore r0 q" "plainRec q" using q(3) p0 settle_plain by auto
  then have c: "rMandateId q = m" "amountOf q = (case iAmount it of None \<Rightarrow> 0 | Some n \<Rightarrow> n)" by (auto simp: sameCore_def r0_def newRecord_def amountOf_def)
  show ?thesis
  proof (rule mandInv_mapSet [OF assms(2) q(1,2) \<open>plainRec q\<close>])
    show "mapGet (sMandates (gState s)) x \<noteq> None" if "rMandateId q = Some x" for x
      using man [of x] c(1) that assms(2) unfolding mandInv_def by auto
  next
    fix x d
    assume d: "mapGet (sMandates (gState s)) x = Some d"
    have z: "0 \<le> (case mapGet (sIntents (gState s)) i of None \<Rightarrow> 0 | Some r \<Rightarrow> share x (eNow E) r)"
    proof (cases "mapGet (sIntents (gState s)) i")
      case (Some r)
      then have "r \<in> set (mapValues (sIntents (gState s)))" using mapGet_mem by force
      then have "plainRec r" using assms(2) unfolding mandInv_def by blast
      with Some share_bounds show ?thesis by simp
    qed simp
    show "share x (eNow E) q \<le> (case mapGet (sIntents (gState s)) i of None \<Rightarrow> 0 | Some r \<Rightarrow> share x (eNow E) r) \<or>
      mandateUsed (gState s) x (eNow E) + share x (eNow E) q \<le> mTotal (dMandate d)"
    proof (cases "m = Some x")
      case True
      from man [OF True] obtain key d' where "mapGet (sMandates (gState s)) key = Some d'" "x = dMandateId d'"
        "mandateUsed (gState s) x (eNow E) + amountOf q \<le> mTotal (dMandate d')" using c(2) by auto
      moreover then have "key = x" using assms(2) unfolding mandInv_def by blast
      ultimately show ?thesis using d share_bounds [OF \<open>plainRec q\<close>, of x "eNow E"] by force
    next
      case False
      then have "share x (eNow E) q = 0" using c(1) by (simp add: share_def)
      with z show ?thesis by simp
    qed
  qed
qed

text \<open>A signature: a first one only for an intent that counted already.\<close>

lemma mandInv_signed:
  assumes "mandInv (eNow E) (gState s)" "sigInv (gState s)" "sign L E s raw = Inr (Commit (ESigned g) k)" "applySigned (gState s) tn g = Inr st"
  shows "mandInv (eNow E) st"
  using assms(3)
proof (rule sign_records)
  fix a ini p i r md acc account cd amt d
  assume r: "mapGet (sIntents (gState s)) i = Some r" "iKind (rIntent r) = ''payout''" "\<not> rCancelled r" "\<not> rVetoed r"
    and fi: "isMode md ''first'' \<Longrightarrow> rSignatures r = [] \<and> firstGuards L E s p r = Inr ()"
    and la: "\<not> isMode md ''first'' \<Longrightarrow> laterGuards (map_option snd (firstSigned r)) (map_option snd (lastSigned r)) md = Inr ()"
    and g: "ESigned g = ESigned (signedOfDraft r md account d)"
  have gi: "sgIntentId g = i" using g sigInv_rec [OF assms(2) r(1)] by (simp add: signedOfDraft_def recOk_def)
  let ?q = "r\<lparr>rSignatures := rSignatures r @ [(tn, g)]\<rparr>"
  have "r \<in> set (mapValues (sIntents (gState s)))" using mapGet_mem [OF r(1)] by force
  then have pr: "plainRec r" and mr: "\<And>m. rMandateId r = Some m \<Longrightarrow> mapGet (sMandates (gState s)) m \<noteq> None" using assms(1) unfolding mandInv_def by blast+
  have counted: "rSignatures r \<noteq> [] \<or> isOpen r (eNow E)"
  proof (cases "isMode md ''first''")
    case True
    then have e: "rSignatures r = []" and gd: "firstGuards L E s p r = Inr ()" using fi by auto
    from gd have "rSignableAt r \<noteq> None \<and> eNow E \<le> (case rSignUntil r of None \<Rightarrow> 0 | Some u \<Rightarrow> u)"
      by (rule firstGuards_ok) auto
    with pr r e show ?thesis by (auto simp: isOpen_def plainRec_def)
  next
    case False
    then show ?thesis using la firstSigned_Some_ne by (auto simp: laterGuards_ok)
  qed
  show ?thesis
  proof (rule mandInv_mapSet [OF assms(1)])
    show "sIntents st = mapSet (sIntents (gState s)) i ?q" "sMandates st = sMandates (gState s)"
      using applySigned_parts(1,4) [OF assms(4)] r(1) gi by (simp_all add: mapUpdate_def)
    show "plainRec ?q" using pr r by (simp add: plainRec_def amountOf_def)
    show "mapGet (sMandates (gState s)) m \<noteq> None" if "rMandateId ?q = Some m" for m using mr that by simp
    show "share m (eNow E) ?q \<le> (case mapGet (sIntents (gState s)) i of None \<Rightarrow> 0 | Some x \<Rightarrow> share m (eNow E) x) \<or>
      mandateUsed (gState s) m (eNow E) + share m (eNow E) ?q \<le> mTotal (dMandate d')" for m d'
      using r counted by (simp add: share_def amountOf_def)
  qed
qed

lemma cancel_records:
  assumes "intentCancel s raw by = Inr (Commit (ECancel i y) k)"
  shows "\<exists>j r. mapGet (sIntents (gState s)) j = Some r \<and> rIntentId r = i \<and> rSignatures r = []"
  using assms unfolding intentCancel_def guard_simps intentOf_ok by (auto split: if_splits)

lemma veto_records:
  assumes "whitelistVeto s raw = Inr (Commit (EVeto i) k)"
  shows "\<exists>j r. mapGet (sIntents (gState s)) j = Some r \<and> rIntentId r = i \<and> iKind (rIntent r) = ''whitelist''"
  using assms unfolding whitelistVeto_def guard_simps intentOf_ok by (auto split: if_splits)

lemma commits_cancel: "commits L E s (ECancel i y) \<Longrightarrow> \<exists>raw by k. intentCancel s raw by = Inr (Commit (ECancel i y) k)"
  by (erule commits.cases) ((drule shapes, (elim exE conjE)?, simp; fail) | blast | simp)+

lemma commits_veto: "commits L E s (EVeto i) \<Longrightarrow> \<exists>raw k. whitelistVeto s raw = Inr (Commit (EVeto i) k)"
  by (erule commits.cases) ((drule shapes, (elim exE conjE)?, simp; fail) | blast | simp)+

lemma mapUpdate_Some: "mapGet m k = Some v \<Longrightarrow> mapUpdate m k f = mapSet m k (f v)"
  by (simp add: mapUpdate_def)

text \<open>Closing an intent: it stops counting.\<close>

lemma mandInv_close:
  assumes "mandInv tm st" "mapGet (sIntents st) i = Some r" "rSignatures r = []" "sIntents st' = mapSet (sIntents st) i q" "sMandates st' = sMandates st"
    "q = r\<lparr>rCancelled := True\<rparr> \<or> q = r\<lparr>rVetoed := True\<rparr>"
  shows "mandInv tm st'"
proof (rule mandInv_mapSet [OF assms(1,4,5)])
  have "r \<in> set (mapValues (sIntents st))" using mapGet_mem [OF assms(2)] by force
  then have pr: "plainRec r" and mr: "\<And>m. rMandateId r = Some m \<Longrightarrow> mapGet (sMandates st) m \<noteq> None" using assms(1) unfolding mandInv_def by blast+
  show "plainRec q" using assms(3,6) pr by (auto simp: plainRec_def amountOf_def)
  show "mapGet (sMandates st) m \<noteq> None" if "rMandateId q = Some m" for m using mr [of m] that assms(6) by auto
  show "share m tm q \<le> (case mapGet (sIntents st) i of None \<Rightarrow> 0 | Some x \<Rightarrow> share m tm x) \<or> mandateUsed st m tm + share m tm q \<le> mTotal (dMandate d)" for m d
    using assms(2,6) share_bounds [OF pr, of m tm] by (auto simp: share_def)
qed

lemma mandInv_approval:
  assumes "mandInv tm st" "st' = applyApproval st tn i c p n" "\<And>r. mapGet (sIntents st) i = Some r \<Longrightarrow> rMandateId r = None"
  shows "mandInv tm st'"
proof (cases "mapGet (sIntents st) i")
  case None
  then have "sIntents st' = sIntents st" "sMandates st' = sMandates st" using assms(2) by (simp_all add: applyApproval_def Let_def)
  with assms(1) show ?thesis by (simp add: mandInv_def mandateUsed_def)
next
  case (Some r)
  let ?r1 = "r\<lparr>rApprovals := rApprovals r @ [\<lparr>apCredId = c, apPerson = p, apAt = tn\<rparr>]\<rparr>"
  have "\<exists>u. sIntents st' = mapSet (sIntents st) i (settle u ?r1 tn) \<and> sMandates st' = sMandates st"
    using assms(2) Some by (auto simp: applyApproval_def Let_def)
  then obtain u where u: "sIntents st' = mapSet (sIntents st) i (settle u ?r1 tn)" "sMandates st' = sMandates st" by blast
  have "r \<in> set (mapValues (sIntents st))" using mapGet_mem [OF Some] by force
  then have pr: "plainRec r" using assms(1) unfolding mandInv_def by blast
  have core: "sameCore r (settle u ?r1 tn)" using settle_sameCore [of ?r1 u tn] by (simp add: sameCore_def)
  show ?thesis
  proof (rule mandInv_mapSet [OF assms(1) u])
    show "plainRec (settle u ?r1 tn)" using pr by (intro settle_plain) (simp add: plainRec_def amountOf_def)
    show "mapGet (sMandates st) m \<noteq> None" if "rMandateId (settle u ?r1 tn) = Some m" for m
      using that core assms(3) [OF Some] by (simp add: sameCore_def)
    show "share m tm (settle u ?r1 tn) \<le> (case mapGet (sIntents st) i of None \<Rightarrow> 0 | Some x \<Rightarrow> share m tm x) \<or>
      mandateUsed st m tm + share m tm (settle u ?r1 tn) \<le> mTotal (dMandate d)" for m d
      using share_sameCore_None [OF core assms(3) [OF Some]] Some share_bounds [OF pr, of m tm] by simp
  qed
qed

lemma applyBody_same_intents:
  assumes "applyBody L s tm b = Inr s'" "\<And>g. b \<noteq> ESigned g" "\<And>i t m. b \<noteq> EIntent i t m" "\<And>i c p n. b \<noteq> EApproval i c p n" "\<And>i y. b \<noteq> ECancel i y" "\<And>i. b \<noteq> EVeto i"
  shows "sIntents s' = sIntents s"
  using assms by (cases b) (auto simp: applyBody_def applyAccount_def applyKey_def applyMandate_def applyMandateApproval_def Let_def split: option.splits sum.splits)

lemma mandInv_step:
  assumes "addressLib L" "mandInv (eNow E) (gState s)" "sigInv (gState s)" "commits L E s b" "applyBody L (gState s) (eAt E) b = Inr st"
  shows "mandInv (eNow E) st"
proof (cases b)
  case (ESigned g)
  then obtain raw k where "sign L E s raw = Inr (Commit (ESigned g) k)" using commits_signed assms(4) by blast
  with ESigned assms(5) show ?thesis using mandInv_signed [OF assms(2,3)] by (simp add: applyBody_def)
next
  case (EIntent i t m)
  then obtain raw k where "intentCreate L E s raw = Inr (Commit (EIntent i t m) k)" using commits_intent assms(4) by blast
  with EIntent assms(5) show ?thesis using mandInv_intent [OF assms(1,2)] by (simp add: applyBody_def)
next
  case (EApproval i c p n)
  then obtain raw k where "approve L E s raw = Inr (Commit (EApproval i c p n) k)" using commits_approval assms(4) by blast
  then have "rMandateId r = None" if "mapGet (sIntents (gState s)) i = Some r" for r
    by (rule approve_records) (use that sigInv_rec [OF assms(3)] in \<open>auto simp: recOk_def\<close>)
  moreover have "st = applyApproval (gState s) (eAt E) i c p n" using EApproval assms(5) by (simp add: applyBody_def)
  ultimately show ?thesis using mandInv_approval [OF assms(2)] by blast
next
  case (ECancel i y)
  then obtain raw w k where "intentCancel s raw w = Inr (Commit (ECancel i y) k)" using commits_cancel assms(4) by blast
  from cancel_records [OF this] obtain r where r: "mapGet (sIntents (gState s)) i = Some r" "rSignatures r = []"
    using sigInv_rec [OF assms(3)] by (auto simp: recOk_def)
  with ECancel assms(5) show ?thesis
    by (intro mandInv_close [OF assms(2) r, of _ "r\<lparr>rCancelled := True\<rparr>"]) (auto simp: applyBody_def mapUpdate_Some)
next
  case (EVeto i)
  then obtain raw k where "whitelistVeto s raw = Inr (Commit (EVeto i) k)" using commits_veto assms(4) by blast
  from veto_records [OF this] obtain r where r: "mapGet (sIntents (gState s)) i = Some r" "iKind (rIntent r) = ''whitelist''"
    using sigInv_rec [OF assms(3)] by (auto simp: recOk_def)
  have "r \<in> set (mapValues (sIntents (gState s)))" using mapGet_mem [OF r(1)] by force
  then have "rSignatures r = []" using assms(2) r(2) unfolding mandInv_def plainRec_def by auto
  with r EVeto assms(5) show ?thesis
    by (intro mandInv_close [OF assms(2) r(1), of _ "r\<lparr>rVetoed := True\<rparr>"]) (auto simp: applyBody_def mapUpdate_Some)
next
  case (EMandate i t)
  then obtain raw k where "mandateCreate L E s raw = Inr (Commit (EMandate i t) k)" using commits_mandate assms(4) by blast
  then have "mapGet (sMandates (gState s)) i = None" using mandate_shape by blast
  with EMandate show ?thesis
    by (intro mandInv_intents_same [OF assms(2,5)] applyBody_same_intents [OF assms(5)]) auto
qed (rule mandInv_intents_same [OF assms(2,5)]; (rule applyBody_same_intents [OF assms(5)])?; simp)+

interpretation mandI: timed_invariant L "\<lambda>tm st. sigInv st \<and> (addressLib L \<longrightarrow> mandInv tm st)" for L
  by unfold_locales (use sigInv_empty mandInv_empty sigInv_step mandInv_later mandInv_step in blast)+

text \<open>
  C4. What leaves over a mandate stays within its total: in every reachable signer the amounts of all
  signed payouts of a mandate add up to at most the total the mandate was approved for. (The clock
  must not run backwards between commands; \<open>addressLib\<close> is the documented form of addresses.)
\<close>

theorem mandate_total_is_kept:
  assumes "addressLib L" "reachable L tm s" "mapGet (sMandates (gState s)) m = Some d"
  shows "sum_list (map amountOf (filter (\<lambda>r. rMandateId r = Some m \<and> rSignatures r \<noteq> []) (mapValues (sIntents (gState s))))) \<le> mTotal (dMandate d)"
proof -
  let ?rs = "mapValues (sIntents (gState s))"
  have inv: "mandInv tm (gState s)" using mandI.always [OF assms(2)] assms(1) by blast
  have le: "sum_list (map f (filter P xs)) \<le> sum_list (map g xs)" if "\<forall>x\<in>set xs. (P x \<longrightarrow> f x \<le> g x) \<and> (\<not> P x \<longrightarrow> 0 \<le> g x)"
    for f g :: "intentRecord \<Rightarrow> int" and P xs
    using that by (induction xs) (auto intro: add_mono add_nonneg_nonneg order.trans)
  have "sum_list (map amountOf (filter (\<lambda>r. rMandateId r = Some m \<and> rSignatures r \<noteq> []) ?rs)) \<le> mandateUsed (gState s) m tm"
    unfolding mandateUsed_share
  proof (rule le, rule ballI)
    fix r
    assume "r \<in> set ?rs"
    then have "plainRec r" using inv unfolding mandInv_def by blast
    then show "(rMandateId r = Some m \<and> rSignatures r \<noteq> [] \<longrightarrow> amountOf r \<le> share m tm r) \<and>
      (\<not> (rMandateId r = Some m \<and> rSignatures r \<noteq> []) \<longrightarrow> 0 \<le> share m tm r)"
      using share_bounds [of r m tm] by (auto simp: share_def plainRec_def)
  qed
  also have "\<dots> \<le> mTotal (dMandate d)" using inv assms(3) by (simp add: mandInv_def)
  finally show ?thesis .
qed

end
