(* ===== verification/Signer_Restart.thy ===== *)
theory Signer_Restart
  imports Signer_Safety
begin

text \<open>
  Crash and restart, and the protocol around the commands: the journal of a run opens to the state the
  signer had, the answers do not depend on how a stream of lines within the limit is cut into chunks, lines that
  name no command change nothing, and the two sockets of systemd are never mixed up.
\<close>

section \<open>Restart\<close>

fun recordAll :: "lib \<Rightarrow> signer \<Rightarrow> (env \<times> body) list \<Rightarrow> (signer \<times> event list) res" where
  "recordAll L s [] = Inr (s, [])"
| "recordAll L s ((E, b) # bs) =
     (case recordEvent L E s b of
        (t, Inl e) \<Rightarrow> Inl e
      | (t, Inr ev) \<Rightarrow> andThen (recordAll L t bs) (\<lambda>(u, es). Inr (u, ev # es)))"

lemma recordEvent_ok:
  assumes "recordEvent L E s b = (t, Inr ev)"
  shows "journalAppend L (gJournal s) (eAt E) b = Inr (gJournal t, ev)" "apply_event L (gState s) ev = Inr (gState t)"
  using assms by (auto simp: recordEvent_def split: sum.splits)

lemma replayFrom_append: "replayFrom L s (as @ bs) = andThen (replayFrom L s as) (\<lambda>t. replayFrom L t bs)"
  by (induction as arbitrary: s) (simp_all add: andThen_assoc)

lemma recordAll_coherent:
  assumes "shaLib L" "recordAll L s bs = Inr (t, es)" "journalHolds L (gJournal s) ds" "replay L ds = Inr (gState s)" "\<forall>e\<in>set es. storable e"
  shows "journalHolds L (gJournal t) (ds @ es) \<and> replay L (ds @ es) = Inr (gState t)"
  using assms(2-)
proof (induction bs arbitrary: s es ds)
  case Nil
  then show ?case by simp
next
  case (Cons x bs)
  obtain E b where x: "x = (E, b)" by (cases x)
  obtain u r where u: "recordEvent L E s b = (u, r)" by fastforce
  with Cons.prems(1) x obtain ev fs where r: "r = Inr ev" and f: "recordAll L u bs = Inr (t, fs)" "es = ev # fs"
    by (cases r) (auto simp: andThen_eq_Inr)
  note ok = recordEvent_ok [OF u [unfolded r]]
  have "journalHolds L (gJournal u) (ds @ [ev])"
    using journalHolds_append_storable [OF assms(1) Cons.prems(2) ok(1)] Cons.prems(4) f(2) by simp
  moreover have "replay L (ds @ [ev]) = Inr (gState u)"
    using Cons.prems(3) ok(2) by (simp add: replay_def replayFrom_append)
  ultimately have "journalHolds L (gJournal t) ((ds @ [ev]) @ fs) \<and> replay L ((ds @ [ev]) @ fs) = Inr (gState t)"
    using Cons.prems(4) f(2) by (intro Cons.IH [OF f(1)]) simp_all
  then show ?case by (simp add: f(2))
qed

text \<open>
  C13. A crash loses nothing that was answered: after a sequence of recorded events, opening the journal
  (with a torn line behind it, if the process died while writing) gives a signer with the same state and
  the same journal, provided that every recorded event is storable (its line is within the bound of the
  parser and is read back as written; a longer line locks the journal, \<open>oversize_line_locks_journal\<close>)
  and that the seeds load, have the recorded fingerprints and pass the self test.
\<close>

theorem restart_restores_state:
  assumes "shaLib L" "gState s = emptyState" "gJournal s = emptyJournal" "recordAll L s bs = Inr (t, es)" "\<forall>e\<in>set es. storable e"
    "CHR 0x0A \<notin> set torn" "ringLoad L seeds kek = Inr ring" "seedsMatch L ring (sFingerprints (gState t)) = Inr ()" "selfTest L ring = Inr ()"
  shows "\<exists>u. signerOpen L (jFile (gJournal t) @ torn) seeds kek dev bundle kekNext = Inr u \<and> gState u = gState t \<and> gJournal u = gJournal t \<and> gRing u = ring"
proof -
  have c: "journalHolds L (gJournal t) es" "replay L es = Inr (gState t)"
    using recordAll_coherent [OF assms(1,4), of "[]"] assms(2,3,5) emptyJournal_holds by (simp_all add: replay_def)
  from journalOpen_torn [OF c(1) assms(6)] obtain ents where o: "journalOpen L (jFile (gJournal t) @ torn) = Inr (gJournal t, ents)" "map jeEvent ents = map eventJson es" by blast
  have "those (map (eventOf \<circ> jeEvent) ents) = Some es" using assms(5) by (intro journalHolds_inj [OF o(2)]) (simp add: storable_def)
  then have "entryEvents ents = Inr es" by (simp add: entryEvents_def)
  with o(1) c(2) assms(7-9) show ?thesis by (simp add: signerOpen_def)
qed

definition demoSigner :: signer where
  "demoSigner = \<lparr>gState = emptyState, gJournal = emptyJournal, gSeedFile = [], gRing = [], gPrepared = None, gKek = [], gDev = True,
     gBundleHash = None, gKekNext = None\<rparr>"

definition demoEnv :: "int \<Rightarrow> env" where
  "demoEnv tm = \<lparr>eNow = tm, eAt = tm, eEnd = tm, eRand = (\<lambda>i n. replicate n (word_of_nat i))\<rparr>"

theorem restart_restores_state_witness:
  "\<exists>t es u. recordAll demoLib demoSigner [(demoEnv 5, EFreeze ''audit'' ''app''), (demoEnv 6, EVeto ''x'')] = Inr (t, es) \<and>
     signerOpen demoLib (jFile (gJournal t) @ ''0123'') [] [] True None None = Inr u \<and> gState u = gState t \<and> sFrozen (gState u) \<noteq> None"
proof -
  let ?bs = "[(demoEnv 5, EFreeze ''audit'' ''app''), (demoEnv 6, EVeto ''x'')]"
  have "case recordAll demoLib demoSigner ?bs of Inl _ \<Rightarrow> False | Inr (t, es) \<Rightarrow> list_all storable es \<and> sFrozen (gState t) \<noteq> None \<and> sFingerprints (gState t) = []"
    by code_simp
  then obtain t es where t: "recordAll demoLib demoSigner ?bs = Inr (t, es)" "\<forall>e\<in>set es. storable e" "sFrozen (gState t) \<noteq> None" "sFingerprints (gState t) = []"
    by (auto simp: list_all_iff split: sum.splits)
  have "\<exists>u. signerOpen demoLib (jFile (gJournal t) @ ''0123'') [] [] True None None = Inr u \<and> gState u = gState t \<and> gJournal u = gJournal t \<and> gRing u = []"
    by (rule restart_restores_state [OF demoLib_sha _ _ t(1,2)])
      (simp_all add: demoSigner_def ringLoad_def seedsMatch_def t(4) selfTest_def ringNetworks_def)
  with t show ?thesis by auto
qed

section \<open>The connection\<close>

lemma serveLines_append:
  assumes "\<forall>l\<in>set as. int (utf16Length l) \<le> MAX_LINE"
  shows "\<exists>t m out2. \<forall>rest ls. serveLines C L Es s n out (as @ ls) rest = serveLines C L Es t m out2 ls rest"
  using assms
proof (induction as arbitrary: s n out)
  case Nil
  then show ?case by auto
next
  case (Cons a as)
  show ?case
  proof (cases "trim a = []")
    case True
    with Cons show ?thesis by (simp add: not_less)
  next
    case False
    obtain t r where h: "handleLine C L (Es n) s a = (t, r)" by fastforce
    with Cons False show ?thesis by (simp add: not_less)
  qed
qed

lemma serveLines_open:
  assumes "cnState (serveLines C L Es s n out as rest) = Open b"
  shows "b = rest \<and> (\<forall>l\<in>set as. int (utf16Length l) \<le> MAX_LINE)"
  using assms
proof (induction C L Es s n out as rest rule: serveLines.induct)
  case (1 C L Es s n out rest)
  then show ?case by (simp split: if_splits)
next
  case (2 C L Es s n out l ls rest)
  obtain t r where h: "handleLine C L (Es n) s l = (t, r)" by fastforce
  have l: "int (utf16Length l) \<le> MAX_LINE" using "2.prems" by (cases "int (utf16Length l) > MAX_LINE") simp_all
  show ?case
  proof (cases "trim l = []")
    case True
    with l "2.prems" have "cnState (serveLines C L Es s n out ls rest) = Open b" by simp
    with "2.IH"(1) l True show ?thesis by simp
  next
    case False
    with l "2.prems" h have "cnState (serveLines C L Es t (Suc n) (out @ [r]) ls rest) = Open b" by simp
    with "2.IH"(2) [OF _ False h [symmetric] refl] l show ?thesis by simp
  qed
qed

lemma serveLines_fits:
  assumes "\<forall>l\<in>set as. int (utf16Length l) \<le> MAX_LINE" "int (utf16Length rest) \<le> MAX_LINE"
  shows "cnState (serveLines C L Es s n out as rest) = Open rest"
proof -
  obtain t m out2 where "serveLines C L Es s n out (as @ []) rest = serveLines C L Es t m out2 [] rest"
    using serveLines_append [OF assms(1)] by metis
  with assms(2) show ?thesis by simp
qed

text \<open>While the connection stays open, handling two chunks is handling their concatenation.\<close>

lemma onData_append:
  assumes "cnState (onData C L Es c a) = Open buf"
  shows "onData C L Es (onData C L Es c a) b = onData C L Es c (a @ b)"
proof (cases "cnState c")
  case (Open old)
  let ?p = "split_on (CHR 0x0A) (old @ a)" and ?q = "split_on (CHR 0x0A) b"
  have c: "onData C L Es c a = serveLines C L Es (cnSigner c) (cnCount c) (cnOut c) (butlast ?p) (last ?p)"
    using Open by (simp add: onData_def Let_def)
  with assms have o: "buf = last ?p" "\<forall>l\<in>set (butlast ?p). int (utf16Length l) \<le> MAX_LINE" using serveLines_open by metis+
  obtain t m out2 where S: "\<And>rest ls. serveLines C L Es (cnSigner c) (cnCount c) (cnOut c) (butlast ?p @ ls) rest = serveLines C L Es t m out2 ls rest"
    using serveLines_append [OF o(2)] by metis
  have sp: "split_on (CHR 0x0A) (old @ a @ b) = butlast ?p @ (last ?p @ hd ?q) # tl ?q"
    using split_on_append [of "CHR 0x0A" "old @ a" b] by simp
  have sl: "split_on (CHR 0x0A) (last ?p @ b) = (last ?p @ hd ?q) # tl ?q"
  proof -
    have "CHR 0x0A \<notin> set (last ?p)" using split_on_no_sep_mem [of "last ?p" "CHR 0x0A" "old @ a"] by simp
    then show ?thesis using split_on_append [of "CHR 0x0A" "last ?p" b] by (simp add: split_on_no_sep)
  qed
  have first: "onData C L Es c a = serveLines C L Es t m out2 [] (last ?p)" using S [of "[]"] c by simp
  with assms have "onData C L Es c a = \<lparr>cnSigner = t, cnCount = m, cnOut = out2, cnState = Open (last ?p)\<rparr>" by (auto split: if_splits)
  then have "onData C L Es (onData C L Es c a) b = serveLines C L Es t m out2 (butlast ((last ?p @ hd ?q) # tl ?q)) (last ((last ?p @ hd ?q) # tl ?q))"
    by (simp add: onData_def sl Let_def)
  moreover have "onData C L Es c (a @ b) = serveLines C L Es t m out2 (butlast ((last ?p @ hd ?q) # tl ?q)) (last ((last ?p @ hd ?q) # tl ?q))"
    using Open by (simp add: onData_def sp butlast_append S Let_def del: butlast.simps)
  ultimately show ?thesis by simp
next
  case Destroyed
  with assms show ?thesis by (simp add: onData_def)
next
  case Ended
  with assms show ?thesis by (simp add: onData_def)
qed

text \<open>The lines of a stream so far, the unfinished last one included, fit the limit of a line.\<close>

definition linesFit :: "string \<Rightarrow> bool" where
  "linesFit t \<longleftrightarrow> (\<forall>l\<in>set (split_on (CHR 0x0A) t). int (utf16Length l) \<le> MAX_LINE)"

lemma linesFit_prefix: "linesFit (a @ b) \<Longrightarrow> linesFit a"
proof -
  assume f: "linesFit (a @ b)"
  let ?p = "split_on (CHR 0x0A) a"
  have "int (utf16Length (last ?p)) \<le> MAX_LINE" "\<forall>l\<in>set (butlast ?p). int (utf16Length l) \<le> MAX_LINE"
    using f by (auto simp: linesFit_def split_on_append utf16Length_append)
  moreover have "set ?p = insert (last ?p) (set (butlast ?p))"
    using append_butlast_last_id [OF split_on_ne, of "CHR 0x0A" a] by (metis Un_insert_right list.simps(15) set_append sup_bot_right empty_set)
  ultimately show ?thesis by (simp add: linesFit_def)
qed

lemma onData_open:
  assumes "cnState c = Open buf" "linesFit (buf @ a)"
  shows "cnState (onData C L Es c a) = Open (last (split_on (CHR 0x0A) (buf @ a)))"
  using assms by (auto simp: onData_def Let_def linesFit_def split_on_ne intro!: serveLines_fits dest: in_set_butlastD)

text \<open>
  C24. Answers and state do not depend on how a stream is cut into chunks, as long as all its lines (the
  unfinished one included) fit the limit: handling the chunks one by one is handling the whole stream at
  once, with the same answers, the same signer and the same rest in the buffer.
\<close>

theorem chunks_do_not_matter:
  assumes "cnState c = Open buf" "CHR 0x0A \<notin> set buf" "linesFit (buf @ concat cs)"
  shows "foldl (onData C L Es) c cs = onData C L Es c (concat cs)"
  using assms(3)
proof (induction cs rule: rev_induct)
  case Nil
  then show ?case
    using assms(1,2) by (cases c) (simp add: onData_def split_on_no_sep linesFit_def)
next
  case (snoc x xs)
  then have f: "linesFit (buf @ concat xs)" using linesFit_prefix [of "buf @ concat xs" x] by simp
  from snoc.IH [OF f] onData_append [OF onData_open [OF assms(1) f], of C L Es x] show ?case by simp
qed

definition demoConn :: conn where
  "demoConn = \<lparr>cnSigner = demoSigner, cnCount = 0, cnOut = [], cnState = Open []\<rparr>"

theorem chunks_do_not_matter_witness:
  "linesFit (concat [''{'', ''}'', [CHR 0x0A], ''[1]'', CHR 0x0A # ''x'']) \<and>
   foldl (onData APP_COMMANDS demoLib (\<lambda>n. demoEnv 5)) demoConn [''{'', ''}'', [CHR 0x0A], ''[1]'', CHR 0x0A # ''x''] =
     onData APP_COMMANDS demoLib (\<lambda>n. demoEnv 5) demoConn (''{}'' @ CHR 0x0A # ''[1]'' @ CHR 0x0A # ''x'')"
proof -
  have f: "linesFit (concat [''{'', ''}'', [CHR 0x0A], ''[1]'', CHR 0x0A # ''x''])" by code_simp
  with chunks_do_not_matter [of demoConn "[]" "[''{'', ''}'', [CHR 0x0A], ''[1]'', CHR 0x0A # ''x'']" APP_COMMANDS demoLib "\<lambda>n. demoEnv 5"]
  show ?thesis by (simp add: demoConn_def)
qed

text \<open>
  The limit is needed: a line above it is answered with \<open>line_too_long\<close> when it fills the buffer before its
  end arrives, and closes the connection without an answer when it arrives with its end.
\<close>

lemma overlong_line_depends_on_cut:
  assumes "cnState c = Open []" "CHR 0x0A \<notin> set l" "int (utf16Length l) > MAX_LINE"
  shows "cnState (onData C L Es c (l @ [CHR 0x0A])) = Destroyed \<and> cnOut (onData C L Es c (l @ [CHR 0x0A])) = cnOut c \<and>
    cnState (onData C L Es (onData C L Es c l) [CHR 0x0A]) = Ended \<and>
    cnOut (onData C L Es (onData C L Es c l) [CHR 0x0A]) = cnOut c @ [response JNull (cnSigner c) (failG ''line_too_long'')]"
proof -
  have "split_on (CHR 0x0A) (l @ [CHR 0x0A]) = [l, []]"
    using assms(2) split_on_append [of "CHR 0x0A" l "[CHR 0x0A]"] by (simp add: split_on_no_sep)
  with assms show ?thesis by (simp add: onData_def split_on_no_sep)
qed

text \<open>
  A line that is no JSON, no object or names no command of the socket changes nothing and is
  answered with an error.
\<close>

theorem unknown_lines_change_nothing:
  assumes "\<And>o1. jsonParse line = Some (JObj o1) \<Longrightarrow> commandOf C o1 = None"
  shows "\<exists>i e. handleLine C L E s line = (s, response i s (Inl e))"
proof (cases "jsonParse line")
  case None
  then show ?thesis by (simp add: handleLine_def bad_def) blast
next
  case (Some v)
  show ?thesis
  proof (cases "\<exists>o1. v = JObj o1")
    case True
    then obtain o1 where o1: "v = JObj o1" by blast
    with Some assms have "handleLine C L E s line = (s, response (idOf o1) s (Inl (SignerError ''unknown_command'' None)))"
      by (simp add: handleLine_def failG_def)
    then show ?thesis by blast
  next
    case False
    with Some have "handleLine C L E s line = (s, response JNull s (bad ''line''))" by (cases v) (simp_all add: handleLine_def)
    then show ?thesis by (auto simp: bad_def)
  qed
qed

theorem unknown_lines_change_nothing_witness:
  "\<exists>i e. handleLine APP_COMMANDS demoLib (demoEnv 5) demoSigner (CHR ''{'' # jsonString ''cmd'' @ '':'' @ jsonString ''unfreeze'' @ ''}'') =
     (demoSigner, response i demoSigner (Inl e))"
proof (rule unknown_lines_change_nothing)
  fix o1
  assume "jsonParse (CHR ''{'' # jsonString ''cmd'' @ '':'' @ jsonString ''unfreeze'' @ ''}'') = Some (JObj o1)"
  moreover have "jsonParse (CHR ''{'' # jsonString ''cmd'' @ '':'' @ jsonString ''unfreeze'' @ ''}'') = Some (JObj [(''cmd'', JStr ''unfreeze'')])" by code_simp
  ultimately have "o1 = [(''cmd'', JStr ''unfreeze'')]" by simp
  then show "commandOf APP_COMMANDS o1 = None" by (simp add: commandOf_def jfield_def APP_COMMANDS_def)
qed

section \<open>Sockets\<close>

lemma systemdFds_get:
  "mapGet (systemdFds names n) x = Some f \<Longrightarrow> \<exists>i<n. f = 3 + int i \<and> x = (if i < length names then names ! i else [])"
proof (induction n)
  case 0
  then show ?case by (simp add: systemdFds_def)
next
  case (Suc n)
  let ?m = "systemdFds names n" and ?k = "if n < length names then names ! n else []"
  have step: "systemdFds names (Suc n) = mapSet ?m ?k (3 + int n)" by (simp add: systemdFds_def)
  show ?case
  proof (cases "x = ?k")
    case True
    with Suc.prems step have "f = 3 + int n" by (simp add: mapGet_mapSet split: if_splits)
    with True show ?thesis by blast
  next
    case False
    with Suc.prems step have "mapGet ?m x = Some f" by (simp add: mapGet_mapSet split: if_splits)
    then show ?thesis using Suc.IH less_SucI by blast
  qed
qed

text \<open>
  The sockets handed over by systemd are two different descriptors from 3 on: the app never gets the
  socket of the administrator.
\<close>

theorem systemd_sockets_differ:
  assumes "systemdSockets envv pid = Some (app, admin)"
  shows "app \<noteq> admin \<and> 3 \<le> app \<and> 3 \<le> admin"
proof -
  from assms obtain names n where "mapGet (systemdFds names n) ''app'' = Some app" "mapGet (systemdFds names n) ''admin'' = Some admin"
    by (auto simp: systemdSockets_def Let_def split: if_splits option.splits)
  from systemdFds_get [OF this(1)] systemdFds_get [OF this(2)] obtain i j where
    i: "app = 3 + int i" "''app'' = (if i < length names then names ! i else [])" and j: "admin = 3 + int j" "''admin'' = (if j < length names then names ! j else [])"
    by blast
  have "i \<noteq> j"
  proof
    assume "i = j"
    with i(2) j(2) have "''app'' = ''admin''" by metis
    then show False by simp
  qed
  with i(1) j(1) show ?thesis by simp
qed

theorem systemd_sockets_differ_witness:
  "systemdSockets [(''LISTEN_PID'', ''42''), (''LISTEN_FDS'', ''2''), (''LISTEN_FDNAMES'', ''app:admin'')] 42 = Some (3, 4) \<and> (3 :: int) \<noteq> 4"
proof -
  have "systemdSockets [(''LISTEN_PID'', ''42''), (''LISTEN_FDS'', ''2''), (''LISTEN_FDNAMES'', ''app:admin'')] 42 = Some (3, 4)" by code_simp
  with systemd_sockets_differ [OF this] show ?thesis by simp
qed

end
