(* ===== verification/Signer_Ledger.thy ===== *)
theory Signer_Ledger
  imports Signer_Limits
begin

text \<open>
  The signer against an abstract ledger of what has been spent, bounds on the number of intents, and
  the shape of every state that replaying a journal gives.
\<close>

section \<open>The ledger\<close>

text \<open>
  The contract of the signer towards the chains: an output belongs to the first intent that spends it,
  the nonces of an account are used one after the other. A ledger has the owner of every
  output and the highest nonce of every account.
\<close>

type_synonym ledger = "(string \<Rightarrow> string option) \<times> (string \<Rightarrow> int option)"

definition claim :: "string \<Rightarrow> string set \<Rightarrow> (string \<Rightarrow> string option) \<Rightarrow> (string \<Rightarrow> string option)" where
  "claim i os m = (\<lambda>o1. if o1 \<in> os then Some i else m o1)"

definition nonceAfter :: "(string \<times> int) option \<Rightarrow> (string \<Rightarrow> int option) \<Rightarrow> (string \<Rightarrow> int option)" where
  "nonceAfter nn f = (case nn of None \<Rightarrow> f | Some (a, n) \<Rightarrow> f(a \<mapsto> n))"

inductive ledgerStep :: "ledger \<Rightarrow> ledger \<Rightarrow> bool" where
  l_keep: "ledgerStep l l"
| l_pay: "i \<noteq> [] \<Longrightarrow> \<forall>o1\<in>os. m o1 \<in> {None, Some i} \<Longrightarrow> \<forall>a n. nn = Some (a, n) \<longrightarrow> f a \<in> {None, Some (n - 1)} \<Longrightarrow>
    ledgerStep (m, f) (claim i os m, nonceAfter nn f)"

definition absLedger :: "signerState \<Rightarrow> ledger" where
  "absLedger st = ((\<lambda>o1. case mapGet (sReserved st) o1 of None \<Rightarrow> None | Some h \<Rightarrow> if h = [] then None else Some h), mapGet (sNonces st))"

lemma absLedger_signed:
  assumes "applySigned st tm g = Inr st'" "sgIntentId g = i" "i \<noteq> []"
  shows "fst (absLedger st') = claim i (outs g) (fst (absLedger st))"
  using assms(2,3) by (auto simp: absLedger_def claim_def signed_reserved [OF assms(1)])

lemma nonce_noted:
  assumes "applySigned st tm g = Inr st'" "sgNonce g = Some (show_int n)" "0 \<le> n" "mapGet (sNonces st) (sgAccountId g) \<in> {None, Some (n - 1)}"
  shows "mapGet (sNonces st') = nonceAfter (Some (sgAccountId g, n)) (mapGet (sNonces st))"
  using assms(2-) applySigned_nonces [OF assms(1)] by (auto simp: toBigInt_show nonceAfter_def)

lemma nonce_kept:
  assumes "applySigned st tm g = Inr st'"
    "\<And>t. sgNonce g = Some t \<Longrightarrow> \<exists>n mx. t = show_int n \<and> 0 \<le> n \<and> n \<le> mx \<and> mapGet (sNonces st) (sgAccountId g) = Some mx"
  shows "sNonces st' = sNonces st"
proof (cases "sgNonce g")
  case None
  then show ?thesis using applySigned_nonces [OF assms(1)] by simp
next
  case (Some t)
  with assms(2) obtain n mx where "t = show_int n" "0 \<le> n" "n \<le> mx" "mapGet (sNonces st) (sgAccountId g) = Some mx" by blast
  with Some show ?thesis using applySigned_nonces [OF assms(1)] by (simp add: toBigInt_show)
qed

lemma signed_ledgerStep:
  assumes "sigInv st" "newSig st i r g" "applySigned st tm g = Inr st'"
  shows "ledgerStep (absLedger st) (absLedger st')"
proof -
  have i: "i \<noteq> []" "sgIntentId g = i" "mapGet (sIntents st) i = Some r" using assms(2) by (simp_all add: newSig_def)
  let ?m = "fst (absLedger st)" and ?f = "mapGet (sNonces st)"
  have ab: "absLedger u = (fst (absLedger u), mapGet (sNonces u))" for u by (simp add: absLedger_def)
  have "\<exists>nn. (\<forall>o1\<in>outs g. ?m o1 \<in> {None, Some i}) \<and> (\<forall>a n. nn = Some (a, n) \<longrightarrow> ?f a \<in> {None, Some (n - 1)}) \<and> mapGet (sNonces st') = nonceAfter nn ?f"
  proof (cases "isMode (sgMode g) ''first''")
    case True
    with assms(2) have o1: "\<forall>o1\<in>outs g. mapGet (sReserved st) o1 \<in> {None, Some [], Some i}"
      and no: "\<And>t. sgNonce g = Some t \<Longrightarrow> \<exists>n. t = show_int n \<and> 0 \<le> n \<and> ?f (sgAccountId g) \<in> {None, Some (n - 1)}" by (simp_all add: newSig_def)
    have own: "\<forall>o1\<in>outs g. ?m o1 \<in> {None, Some i}" using o1 i(1) by (fastforce simp: absLedger_def)
    show ?thesis
    proof (cases "sgNonce g")
      case None
      then have "sNonces st' = sNonces st" using applySigned_nonces [OF assms(3)] by simp
      with own show ?thesis by (intro exI [of _ None]) (simp add: nonceAfter_def)
    next
      case (Some t)
      with no obtain n where n: "t = show_int n" "0 \<le> n" "?f (sgAccountId g) \<in> {None, Some (n - 1)}" by blast
      with own nonce_noted [OF assms(3) _ n(2,3)] Some show ?thesis by (intro exI [of _ "Some (sgAccountId g, n)"]) simp
    qed
  next
    case False
    with assms(2) have la: "sigs r \<noteq> []" "outs g \<subseteq> outs (hd (sigs r))" "\<And>t. sgNonce g = Some t \<Longrightarrow> sgNonce (hd (sigs r)) = Some t"
      "iAccountId (rIntent r) = Some (sgAccountId g)" by (simp_all add: newSig_def)
    have h: "sigOk st i r (hd (sigs r))" by (rule recOk_sig [OF sigInv_rec [OF assms(1) i(3)]]) (rule hd_in_set [OF la(1)])
    then have acc: "sgAccountId (hd (sigs r)) = sgAccountId g" using la(4) by (simp add: sigOk_def)
    have "?m o1 = Some i" if "o1 \<in> outs g" for o1
      using h la(2) that i(1) unfolding sigOk_def absLedger_def by fastforce
    moreover have "sNonces st' = sNonces st"
      by (rule nonce_kept [OF assms(3)]) (use la(3) h acc in \<open>fastforce simp: sigOk_def\<close>)
    ultimately show ?thesis by (intro exI [of _ None]) (simp add: nonceAfter_def)
  qed
  then obtain nn where "\<forall>o1\<in>outs g. ?m o1 \<in> {None, Some i}" "\<forall>a n. nn = Some (a, n) \<longrightarrow> ?f a \<in> {None, Some (n - 1)}" "mapGet (sNonces st') = nonceAfter nn ?f" by blast
  then show ?thesis
    using l_pay [OF i(1), of "outs g" ?m nn ?f] absLedger_signed [OF assms(3) i(2,1)] ab [of st] ab [of st'] by simp
qed

lemma sstep_ledgerStep:
  assumes "sigInv (gState s)" "sstep L E s t"
  shows "ledgerStep (absLedger (gState s)) (absLedger (gState t))"
  using assms(2)
proof cases
  case s_keep
  then show ?thesis by (simp add: l_keep)
next
  case (s_commit b)
  show ?thesis
  proof (cases "\<exists>g. b = ESigned g")
    case True
    then obtain g where g: "b = ESigned g" by blast
    with s_commit obtain raw k where "sign L E s raw = Inr (Commit (ESigned g) k)" using commits_signed by blast
    then obtain i r where n: "newSig (gState s) i r g" using sign_newSig [OF assms(1)] by blast
    show ?thesis by (rule signed_ledgerStep [OF assms(1) n]) (use s_commit g in \<open>simp add: applyBody_def\<close>)
  next
    case False
    then have "sReserved (gState t) = sReserved (gState s) \<and> sNonces (gState t) = sNonces (gState s)"
      using applyBody_other [OF s_commit(2)] by blast
    then show ?thesis by (simp add: absLedger_def l_keep)
  qed
qed

lemma steps_ledger:
  assumes "(sstep L E)\<^sup>*\<^sup>* s t" "sigInv (gState s)"
  shows "ledgerStep\<^sup>*\<^sup>* (absLedger (gState s)) (absLedger (gState t)) \<and> sigInv (gState t)"
  using assms
proof (induction rule: rtranclp_induct)
  case base
  then show ?case by simp
next
  case (step t u)
  then have "ledgerStep (absLedger (gState t)) (absLedger (gState u))" using sstep_ledgerStep by blast
  moreover have "sigInv (gState u)" using step(2) step by (cases rule: sstep.cases) (use sigInv_step in \<open>metis\<close>)+
  ultimately show ?case using step by (meson rtranclp.rtrancl_into_rtrancl)
qed


section \<open>How many intents\<close>

definition countIn :: "(intentRecord \<Rightarrow> bool) \<Rightarrow> (string, intentRecord) jsmap \<Rightarrow> int" where
  "countIn P m = int (length (filter P (mapValues m)))"

lemma count_mapSet: "countIn P (mapSet m k w) \<le> countIn P m + 1"
  by (induction m) (auto simp: countIn_def)

lemma count_mapSet_same: "mapGet m k = Some v \<Longrightarrow> (P w \<Longrightarrow> P v) \<Longrightarrow> countIn P (mapSet m k w) \<le> countIn P m"
  by (induction m) (auto simp: countIn_def split: if_splits)

lemma mapSet_mapSet: "mapSet (mapSet m k a) k b = mapSet m k b"
  by (induction m) auto

definition createdSince :: "int \<Rightarrow> intentRecord \<Rightarrow> bool" where
  "createdSince tm r \<longleftrightarrow> rCreatedAt r > tm"

definition boundInv :: "int \<Rightarrow> signerState \<Rightarrow> bool" where
  "boundInv tm st \<longleftrightarrow> countIn (\<lambda>r. isOpen r tm) (sIntents st) \<le> MAX_OPEN \<and> countIn (createdSince (tm - DAY)) (sIntents st) \<le> MAX_PER_DAY"

lemma count_mono: "(\<And>r. P r \<Longrightarrow> Q r) \<Longrightarrow> countIn P m \<le> countIn Q m"
  by (induction m) (auto simp: countIn_def)

lemma boundInv_later: "boundInv tm st \<Longrightarrow> tm \<le> tn \<Longrightarrow> boundInv tn st"
  unfolding boundInv_def
  using count_mono [of "\<lambda>r. isOpen r tn" "\<lambda>r. isOpen r tm" "sIntents st"] count_mono [of "createdSince (tn - DAY)" "createdSince (tm - DAY)" "sIntents st"] isOpen_antitone
  by (force simp: createdSince_def)

lemma boundInv_same: "boundInv tm st \<Longrightarrow> sIntents st' = sIntents st \<Longrightarrow> boundInv tm st'"
  by (simp add: boundInv_def)

lemma boundInv_changed:
  assumes "boundInv tm st" "sIntents st' = mapSet (sIntents st) i q" "mapGet (sIntents st) i = Some r" "isOpen q tm \<Longrightarrow> isOpen r tm" "rCreatedAt q = rCreatedAt r"
  shows "boundInv tm st'"
  using assms(1) count_mapSet_same [OF assms(3), of "\<lambda>r. isOpen r tm" q] count_mapSet_same [OF assms(3), of "createdSince (tm - DAY)" q] assms(2,4,5)
  by (simp add: boundInv_def createdSince_def)

lemma boundInv_update:
  assumes "boundInv tm st" "sIntents st' = mapUpdate (sIntents st) i f" "\<And>r. isOpen (f r) tm \<Longrightarrow> isOpen r tm" "\<And>r. rCreatedAt (f r) = rCreatedAt r"
  shows "boundInv tm st'"
proof (cases "mapGet (sIntents st) i")
  case None
  with assms(1,2) show ?thesis by (simp add: boundInv_def mapUpdate_def)
next
  case (Some r)
  show ?thesis by (rule boundInv_changed [OF assms(1) _ Some, of _ "f r"]) (use assms Some in \<open>simp_all add: mapUpdate_Some\<close>)
qed

lemma intentCreate_counts:
  assumes "intentCreate L E s raw = Inr (Commit b k)"
  shows "countIn (\<lambda>r. isOpen r (eNow E)) (sIntents (gState s)) < MAX_OPEN \<and> countIn (createdSince (eNow E - DAY)) (sIntents (gState s)) < MAX_PER_DAY"
proof -
  have c: "createdSince (eNow E - DAY) = (\<lambda>r. rCreatedAt r > eNow E - DAY)" by (simp add: createdSince_def fun_eq_iff)
  from assms have "\<not> int (length (filter (\<lambda>r. isOpen r (eNow E)) (mapValues (sIntents (gState s))))) \<ge> MAX_OPEN"
    "\<not> int (length (filter (\<lambda>r. rCreatedAt r > eNow E - DAY) (mapValues (sIntents (gState s))))) \<ge> MAX_PER_DAY"
    unfolding intentCreate_def guard_simps Let_def by blast+
  then show ?thesis by (simp add: countIn_def c)
qed

lemma settle_open:
  assumes "isOpen (settle u r tn) tm" "\<not> rCancelled r" "\<not> rVetoed r" "tm \<le> iExpiresAt (rIntent r)"
  shows "isOpen r tm"
  using assms by (auto simp: isOpen_def settle_def Let_def split: if_splits option.splits)

lemma open_approvals: "isOpen (r\<lparr>rApprovals := x\<rparr>) tm = isOpen r tm"
  by (simp add: isOpen_def)

lemma boundInv_step:
  assumes "boundInv (eNow E) (gState s)" "sigInv (gState s)" "commits L E s b" "applyBody L (gState s) (eAt E) b = Inr st"
  shows "boundInv (eNow E) st"
proof (cases b)
  case (ESigned g)
  with assms(4) show ?thesis
    by (intro boundInv_update [OF assms(1) applySigned_parts(1)]) (auto simp: applyBody_def isOpen_def split: if_splits)
next
  case (EIntent i t m)
  then obtain raw k where "intentCreate L E s raw = Inr (Commit (EIntent i t m) k)" using commits_intent assms(3) by blast
  note c = intentCreate_counts [OF this]
  from EIntent assms(4) have "\<exists>q. sIntents st = mapSet (sIntents (gState s)) i q"
    by (auto simp: applyBody_def applyIntent_def andThen_eq_Inr Let_def mapSet_mapSet split: if_splits)
  then obtain q where q: "sIntents st = mapSet (sIntents (gState s)) i q" by blast
  show ?thesis
    using c count_mapSet [of "\<lambda>r. isOpen r (eNow E)" i q "sIntents (gState s)"] count_mapSet [of "createdSince (eNow E - DAY)" i q "sIntents (gState s)"]
    unfolding boundInv_def q by linarith
next
  case (EApproval i c p n)
  then obtain raw k where "approve L E s raw = Inr (Commit (EApproval i c p n) k)" using commits_approval assms(3) by blast
  then obtain r where r: "mapGet (sIntents (gState s)) i = Some r" "\<not> rCancelled r" "\<not> rVetoed r" "eNow E \<le> iExpiresAt (rIntent r)"
    by (rule approve_records) (use sigInv_rec [OF assms(2)] in \<open>auto simp: recOk_def\<close>)
  let ?r1 = "r\<lparr>rApprovals := rApprovals r @ [\<lparr>apCredId = c, apPerson = p, apAt = eAt E\<rparr>]\<rparr>"
  have "\<exists>u. sIntents st = mapSet (sIntents (gState s)) i (settle u ?r1 (eAt E))"
    using EApproval assms(4) r(1) by (auto simp: applyBody_def applyApproval_def Let_def mapSet_mapSet)
  then obtain u where u: "sIntents st = mapSet (sIntents (gState s)) i (settle u ?r1 (eAt E))" by blast
  show ?thesis
  proof (rule boundInv_changed [OF assms(1) u r(1)])
    assume "isOpen (settle u ?r1 (eAt E)) (eNow E)"
    then have "isOpen ?r1 (eNow E)" by (rule settle_open) (use r in simp_all)
    then show "isOpen r (eNow E)" by (simp only: open_approvals)
  next
    show "rCreatedAt (settle u ?r1 (eAt E)) = rCreatedAt r" using settle_sameCore [of ?r1 u "eAt E"] by (simp add: sameCore_def)
  qed
next
  case (ECancel i y)
  with assms(4) show ?thesis
    by (intro boundInv_update [OF assms(1), of _ i "\<lambda>r. r\<lparr>rCancelled := True\<rparr>"]) (auto simp: applyBody_def isOpen_def)
next
  case (EVeto i)
  with assms(4) show ?thesis
    by (intro boundInv_update [OF assms(1), of _ i "\<lambda>r. r\<lparr>rVetoed := True\<rparr>"]) (auto simp: applyBody_def isOpen_def)
qed (rule boundInv_same [OF assms(1) applyBody_same_intents [OF assms(4)]]; simp)+

lemma boundInv_empty: "boundInv tm emptyState"
  by (simp add: boundInv_def countIn_def emptyState_def MAX_OPEN_def MAX_PER_DAY_def)

interpretation boundI: timed_invariant L "\<lambda>tm st. sigInv st \<and> boundInv tm st" for L
  by unfold_locales (use sigInv_empty boundInv_empty sigInv_step boundInv_step boundInv_later in blast)+

text \<open>
  C19. The app cannot flood the signer: at every moment at most 50 intents are open, and at most 200 were
  created within the last 24 hours, in every reachable signer.
\<close>

theorem intents_are_bounded:
  assumes "reachable L tm s"
  shows "countIn (\<lambda>r. isOpen r tm) (sIntents (gState s)) \<le> 50 \<and> countIn (createdSince (tm - 86400)) (sIntents (gState s)) \<le> 200"
  using boundI.always [OF assms] by (simp add: boundInv_def MAX_OPEN_def MAX_PER_DAY_def DAY_def)

section \<open>The shape of replayed states\<close>

text \<open>A map without duplicates in which every record carries its own key.\<close>

definition keyed :: "('v \<Rightarrow> 'k) \<Rightarrow> ('k, 'v) jsmap \<Rightarrow> bool" where
  "keyed f m \<longleftrightarrow> distinct (mapKeys m) \<and> (\<forall>(k, v)\<in>set m. f v = k)"

lemma keyed_empty [simp]: "keyed f []"
  by (simp add: keyed_def)

lemma keyed_mapGet: "keyed f m \<longleftrightarrow> distinct (mapKeys m) \<and> (\<forall>k v. mapGet m k = Some v \<longrightarrow> f v = k)"
  unfolding keyed_def using mapGet_iff_mem by (fastforce dest: mapGet_mem)

lemma keyed_mapSet: "keyed f m \<Longrightarrow> f v = k \<Longrightarrow> keyed f (mapSet m k v)"
  by (simp add: keyed_mapGet distinct_mapKeys_mapSet)

lemma keyed_mapUpdate: "keyed f m \<Longrightarrow> (\<And>v. f (g v) = f v) \<Longrightarrow> keyed f (mapUpdate m k g)"
proof -
  assume m: "keyed f m" and g: "\<And>v. f (g v) = f v"
  show ?thesis
  proof (cases "mapGet m k")
    case None
    with m show ?thesis by (simp add: mapUpdate_def)
  next
    case (Some v)
    with m have "f v = k" by (simp only: keyed_mapGet)
    with keyed_mapSet [OF m, of "g v" k] g Some show ?thesis by (simp add: mapUpdate_def)
  qed
qed

lemma distinct_reserved: "distinct (mapKeys m) \<Longrightarrow> distinct (mapKeys (foldl (\<lambda>m o1. mapSet m o1 i) m os))"
  by (induction os arbitrary: m) (simp_all add: distinct_mapKeys_mapSet)

definition wellKeyed :: "signerState \<Rightarrow> bool" where
  "wellKeyed st \<longleftrightarrow> keyed rIntentId (sIntents st) \<and> keyed dMandateId (sMandates st) \<and> keyed aAccountId (sAccounts st) \<and>
     keyed kCredId (sKeys st) \<and> keyed nEnrolId (sEnrolments st) \<and>
     distinct (mapKeys (sReserved st)) \<and> distinct (mapKeys (sNonces st)) \<and> distinct (mapKeys (sNextChange st)) \<and> distinct (mapKeys (sNextIndex st))"

lemma settle_id [simp]: "rIntentId (settle s r tm) = rIntentId r"
  by (simp add: settle_def Let_def split: option.split)

lemmas keyed_intros = keyed_mapSet keyed_mapUpdate distinct_mapKeys_mapSet distinct_reserved

lemma wellKeyed_notes: "wellKeyed st \<Longrightarrow> wellKeyed (noteNonce st a n)" "wellKeyed st \<Longrightarrow> wellKeyed (noteChange st a c)"
  by (simp_all add: wellKeyed_def noteNonce_def noteChange_def distinct_mapKeys_mapSet split: option.split)

lemma wellKeyed_signed:
  assumes "wellKeyed st" "applySigned st tm g = Inr st'"
  shows "wellKeyed st'"
proof -
  let ?s1 = "st\<lparr>sIntents := mapUpdate (sIntents st) (sgIntentId g) (\<lambda>r. r\<lparr>rSignatures := rSignatures r @ [(tm, g)]\<rparr>),
    sReserved := foldl (\<lambda>m o1. mapSet m o1 (sgIntentId g)) (sReserved st) (case sgOutpoints g of None \<Rightarrow> [] | Some os \<Rightarrow> os)\<rparr>"
  have "keyed rIntentId (sIntents ?s1)" using assms(1) by (simp add: wellKeyed_def) (rule keyed_mapUpdate, simp_all)
  then have "wellKeyed ?s1" using assms(1) by (simp add: wellKeyed_def distinct_reserved)
  moreover from assms(2) obtain s2 where "s2 = ?s1 \<or> (\<exists>n. s2 = noteNonce ?s1 (sgAccountId g) n)" "st' = noteChange s2 (sgAccountId g) (sgChangeIndex g)"
    unfolding applySigned_def Let_def by (auto simp: andThen_eq_Inr split: option.splits)
  ultimately show ?thesis using wellKeyed_notes by blast
qed

lemma wellKeyed_approval:
  assumes "wellKeyed st"
  shows "wellKeyed (applyApproval st tm i c p n)"
proof -
  have "keyed rIntentId (mapSet (sIntents st) i (settle u (r\<lparr>rApprovals := x\<rparr>) tm))" if "mapGet (sIntents st) i = Some r" for u r x
    using assms that by (intro keyed_mapSet) (simp_all add: wellKeyed_def keyed_mapGet)
  with assms show ?thesis
    by (auto simp: applyApproval_def wellKeyed_def Let_def mapSet_mapSet intro!: keyed_mapUpdate split: option.split)
qed

lemma wellKeyed_mandateApproval:
  assumes "wellKeyed st"
  shows "wellKeyed (applyMandateApproval st tm i c p n)"
proof -
  have "keyed dMandateId (mapSet (sMandates st) i d')" if "mapGet (sMandates st) i = Some d" "dMandateId d' = dMandateId d" for d d'
    using assms that by (intro keyed_mapSet) (simp_all add: wellKeyed_def keyed_mapGet)
  with assms show ?thesis
    by (auto simp: applyMandateApproval_def wellKeyed_def Let_def intro!: keyed_mapUpdate split: option.split)
qed

lemma wellKeyed_body:
  assumes "wellKeyed st" "applyBody L st tm b = Inr st'"
  shows "wellKeyed st'"
proof (cases b)
  case (ESigned g)
  with assms show ?thesis by (auto simp: applyBody_def intro: wellKeyed_signed)
next
  case (EApproval i c p n)
  with assms wellKeyed_approval [OF assms(1), of tm i c p n] show ?thesis by (auto simp: applyBody_def)
next
  case (EMandateApproval i c p n)
  with assms wellKeyed_mandateApproval [OF assms(1), of tm i c p n] show ?thesis by (auto simp: applyBody_def)
next
  case (EIntent i t m)
  with assms show ?thesis
    by (auto simp: applyBody_def applyIntent_def andThen_eq_Inr Let_def mapSet_mapSet wellKeyed_def newRecord_def intro!: keyed_mapSet split: if_splits)
qed (use assms in \<open>auto simp: applyBody_def applyAccount_def applyKey_def applyMandate_def wellKeyed_def intro!: keyed_intros split: sum.splits option.splits\<close>)

text \<open>A journal that cannot be applied keeps the state: then the signer does not open at all.\<close>

definition applyOr :: "lib \<Rightarrow> signerState \<Rightarrow> event \<Rightarrow> signerState" where
  "applyOr L st e = (case apply_event L st e of Inl _ \<Rightarrow> st | Inr t \<Rightarrow> t)"

lemma wellKeyed_applyOr: "wellKeyed st \<Longrightarrow> wellKeyed (applyOr L st e)"
  unfolding applyOr_def apply_event_def using wellKeyed_body by (auto split: sum.split)

interpretation replayI: step_invariant "applyOr L" wellKeyed emptyState for L
  by unfold_locales (simp add: wellKeyed_def emptyState_def, rule wellKeyed_applyOr)

text \<open>The parsed intents and mandates of a state are what their recorded texts parse to.\<close>

definition allVals :: "('v \<Rightarrow> bool) \<Rightarrow> ('k, 'v) jsmap \<Rightarrow> bool" where
  "allVals P m \<longleftrightarrow> (\<forall>k v. mapGet m k = Some v \<longrightarrow> P v)"

lemma allVals_empty [simp]: "allVals P []"
  by (simp add: allVals_def)

lemma allVals_get: "allVals P m \<Longrightarrow> mapGet m k = Some v \<Longrightarrow> P v"
  by (simp add: allVals_def)

lemma allVals_mapSet: "allVals P m \<Longrightarrow> P v \<Longrightarrow> allVals P (mapSet m k v)"
  by (simp add: allVals_def)

lemma allVals_mapUpdate: "allVals P m \<Longrightarrow> (\<And>v. P v \<Longrightarrow> P (g v)) \<Longrightarrow> allVals P (mapUpdate m k g)"
  by (cases "mapGet m k") (simp_all add: mapUpdate_def allVals_mapSet allVals_get)

definition intentParsed :: "lib \<Rightarrow> intentRecord \<Rightarrow> bool" where
  "intentParsed L r \<longleftrightarrow> parseIntent L (rText r) = Inr (rIntent r)"

definition mandateParsed :: "lib \<Rightarrow> mandateRecord \<Rightarrow> bool" where
  "mandateParsed L d \<longleftrightarrow> parseMandate L (dText d) = Inr (dMandate d)"

definition parsedTexts :: "lib \<Rightarrow> signerState \<Rightarrow> bool" where
  "parsedTexts L st \<longleftrightarrow> allVals (intentParsed L) (sIntents st) \<and> allVals (mandateParsed L) (sMandates st)"

lemma intentParsed_settle [simp]: "intentParsed L (settle s r tm) = intentParsed L r"
  by (simp add: settle_def Let_def intentParsed_def split: option.split)

lemma parsedTexts_notes: "parsedTexts L st \<Longrightarrow> parsedTexts L (noteNonce st a n)" "parsedTexts L st \<Longrightarrow> parsedTexts L (noteChange st a c)"
  by (simp_all add: parsedTexts_def noteNonce_def noteChange_def split: option.split)

lemma parsedTexts_signed:
  assumes "parsedTexts L st" "applySigned st tm g = Inr st'"
  shows "parsedTexts L st'"
proof -
  let ?s1 = "st\<lparr>sIntents := mapUpdate (sIntents st) (sgIntentId g) (\<lambda>r. r\<lparr>rSignatures := rSignatures r @ [(tm, g)]\<rparr>),
    sReserved := foldl (\<lambda>m o1. mapSet m o1 (sgIntentId g)) (sReserved st) (case sgOutpoints g of None \<Rightarrow> [] | Some os \<Rightarrow> os)\<rparr>"
  have "allVals (intentParsed L) (sIntents ?s1)"
    using assms(1) by (simp add: parsedTexts_def) (rule allVals_mapUpdate, simp_all add: intentParsed_def)
  then have "parsedTexts L ?s1" using assms(1) by (simp add: parsedTexts_def)
  moreover from assms(2) obtain s2 where "s2 = ?s1 \<or> (\<exists>n. s2 = noteNonce ?s1 (sgAccountId g) n)" "st' = noteChange s2 (sgAccountId g) (sgChangeIndex g)"
    unfolding applySigned_def Let_def by (auto simp: andThen_eq_Inr split: option.splits)
  ultimately show ?thesis using parsedTexts_notes by blast
qed

lemma parsedTexts_approval:
  assumes "parsedTexts L st"
  shows "parsedTexts L (applyApproval st tm i c p n)"
proof -
  have "intentParsed L (r\<lparr>rApprovals := x\<rparr>)" if "mapGet (sIntents st) i = Some r" for r x
    using assms that allVals_get [of "intentParsed L" "sIntents st" i r] by (simp add: parsedTexts_def intentParsed_def)
  with assms show ?thesis
    by (auto simp: applyApproval_def parsedTexts_def Let_def mapSet_mapSet intro!: allVals_mapSet split: option.split)
qed

lemma parsedTexts_mandateApproval:
  assumes "parsedTexts L st"
  shows "parsedTexts L (applyMandateApproval st tm i c p n)"
proof -
  have "mandateParsed L d'" if "mapGet (sMandates st) i = Some d" "dText d' = dText d" "dMandate d' = dMandate d" for d d'
    using assms that allVals_get [of "mandateParsed L" "sMandates st" i d] by (simp add: parsedTexts_def mandateParsed_def)
  with assms show ?thesis
    by (auto simp: applyMandateApproval_def parsedTexts_def Let_def intro!: allVals_mapSet split: option.split)
qed

lemma parsedTexts_body:
  assumes "parsedTexts L st" "applyBody L st tm b = Inr st'"
  shows "parsedTexts L st'"
proof (cases b)
  case (ESigned g)
  with assms show ?thesis by (auto simp: applyBody_def intro: parsedTexts_signed)
next
  case (EApproval i c p n)
  with assms parsedTexts_approval [OF assms(1), of tm i c p n] show ?thesis by (auto simp: applyBody_def)
next
  case (EMandateApproval i c p n)
  with assms parsedTexts_mandateApproval [OF assms(1), of tm i c p n] show ?thesis by (auto simp: applyBody_def)
next
  case (EIntent i t m)
  with assms(2) obtain x where x: "parseIntent L t = Inr x" by (auto simp: applyBody_def applyIntent_def andThen_eq_Inr)
  then have "intentParsed L (newRecord i t x tm m)" by (simp add: intentParsed_def newRecord_def)
  with x EIntent assms show ?thesis
    by (auto simp: applyBody_def applyIntent_def exn_simps Let_def mapSet_mapSet parsedTexts_def intro!: allVals_mapSet split: if_splits)
qed (use assms in \<open>auto simp: applyBody_def applyAccount_def applyKey_def applyMandate_def parsedTexts_def intentParsed_def mandateParsed_def
       intro!: allVals_mapSet allVals_mapUpdate split: sum.splits option.splits\<close>)

lemma parsedTexts_applyOr: "parsedTexts L st \<Longrightarrow> parsedTexts L (applyOr L st e)"
  unfolding applyOr_def apply_event_def using parsedTexts_body by (auto split: sum.split)

interpretation replayP: step_invariant "applyOr L" "parsedTexts L" emptyState for L
  by unfold_locales (simp add: parsedTexts_def emptyState_def, rule parsedTexts_applyOr)

lemma replayFrom_applyOr: "replayFrom L st es = Inr t \<Longrightarrow> t = foldl (applyOr L) st es"
  by (induction es arbitrary: st) (auto simp: applyOr_def andThen_eq_Inr)

text \<open>
  C21. Whatever journal is replayed, the state is well formed: every intent, mandate, account, key and
  enrolment is in its map once and under its own id, no reserved output and no next nonce is kept twice,
  every intent is what the parser of intents makes of its recorded text, and every mandate what the parser
  of mandates makes of its text.
\<close>

theorem replayed_state_is_well_keyed:
  assumes "replay L es = Inr st"
  shows "keyed rIntentId (sIntents st) \<and> keyed dMandateId (sMandates st) \<and> keyed aAccountId (sAccounts st) \<and> keyed kCredId (sKeys st) \<and>
    keyed nEnrolId (sEnrolments st) \<and> distinct (mapKeys (sReserved st)) \<and> distinct (mapKeys (sNonces st)) \<and>
    (\<forall>i r. mapGet (sIntents st) i = Some r \<longrightarrow> parseIntent L (rText r) = Inr (rIntent r)) \<and>
    (\<forall>i d. mapGet (sMandates st) i = Some d \<longrightarrow> parseMandate L (dText d) = Inr (dMandate d))"
  using replayI.inv_run [of L es] replayP.inv_run [of L es] replayFrom_applyOr [of L emptyState es st] assms
  by (simp add: replay_def wellKeyed_def parsedTexts_def allVals_def intentParsed_def mandateParsed_def)

theorem replayed_state_is_well_keyed_witness:
  "\<exists>st r. replay demoLib [\<lparr>evSeq = 1, evAt = 5, evBody = EAccount ''a'' ''n'' 0 ''x''\<rparr>,
       \<lparr>evSeq = 2, evAt = 6, evBody = EIntent (iIntentId demoIntent) (intentText demoIntent) None\<rparr>] = Inr st \<and>
     keyed aAccountId (sAccounts st) \<and> length (sAccounts st) = 1 \<and> keyed rIntentId (sIntents st) \<and>
     mapGet (sIntents st) (iIntentId demoIntent) = Some r \<and> parseIntent demoLib (intentText demoIntent) = Inr (rIntent r)"
proof -
  let ?es = "[\<lparr>evSeq = 1, evAt = 5, evBody = EAccount ''a'' ''n'' 0 ''x''\<rparr>,
    \<lparr>evSeq = 2, evAt = 6, evBody = EIntent (iIntentId demoIntent) (intentText demoIntent) None\<rparr>]"
  have "case replay demoLib ?es of Inl _ \<Rightarrow> False | Inr st \<Rightarrow> length (sAccounts st) = 1 \<and>
    (case mapGet (sIntents st) (iIntentId demoIntent) of None \<Rightarrow> False | Some r \<Rightarrow> rText r = intentText demoIntent)"
    by code_simp
  then obtain st r where st: "replay demoLib ?es = Inr st" "length (sAccounts st) = 1"
    "mapGet (sIntents st) (iIntentId demoIntent) = Some r" "rText r = intentText demoIntent"
    by (auto split: sum.splits option.splits)
  from replayed_state_is_well_keyed [OF st(1)] st(3) have "parseIntent demoLib (rText r) = Inr (rIntent r)" by blast
  with st replayed_state_is_well_keyed [OF st(1)] show ?thesis by auto
qed

section \<open>An approval that counts\<close>

lemma approvalsQuorum_parts: "sPolicy s = sPolicy t \<Longrightarrow> sKeys s = sKeys t \<Longrightarrow> approvalsQuorum s as = approvalsQuorum t as"
proof -
  assume a: "sPolicy s = sPolicy t" "sKeys s = sKeys t"
  have "keyActive s c = keyActive t c" for c using a(2) by (simp add: keyActive_def)
  moreover have "activeKeysByPerson s = activeKeysByPerson t" using a(2) by (simp add: activeKeysByPerson_def)
  ultimately show ?thesis using a(1) by (cases "sPolicy t") (simp_all add: approvalsQuorum_def)
qed

text \<open>
  C20. The approval that completes the quorum opens the window: the payout becomes signable after the
  delay of the policy (none under four eyes) and stays so for exactly its approval window.
\<close>

theorem quorum_opens_window:
  assumes "applyBody L st tm (EApproval i c p n) = Inr st'" "mapGet (sIntents st) i = Some r" "rApprovedAt r = None" "rMandateId r = None"
    "iKind (rIntent r) = ''payout''" "sPolicy st = Some pol" "mapGet (sIntents st') i = Some q" "approvalsQuorum st' (rApprovals q)"
  shows "rApprovedAt q = Some tm \<and> rSignableAt q = Some (tm + (if mode pol = ''solo'' then soloDelaySec pol else 0)) \<and>
    rSignUntil q = Some (tm + (if mode pol = ''solo'' then soloDelaySec pol else 0) + approvalWindowSec pol)"
proof -
  let ?r1 = "r\<lparr>rApprovals := rApprovals r @ [\<lparr>apCredId = c, apPerson = p, apAt = tm\<rparr>]\<rparr>"
  let ?s1 = "st\<lparr>sKeys := mapUpdate (sKeys st) c (\<lambda>k. k\<lparr>kCounter := n\<rparr>)\<rparr>"
  let ?s2 = "?s1\<lparr>sIntents := mapSet (sIntents st) i ?r1\<rparr>"
  have st': "st' = ?s2\<lparr>sIntents := mapSet (sIntents ?s2) i (settle ?s2 ?r1 tm)\<rparr>"
    using assms(1,2) by (simp add: applyBody_def applyApproval_def Let_def)
  then have q: "q = settle ?s2 ?r1 tm" using assms(7) by simp
  then have ap: "rApprovals q = rApprovals ?r1" by simp
  have "approvalsQuorum ?s2 (rApprovals ?r1) = approvalsQuorum st' (rApprovals q)"
    unfolding ap by (rule approvalsQuorum_parts) (simp_all add: st')
  then have "quorum ?s2 ?r1" using assms(4,8) by (simp add: quorum_def)
  with q assms(3,5,6) show ?thesis by (simp add: settle_def Let_def)
qed

section \<open>A mode that is no string\<close>

text \<open>The text \<open>bump\<close> in a list: its \<open>String\<close> is \<open>bump\<close>, but it equals no mode.\<close>

definition listMode :: json where
  "listMode = JArr [JStr ''bump'']"

definition signArgs :: "string \<Rightarrow> json \<Rightarrow> json \<Rightarrow> json" where
  "signArgs i md plan = JObj [(''intentId'', JStr i), (''mode'', md), (''plan'', plan)]"

lemma list_mode: "modeArg (Some listMode) = Inr listMode" "modeArg (Some (JStr ''bump'')) = Inr (JStr ''bump'')"
  by (simp_all add: listMode_def modeArg_def SIGN_MODES_def)

lemma mode_tests:
  "isMode listMode ''first'' = False" "isMode listMode ''cancel'' = False"
  "isMode (JStr ''bump'') ''first'' = False" "isMode (JStr ''bump'') ''cancel'' = False"
  by (simp_all add: listMode_def isMode_def)

lemma targets_list:
  "btcTarget L st r listMode = btcTarget L st r (JStr ''bump'')" "ethNonceOk st r listMode = ethNonceOk st r (JStr ''bump'')"
  by (simp_all only: fun_eq_iff btcTarget_def ethNonceOk_def mode_tests if_False HOL.simp_thms)

lemma draftFor_list: "draftFor L s r n listMode = draftFor L s r n (JStr ''bump'')"
  by (simp only: fun_eq_iff draftFor_def signBtc_def signEth_def targets_list mode_tests if_False HOL.simp_thms)

text \<open>
  C22. A cancelled payment is signed again when the mode arrives in a list. After a cancellation \<open>sign\<close>
  refuses to raise the fee (\<open>cancelled\<close>); with the mode \<open>["bump"]\<close> and the same plan it signs the very
  transaction of the raise it refused (whenever that plan gives one) and commits it as a signature.
\<close>

theorem list_mode_revives_cancelled:
  assumes "requireInit s = Inr (ini, p)" "requireNotFrozen s = Inr ()" "intentOf s (Some (JStr i)) = Inr r"
    and "iKind (rIntent r) = ''payout''" "iAccountId (rIntent r) \<notin> {None, Some []}" "iAsset (rIntent r) \<notin> {None, Some []}"
    and "iAmount (rIntent r) \<noteq> None" "\<not> rCancelled r" "\<not> rVetoed r" "mapGet (sAccounts (gState s)) (the (iAccountId (rIntent r))) = Some acc"
    and "firstSigned r = Some (t0, f)" "lastSigned r = Some (t1, g)" "sgMode g = JStr ''cancel''"
    and "draftFor L s r (aIndex acc) (JStr ''bump'') (Some plan) p (Some f) (Some g) = Inr d"
  shows "sign L E s (signArgs i (JStr ''bump'') plan) = failG ''cancelled'' \<and>
    (\<exists>k. sign L E s (signArgs i listMode plan) = Inr (Commit (ESigned (signedOfDraft r listMode acc d)) k))"
proof -
  have a: "obj (Some (signArgs i md plan)) ''args'' = Inr [(''intentId'', JStr i), (''mode'', md), (''plan'', plan)]" for md
    by (simp add: signArgs_def obj_def)
  have fields: "jfield [(''intentId'', JStr i), (''mode'', md), (''plan'', plan)] ''intentId'' = Some (JStr i)"
    "jfield [(''intentId'', JStr i), (''mode'', md), (''plan'', plan)] ''mode'' = Some md"
    "jfield [(''intentId'', JStr i), (''mode'', md), (''plan'', plan)] ''plan'' = Some plan" for md
    by (simp_all add: jfield_def)
  have no: "\<not> (iKind (rIntent r) \<noteq> ''payout'' \<or> iAccountId (rIntent r) \<in> {None, Some []} \<or> iAsset (rIntent r) \<in> {None, Some []} \<or> iAmount (rIntent r) = None)"
    "\<not> (rCancelled r \<or> rVetoed r)" using assms(4-9) by blast+
  have guard: "laterGuards (Some f) (Some g) (JStr ''bump'') = failG ''cancelled''" "laterGuards (Some f) (Some g) listMode = Inr ()"
    using assms(13) by (simp_all add: laterGuards_def isMode_def listMode_def)
  note common = a fields assms(1-3,10-12) list_mode mode_tests if_not_P [OF no(1)] if_not_P [OF no(2)] exn_simps Let_def option.map option.case snd_conv
  have "sign L E s (signArgs i (JStr ''bump'') plan) = failG ''cancelled''"
    unfolding sign_def common by (simp add: guard failG_def)
  moreover have "\<exists>k. sign L E s (signArgs i listMode plan) = Inr (Commit (ESigned (signedOfDraft r listMode acc d)) k)"
    unfolding sign_def common by (simp add: guard exn_simps draftFor_list assms(14) del: One_nat_def)
  ultimately show ?thesis by blast
qed

end
