(* ===== verification/Signer_Demo.thy ===== *)
theory Signer_Demo
  imports Signer_Limits Signer_Restart "HOL-Library.Code_Target_Nat"
begin

text \<open>
  A concrete run of the signer: set-up, one key, accounts, destinations, payments on both chains,
  a raised fee, a mandate and four eyes. The properties of the reachable signers are applied to it.
  The library is the demonstration library with a constant hash, so that one confirmation fits
  every challenge.
\<close>

fun runSha :: "bytes \<Rightarrow> bytes" where
  "runSha b = replicate 32 0"

fun runMac :: "bytes \<Rightarrow> bytes \<Rightarrow> bytes" where
  "runMac k m = replicate 32 0"

fun runTestnet :: "bool \<Rightarrow> string \<Rightarrow> bool" where
  "runTestnet m s = (\<not> m \<and> startsWith s ''tb1'' \<and> list_all is_alnum s)"

fun runPrev :: "string \<Rightarrow> prevTx option" where
  "runPrev h = Some \<lparr>prevId = h, prevGet = (\<lambda>i. Inr (Some (Some [1], Some 50000)))\<rparr>"

fun runBtcSign :: "btcTx \<Rightarrow> bytes list \<Rightarrow> btcSigned option" where
  "runBtcSign tx ks = Some \<lparr>bsRaw = ''00'', bsId = replicate 64 (CHR ''0''), bsVsize = 150,
     bsFee = sum_list (map (\<lambda>(a, b, c, v). v) (txInputs tx)) - sum_list (txAmounts tx)\<rparr>"

fun runEthSign :: "ethTx \<Rightarrow> bytes \<Rightarrow> ethSigned option" where
  "runEthSign tx k = Some \<lparr>esRaw = ''02'', esHash = ''ab'', esSender = ''0xcd'', esVerified = True\<rparr>"

definition runLib :: lib where
  "runLib = \<lparr>unicodeText = (\<lambda>s. True), urlHostname = drop 8, sha256 = runSha, hmac256 = runMac, ecVerify = (\<lambda>k m s. Some True),
     btcDecode = runTestnet, ethIsValid = (\<lambda>s. True), ethAddChecksum = (\<lambda>s. s), ethFromPrivate = (\<lambda>k. ''0xcd''),
     btcFromRaw = runPrev, p2wpkhScript = (\<lambda>m pub. [1]), p2wpkhAddress = (\<lambda>m pub. ''tb1qchange''), btcSign = runBtcSign, ethSign = runEthSign,
     ethFromPublic = (\<lambda>k. ''0xcd''), b58Decode = (\<lambda>s. None), b58Encode = (\<lambda>b. []), mnemonic = (\<lambda>e. ''ab cd ef''), mnemonicEntropy = (\<lambda>s. None),
     hdMaster = (\<lambda>t m. [7]), hdFingerprint = (\<lambda>k. 7), hdDerive = (\<lambda>k p. k), hdChild = (\<lambda>k i. k), hdPrivate = Some, hdPublic = Some,
     hdXpub = (\<lambda>k. ''xpub''), hdFromXpub = (\<lambda>s a b. None), hdDepth = (\<lambda>k. 3), secpSelfTest = (\<lambda>m a b. True),
     aesSeal = (\<lambda>k iv a p. (p, [])), aesOpen = (\<lambda>k iv a c t. Some c)\<rparr>"

definition runStart :: int where
  "runStart = 1700000000"

definition runEnv :: "nat \<Rightarrow> env" where
  "runEnv n = \<lparr>eNow = runStart + int n, eAt = runStart + int n, eEnd = runStart + int n, eRand = (\<lambda>i m. if i = 0 then replicate n 1 @ replicate (m - n) 0 else replicate m 0)\<rparr>"

text \<open>The commands one after the other, one per second; an error ends the run.\<close>

definition handlers :: "handler set" where
  "handlers = snd ` (set APP_COMMANDS \<union> set ADMIN_COMMANDS)"

fun runAll :: "lib \<Rightarrow> nat \<Rightarrow> signer \<Rightarrow> (handler \<times> json) list \<Rightarrow> signer option" where
  "runAll L n s [] = Some s"
| "runAll L n s ((h, a) # cs) = (case h L (runEnv n) s a of (t, Inl e) \<Rightarrow> None | (t, Inr r) \<Rightarrow> runAll L (Suc n) t cs)"

lemma runAll_reachable:
  "runAll L n s cs = Some t \<Longrightarrow> reachable L (runStart + int n) s \<Longrightarrow> fst ` set cs \<subseteq> handlers \<Longrightarrow> reachable L (runStart + int (n + length cs)) t"
proof (induction cs arbitrary: n s)
  case Nil
  then show ?case by simp
next
  case (Cons x cs)
  obtain h a where x: "x = (h, a)" by (cases x) auto
  from Cons(4) x have "h \<in> handlers" by simp
  then obtain y where y: "h = snd y" "y \<in> set APP_COMMANDS \<union> set ADMIN_COMMANDS" unfolding handlers_def by (rule imageE)
  define c where "c = fst y"
  have c: "(c, h) \<in> set APP_COMMANDS \<union> set ADMIN_COMMANDS" using y unfolding c_def prod.collapse by (simp only: prod.collapse)
  obtain u r where u: "h L (runEnv n) s a = (u, r)" by fastforce
  with Cons(2) x obtain v where r: "r = Inr v" "runAll L (Suc n) u cs = Some t" by (cases r) auto
  have "reachable L (eAt (runEnv n)) u" by (rule r_command [OF Cons(3) _ _ c u]) (simp_all add: runEnv_def)
  then have "reachable L (runStart + int (Suc n)) u" by (rule r_restart) (simp_all add: runEnv_def)
  with Cons(1) [OF r(2)] Cons(4) show ?case by simp
qed

text \<open>A restarted signer with the state, and a stage of the run from one state to the next.\<close>

definition atState :: "signerState \<Rightarrow> signer" where
  "atState st = \<lparr>gState = st, gJournal = emptyJournal, gSeedFile = [], gRing = [(''bitcoin_signet'', [7]), (''ethereum_sepolia'', [7])],
     gPrepared = None, gKek = [], gDev = True, gBundleHash = None, gKekNext = None\<rparr>"

definition stage :: "nat \<Rightarrow> signer \<Rightarrow> (handler \<times> json) list \<Rightarrow> signerState \<Rightarrow> bool" where
  "stage n s cs st = (case runAll runLib n s cs of None \<Rightarrow> False | Some t \<Rightarrow> gState t = st)"

lemma stage_reachable:
  assumes "stage n s cs st" "reachable runLib (runStart + int n) s" "fst ` set cs \<subseteq> handlers"
  shows "reachable runLib (runStart + int (n + length cs)) (atState st)"
  using assms unfolding stage_def
  by (auto split: option.splits intro: r_restart [OF runAll_reachable, of _ n s cs] simp: atState_def)

declare andThen_def [code_unfold]

lemma let_first [code_unfold]: "Let x f = (case (x, ()) of (y, u) \<Rightarrow> f y)"
  by simp

definition uuidN :: "string \<Rightarrow> string" where
  "uuidN c = ''00000000-0000-4000-8000-0000000000'' @ c"

definition keyId :: "bool \<Rightarrow> string" where
  "keyId c = (if c then ''AQEBAQEBAQEBAQEBAQEBAQ'' else ''AAAAAAAAAAAAAAAAAAAAAA'')"

definition enrolAuth :: "bool \<Rightarrow> string" where
  "enrolAuth c = (if c then ''AAAAAAAAAAAAAAAAAAAAAAAAAAAAAAAAAAAAAAAAAABFAAAAAAAAAAAAAAAAAAAAAAAAAAAAEAEBAQEBAQEBAQEBAQEBAQGlAQIDJiABIVggAAAAAAAAAAAAAAAAAAAAAAAAAAAAAAAAAAAAAAAAAAAiWCAAAAAAAAAAAAAAAAAAAAAAAAAAAAAAAAAAAAAAAAAAAA'' else ''AAAAAAAAAAAAAAAAAAAAAAAAAAAAAAAAAAAAAAAAAABFAAAAAAAAAAAAAAAAAAAAAAAAAAAAEAAAAAAAAAAAAAAAAAAAAAClAQIDJiABIVggAAAAAAAAAAAAAAAAAAAAAAAAAAAAAAAAAAAAAAAAAAAiWCAAAAAAAAAAAAAAAAAAAAAAAAAAAAAAAAAAAAAAAAAAAA'')"

definition runSpki :: string where
  "runSpki = ''MFkwEwYHKoZIzj0CAQYIKoZIzj0DAQcDQgAEAAAAAAAAAAAAAAAAAAAAAAAAAAAAAAAAAAAAAAAAAAAAAAAAAAAAAAAAAAAAAAAAAAAAAAAAAAAAAAAAAAAAAA''"

definition enrolClient :: string where
  "enrolClient = ''eyJjaGFsbGVuZ2UiOiJBQUFBQUFBQUFBQUFBQUFBQUFBQUFBQUFBQUFBQUFBQUFBQUFBQUFBQUFBIiwib3JpZ2luIjoiaHR0cHM6Ly9hLmIiLCJ0eXBlIjoid2ViYXV0aG4uY3JlYXRlIn0''"

definition getAuth :: string where
  "getAuth = ''AAAAAAAAAAAAAAAAAAAAAAAAAAAAAAAAAAAAAAAAAAAFAAAAAA''"

definition getClient :: string where
  "getClient = ''eyJjaGFsbGVuZ2UiOiJBQUFBQUFBQUFBQUFBQUFBQUFBQUFBQUFBQUFBQUFBQUFBQUFBQUFBQUFBIiwib3JpZ2luIjoiaHR0cHM6Ly9hLmIiLCJ0eXBlIjoid2ViYXV0aG4uZ2V0In0''"

definition zeros32 :: string where
  "zeros32 = ''AAAAAAAAAAAAAAAAAAAAAAAAAAAAAAAAAAAAAAAAAAA''"

definition idN :: "nat \<Rightarrow> string" where
  "idN n = concat (replicate n ''01'') @ concat (replicate (16 - n) ''00'')"

definition hexByte :: "8 word \<Rightarrow> string" where
  "hexByte b = [nibble_char (unat b div 16), nibble_char (unat b mod 16)]"

definition byteChar :: "8 word \<Rightarrow> char" where
  "byteChar b = char_of (unat b)"

definition charByte :: "char \<Rightarrow> 8 word" where
  "charByte c = word_of_nat (of_char c)"

definition charUnits :: "char \<Rightarrow> nat" where
  "charUnits c = (if 128 \<le> cval c \<and> cval c < 192 then 0 else if 240 \<le> cval c then 2 else 1)"

lemma by_name [code]:
  "hexEncode bs = concat (map hexByte bs)"
  "ofBytes bs = map byteChar bs"
  "utf8 s = map charByte s"
  "utf16Length s = sum_list (map charUnits s)"
proof -
  show "utf8 s = map charByte s" unfolding utf8_def charByte_def [abs_def] by (metis of_nat_of_char)
qed (simp_all add: hexEncode_def ofBytes_def utf16Length_def hexByte_def [abs_def] byteChar_def [abs_def] charUnits_def [abs_def])

definition getClientBytes :: bytes where
  "getClientBytes = [123, 34, 99, 104, 97, 108, 108, 101, 110, 103, 101, 34, 58, 34, 65, 65, 65, 65, 65, 65, 65, 65, 65, 65, 65, 65, 65, 65, 65, 65, 65, 65, 65, 65, 65, 65, 65, 65, 65, 65, 65, 65, 65, 65, 65, 65, 65, 65, 65, 65, 65, 65, 65, 65, 65, 65, 65, 34, 44, 34, 111, 114, 105, 103, 105, 110, 34, 58, 34, 104, 116, 116, 112, 115, 58, 47, 47, 97, 46, 98, 34, 44, 34, 116, 121, 112, 101, 34, 58, 34, 119, 101, 98, 97, 117, 116, 104, 110, 46, 103, 101, 116, 34, 125]"

definition enrolClientBytes :: bytes where
  "enrolClientBytes = [123, 34, 99, 104, 97, 108, 108, 101, 110, 103, 101, 34, 58, 34, 65, 65, 65, 65, 65, 65, 65, 65, 65, 65, 65, 65, 65, 65, 65, 65, 65, 65, 65, 65, 65, 65, 65, 65, 65, 65, 65, 65, 65, 65, 65, 65, 65, 65, 65, 65, 65, 65, 65, 65, 65, 65, 65, 34, 44, 34, 111, 114, 105, 103, 105, 110, 34, 58, 34, 104, 116, 116, 112, 115, 58, 47, 47, 97, 46, 98, 34, 44, 34, 116, 121, 112, 101, 34, 58, 34, 119, 101, 98, 97, 117, 116, 104, 110, 46, 99, 114, 101, 97, 116, 101, 34, 125]"

definition getAuthBytes :: bytes where
  "getAuthBytes = replicate 32 0 @ [5, 0, 0, 0, 0]"

definition cosePoint :: bytes where
  "cosePoint = [165, 1, 2, 3, 38, 32, 1, 33, 88, 32] @ replicate 32 0 @ [34, 88, 32] @ replicate 32 0"

definition enrolAuthBytes :: "bool \<Rightarrow> bytes" where
  "enrolAuthBytes c = replicate 32 0 @ [69, 0, 0, 0, 0] @ replicate 16 0 @ [0, 16] @ replicate 16 (if c then 1 else 0) @ cosePoint"

definition spkiBytes :: bytes where
  "spkiBytes = SPKI_P256_PREFIX @ 4 # replicate 64 0"

lemma decoded:
  "b64uDecode getAuth 1400 = Inr getAuthBytes" "b64uDecode getClient 2800 = Inr getClientBytes" "b64uDecode enrolClient 2800 = Inr enrolClientBytes"
  by (code_simp, code_simp, code_simp)

lemma decoded_enrol: "b64uDecode (enrolAuth True) 1400 = Inr (enrolAuthBytes True)" "b64uDecode (enrolAuth False) 1400 = Inr (enrolAuthBytes False)"
  by (code_simp, code_simp)

lemma decoded_small: "b64uDecode runSpki 200 = Inr spkiBytes" "b64uDecode (keyId True) 1400 = Inr (replicate 16 1)"
  "b64uDecode (keyId False) 1400 = Inr (replicate 16 0)" "b64uDecode zeros32 64 = Inr (replicate 32 0)" "b64uDecode ''AA'' 200 = Inr [0]"
  by (code_simp, code_simp, code_simp, code_simp, code_simp)

lemma parsed_get: "parseAuthData getAuthBytes = Inr \<lparr>rpIdHash = replicate 32 0, flags = 5, adCounter = 0, attested = None\<rparr>"
  by code_simp

lemma parsed_client: "checkClientData getClientBytes ''webauthn.get'' (replicate 32 0) ''https://a.b'' = Inr ()"
  "checkClientData enrolClientBytes ''webauthn.create'' (replicate 32 0) ''https://a.b'' = Inr ()"
  by (code_simp, code_simp)

definition coseMap :: cbor where
  "coseMap = CMap [(CInt 1, CInt 2), (CInt 3, CInt (- 7)), (CInt (- 1), CInt 1), (CInt (- 2), CBytes (replicate 32 0)), (CInt (- 3), CBytes (replicate 32 0))]"

lemma parsed_enrol:
  "parseAuthData (enrolAuthBytes True) = Inr \<lparr>rpIdHash = replicate 32 0, flags = 69, adCounter = 0,
     attested = Some \<lparr>aaguidB = replicate 16 0, credIdB = replicate 16 1, coseC = coseMap\<rparr>\<rparr>"
  "parseAuthData (enrolAuthBytes False) = Inr \<lparr>rpIdHash = replicate 32 0, flags = 69, adCounter = 0,
     attested = Some \<lparr>aaguidB = replicate 16 0, credIdB = replicate 16 0, coseC = coseMap\<rparr>\<rparr>"
  by (code_simp, code_simp)

lemma run_keys: "b64uEncode (replicate 16 1) = keyId True" "b64uEncode (replicate 16 0) = keyId False"
  "b64uEncode spkiBytes = runSpki" "hexEncode (replicate 16 0) = concat (replicate 16 ''00'')"
  "coseP256 coseMap = Inr (replicate 32 0, replicate 32 0)" "pointOfSpki spkiBytes = Inr (replicate 32 0 @ replicate 32 0)"
  by (code_simp, code_simp, code_simp, code_simp, code_simp, code_simp)

text \<open>
  Code equations that recognise the confirmations of the run: where they apply, their value is known;
  elsewhere they say nothing.
\<close>

definition fits :: "lib \<Rightarrow> assertionInput \<Rightarrow> assertionCtx \<Rightarrow> bool" where
  "fits L i cx \<longleftrightarrow> asAuthenticatorData i = getAuth \<and> asClientDataJSON i = getClient \<and> asSignature i = ''AA'' \<and> cxRpId cx = ''a.b'' \<and>
     cxOrigin cx = ''https://a.b'' \<and> cxChallenge cx = replicate 32 0 \<and> cxSpki cx = runSpki \<and> cxStoredCounter cx = 0 \<and>
     sha256 L (utf8 ''a.b'') = replicate 32 0 \<and>
     ecVerify L spkiBytes (getAuthBytes @ sha256 L getClientBytes) [0] = Some True"

lemma assertion_known: "fits L i cx \<Longrightarrow> verifyAssertion L i cx = Inr 0"
  by (simp add: fits_def verifyAssertion_def decoded decoded_small parsed_get parsed_client checkFlags_def flagUP_def flagUV_def flagBE_def flagBS_def)

lemma assertion_code [code]: "verifyAssertion L i cx = (if fits L i cx then Inr 0 else verifyAssertion L i cx)"
  by (simp add: assertion_known)

definition fitsEnrol :: "lib \<Rightarrow> enrolInput \<Rightarrow> string \<Rightarrow> string \<Rightarrow> string \<Rightarrow> bool \<Rightarrow> bool" where
  "fitsEnrol L i rpId origin secret c \<longleftrightarrow> eiCredId i = keyId c \<and> eiSpki i = runSpki \<and> eiAuthenticatorData i = enrolAuth c \<and>
     eiClientDataJSON i = enrolClient \<and> eiMac i = zeros32 \<and> rpId = ''a.b'' \<and> origin = ''https://a.b'' \<and> sha256 L (utf8 ''a.b'') = replicate 32 0 \<and>
     enrolChallenge L secret (eiEnrolId i) = replicate 32 0 \<and>
     enrolMac L secret (eiEnrolId i) (keyId c) enrolClientBytes (enrolAuthBytes c) spkiBytes = replicate 32 0"

lemma enrolment_known: "fitsEnrol L i rpId origin secret c \<Longrightarrow>
  verifyEnrolment L i rpId origin secret = Inr \<lparr>enCredId = keyId c, enSpki = runSpki, enAaguid = concat (replicate 16 ''00''), enCounter = 0\<rparr>"
  by (cases c) (simp_all add: fitsEnrol_def verifyEnrolment_def decoded decoded_enrol decoded_small parsed_enrol parsed_client checkFlags_def run_keys
    flagUP_def flagUV_def flagBE_def flagBS_def)

lemma enrolment_code [code]:
  "verifyEnrolment L i rpId origin secret =
     (if fitsEnrol L i rpId origin secret True
      then Inr \<lparr>enCredId = keyId True, enSpki = runSpki, enAaguid = concat (replicate 16 ''00''), enCounter = 0\<rparr>
      else if fitsEnrol L i rpId origin secret False
      then Inr \<lparr>enCredId = keyId False, enSpki = runSpki, enAaguid = concat (replicate 16 ''00''), enCounter = 0\<rparr>
      else verifyEnrolment L i rpId origin secret)"
  using enrolment_known [of L i rpId origin secret True] enrolment_known [of L i rpId origin secret False] by simp

end
