(* ===== verification/Signer_Run.thy ===== *)
theory Signer_Run
  imports Signer_Demo
begin

text \<open>
  The run, in stages: set-up, a key, accounts, destinations; then payments over a mandate with a raised
  fee, a cancelled payment, Ethereum payments with two nonces, and four eyes. Every stage is evaluated; the states between
  the stages are written out. From the states follow the witnesses of the safety properties.
\<close>

section \<open>Commands\<close>

definition freshSigner :: signer where
  "freshSigner = demoSigner\<lparr>gPrepared := Some \<lparr>ppToken = idN 0, ppEntropy = [(''bitcoin_signet'', [1]), (''ethereum_sepolia'', [0])],
     ppExpiresAt = runStart + 900\<rparr>\<rparr>"

definition initCmd :: "(handler \<times> json)" where
  "initCmd = (initCommit, JObj [(''orgId'', JStr (uuidN ''01'')), (''rpId'', JStr ''a.b''), (''token'', JStr (idN 0)),
     (''checks'', JObj [(''bitcoin_signet'', JObj [(''1'', JStr ''ab''), (''2'', JStr ''cd''), (''3'', JStr ''ef'')]),
        (''ethereum_sepolia'', JObj [(''1'', JStr ''ab''), (''2'', JStr ''cd''), (''3'', JStr ''ef'')])])])"

definition enrol :: "bool \<Rightarrow> nat \<Rightarrow> string \<Rightarrow> (handler \<times> json) list" where
  "enrol c e p = [
     (runC (\<lambda>L E s a. enrolStart E s a), JObj [(''person'', JStr p)]),
     (runC enrolFinish, JObj [(''enrolId'', JStr (idN e)), (''credId'', JStr (keyId c)), (''spki'', JStr runSpki),
        (''authenticatorData'', JStr (enrolAuth c)), (''clientDataJSON'', JStr enrolClient), (''mac'', JStr zeros32)])]"

definition accountsCmd :: "(handler \<times> json) list" where
  "accountsCmd = map (\<lambda>(i, n). (runC accountCreate, JObj [(''orgId'', JStr (uuidN ''01'')), (''accountId'', JStr (uuidN i)), (''network'', JStr n)]))
     [(''0a'', ''bitcoin_signet''), (''0b'', ''bitcoin_signet''), (''0e'', ''ethereum_sepolia'')]"

definition approveCmd :: "bool \<Rightarrow> nat \<Rightarrow> (handler \<times> json)" where
  "approveCmd c n = (runC approve, JObj [(''intentId'', JStr (idN n)), (''credId'', JStr (keyId c)), (''authenticatorData'', JStr getAuth),
     (''clientDataJSON'', JStr getClient), (''signature'', JStr ''AA'')])"

definition whitelistCmd :: "string \<Rightarrow> string \<Rightarrow> (handler \<times> json)" where
  "whitelistCmd net d = (runC intentCreate, JObj [(''kind'', JStr ''whitelist''), (''initiator'', JStr (uuidN ''03'')), (''network'', JStr net), (''destination'', JStr d)])"

definition payoutCmd :: "string \<Rightarrow> string \<Rightarrow> string \<Rightarrow> string \<Rightarrow> (string \<times> json) list \<Rightarrow> (handler \<times> json)" where
  "payoutCmd acc cd d fee ex = (runC intentCreate, JObj ([(''kind'', JStr ''payout''), (''initiator'', JStr (uuidN ''03'')), (''accountId'', JStr (uuidN acc)),
     (''asset'', JStr cd), (''amount'', JStr ''20000''), (''feeCap'', JStr fee), (''destination'', JStr d)] @ ex))"

definition btcPlan :: "string \<Rightarrow> string \<Rightarrow> json" where
  "btcPlan x f = JObj [(''inputs'', JArr [JObj [(''txid'', JStr x), (''vout'', JNum 0), (''prevTxHex'', JStr x), (''branch'', JNum 0), (''index'', JNum 4)]]),
     (''fee'', JStr f)]"

definition ethPlan :: "string \<Rightarrow> json" where
  "ethPlan n = JObj [(''nonce'', JStr n), (''gasLimit'', JStr ''60000''), (''maxFeePerGas'', JStr ''10''), (''maxPriorityFeePerGas'', JStr ''1'')]"

definition signCmd :: "nat \<Rightarrow> string \<Rightarrow> json \<Rightarrow> (handler \<times> json)" where
  "signCmd n m p = (runC sign, JObj [(''intentId'', JStr (idN n)), (''mode'', JStr m), (''plan'', p)])"

definition txA :: string where "txA = replicate 64 (CHR ''a'')"
definition txB :: string where "txB = replicate 64 (CHR ''b'')"
definition destB :: string where "destB = ''tb1qa''"
definition destE :: string where "destE = ''0x'' @ replicate 40 (CHR ''b'')"

definition runMandate :: mandate where
  "runMandate = \<lparr>mOrgId = uuidN ''01'', mMandateId = uuidN ''0d'', mGrantee = uuidN ''03'', mNetwork = ''bitcoin_signet'', mChainId = None,
     mAsset = ''BTC'', mPerPayout = 20000, mTotal = 40000, mDestinations = [destB], mValidFrom = runStart, mValidUntil = runStart + 86400,
     mIssuer = uuidN ''02'', mNonce = idN 0\<rparr>"

definition mandateCmds :: "(handler \<times> json) list" where
  "mandateCmds = [(runC mandateCreate, JObj [(''text'', JStr (mandateText runMandate))]),
     (runC mandateApprove, JObj [(''mandateId'', JStr (uuidN ''0d'')), (''credId'', JStr (keyId True)), (''authenticatorData'', JStr getAuth),
       (''clientDataJSON'', JStr getClient), (''signature'', JStr ''AA'')])]"

definition fourEyes :: "int policy" where
  "fourEyes = (defaultPolicy [''bitcoin_signet'', ''ethereum_sepolia''] True)\<lparr>version := 2, prev := Some (concat (replicate 32 ''00'')), mode := ''four_eyes''\<rparr>"

definition policyCmd :: "(handler \<times> json)" where
  "policyCmd = (runC (\<lambda>L E s a. policySet L s a), JObj [(''policy'', policyJson fourEyes)])"

section \<open>States\<close>

definition stA1 :: signerState where
  "stA1 = (let p = defaultPolicy [''bitcoin_signet'', ''ethereum_sepolia''] True; f = [(''bitcoin_signet'', ''00000007''), (''ethereum_sepolia'', ''00000007'')] in
     emptyState\<lparr>sInit := Some \<lparr>inOrgId = uuidN ''01'', inRpId = ''a.b'', inOrigin = ''https://a.b'', inDev = True, inFingerprints = f, inPolicy = p\<rparr>,
       sFingerprints := f, sPolicy := Some p\<rparr>)"

definition runEnrolRec :: "nat \<Rightarrow> string \<Rightarrow> (string \<times> enrolRecord)" where
  "runEnrolRec n p = (idN n, \<lparr>nEnrolId = idN n, nPerson = p, nSecret = concat (replicate 32 ''00''), nExpiresAt = runStart + int n + 3600, nDone = True\<rparr>)"

definition runPerson :: "bool \<Rightarrow> string" where
  "runPerson c = (if c then uuidN ''02'' else uuidN ''05'')"

definition runKey :: "bool \<Rightarrow> nat \<Rightarrow> (string \<times> keyRecord)" where
  "runKey c n = (keyId c, \<lparr>kCredId = keyId c, kPerson = runPerson c, kSpki = runSpki, kAaguid = concat (replicate 16 ''00''), kCounter = 0,
     kActive = True, kEnrolledAt = runStart + int n\<rparr>)"

definition stA2 :: signerState where
  "stA2 = stA1\<lparr>sEnrolments := [runEnrolRec 2 (runPerson True)], sKeys := [runKey True 3]\<rparr>"

definition runAccount :: "string \<Rightarrow> string \<Rightarrow> int \<Rightarrow> (string \<times> accountRecord)" where
  "runAccount i n x = (uuidN i, \<lparr>aAccountId = uuidN i, aNetwork = n, aIndex = x, aXpub = ''xpub''\<rparr>)"

definition stA3 :: signerState where
  "stA3 = stA2\<lparr>sAccounts := [runAccount ''0a'' ''bitcoin_signet'' 0, runAccount ''0b'' ''bitcoin_signet'' 1, runAccount ''0e'' ''ethereum_sepolia'' 0],
     sNextIndex := [(''bitcoin_signet'', 2), (''ethereum_sepolia'', 1)]\<rparr>"

definition given :: "bool \<Rightarrow> nat \<Rightarrow> approvalT" where
  "given c n = \<lparr>apCredId = keyId c, apPerson = runPerson c, apAt = runStart + int n\<rparr>"

definition listed :: "string \<Rightarrow> nat \<Rightarrow> string \<Rightarrow> string \<Rightarrow> (string \<times> intentRecord)" where
  "listed txt n net d = (let i = \<lparr>iKind = ''whitelist'', iOrgId = uuidN ''01'', iAccountId = None, iNetwork = net, iChainId = Option.bind (NETWORKS net) chainId,
       iAsset = None, iAmount = None, iDestination = d, iActiveSince = None, iFeeCap = None, iInitiator = uuidN ''03'', iIntentId = idN n, iNonce = idN 0,
       iExpiresAt = runStart + int n + WHITELIST_TTL\<rparr> in
     (idN n, (newRecord (idN n) txt i (runStart + int n) None)\<lparr>rApprovals := [given True (n + 1)], rApprovedAt := Some (runStart + int n + 1),
       rActiveFrom := Some (runStart + int n + 1)\<rparr>))"

definition payout :: "string \<Rightarrow> nat \<Rightarrow> string \<Rightarrow> string \<Rightarrow> string \<Rightarrow> string \<Rightarrow> nat \<Rightarrow> int \<Rightarrow> string option \<Rightarrow> approvalT list \<Rightarrow> nat \<Rightarrow> (int \<times> signedT) list \<Rightarrow> (string \<times> intentRecord)" where
  "payout txt n acc net cd d since cap m gs okAt sgs = (let i = \<lparr>iKind = ''payout'', iOrgId = uuidN ''01'', iAccountId = Some (uuidN acc), iNetwork = net,
       iChainId = Option.bind (NETWORKS net) chainId, iAsset = Some cd, iAmount = Some 20000, iDestination = d, iActiveSince = Some (runStart + int since),
       iFeeCap = Some cap, iInitiator = uuidN ''03'', iIntentId = idN n, iNonce = idN 0, iExpiresAt = runStart + int n + PAYOUT_TTL\<rparr> in
     (idN n, (newRecord (idN n) txt i (runStart + int n) m)\<lparr>rApprovals := gs, rApprovedAt := Some (runStart + int okAt),
       rSignableAt := Some (runStart + int okAt), rSignUntil := Some (runStart + int okAt + 3600), rSignatures := sgs\<rparr>))"

definition btcSigned :: "nat \<Rightarrow> string \<Rightarrow> string \<Rightarrow> string \<Rightarrow> int \<Rightarrow> signedT" where
  "btcSigned n m fee tx ch = \<lparr>sgIntentId = idN n, sgMode = JStr m, sgAccountId = uuidN ''0a'', sgNetwork = ''bitcoin_signet'', sgAsset = ''BTC'', sgAmount = ''20000'',
     sgTxid = replicate 64 (CHR ''0''), sgRaw = ''00'', sgFee = fee, sgOutpoints = Some [tx @ '':0''], sgChangeIndex = Some (Some ch), sgNonce = None,
     sgMaxFeePerGas = None, sgMaxPriorityFeePerGas = None, sgGasLimit = None\<rparr>"

definition ethSignedAs :: "nat \<Rightarrow> string \<Rightarrow> signedT" where
  "ethSignedAs n nonce = \<lparr>sgIntentId = idN n, sgMode = JStr ''first'', sgAccountId = uuidN ''0e'', sgNetwork = ''ethereum_sepolia'', sgAsset = ''USDC'', sgAmount = ''20000'',
     sgTxid = ''ab'', sgRaw = ''02'', sgFee = ''600000'', sgOutpoints = None, sgChangeIndex = None, sgNonce = Some nonce, sgMaxFeePerGas = Some ''10'',
     sgMaxPriorityFeePerGas = Some ''1'', sgGasLimit = Some ''60000''\<rparr>"

definition stA4 :: signerState where
  "stA4 = stA3\<lparr>sIntents := [listed ''klick-wallet/v1|whitelist|00000000-0000-4000-8000-000000000001|-|bitcoin_signet|-|-|-|tb1qa|-|-|00000000-0000-4000-8000-000000000003|01010101010101000000000000000000|00000000000000000000000000000000|1700086407'' 7 ''bitcoin_signet'' destB]\<rparr>"

definition stE0 :: signerState where
  "stE0 = stA3\<lparr>sIntents := [listed ''klick-wallet/v1|whitelist|00000000-0000-4000-8000-000000000001|-|ethereum_sepolia|11155111|-|-|0xbbbbbbbbbbbbbbbbbbbbbbbbbbbbbbbbbbbbbbbb|-|-|00000000-0000-4000-8000-000000000003|01010101010101000000000000000000|00000000000000000000000000000000|1700086407'' 7 ''ethereum_sepolia'' destE]\<rparr>"

definition stM1 :: signerState where
  "stM1 = stA4\<lparr>sMandates := [(uuidN ''0d'', \<lparr>dMandateId = uuidN ''0d'', dText = mandateText runMandate, dMandate = runMandate, dCreatedAt = runStart + 9,
     dApprovals = [given True 10], dApprovedAt = Some (runStart + 10), dRevoked = False\<rparr>)]\<rparr>"

definition mandated :: "string \<Rightarrow> nat \<Rightarrow> (int \<times> signedT) list \<Rightarrow> (string \<times> intentRecord)" where
  "mandated txt n sgs = payout txt n ''0a'' ''bitcoin_signet'' ''BTC'' destB 8 5000 (Some (uuidN ''0d'')) [] n sgs"

definition textM :: string where
  "textM = ''klick-wallet/v1|payout|00000000-0000-4000-8000-000000000001|00000000-0000-4000-8000-00000000000a|bitcoin_signet|-|BTC|20000|tb1qa|1700000008|5000|00000000-0000-4000-8000-000000000003|01010101010101010101010000000000|00000000000000000000000000000000|1700014411''"

definition textN :: string where
  "textN = ''klick-wallet/v1|payout|00000000-0000-4000-8000-000000000001|00000000-0000-4000-8000-00000000000a|bitcoin_signet|-|BTC|20000|tb1qa|1700000008|5000|00000000-0000-4000-8000-000000000003|01010101010101010101010101010000|00000000000000000000000000000000|1700014414''"

definition stM2 :: signerState where
  "stM2 = stM1\<lparr>sIntents := sIntents stA4 @ [mandated textM 11 []]\<rparr>"

definition stM3 :: signerState where
  "stM3 = stM1\<lparr>sIntents := sIntents stA4 @ [mandated textM 11 [(runStart + 12, btcSigned 11 ''first'' ''500'' txA 0)]],
     sReserved := [(txA @ '':0'', idN 11)], sNextChange := [(uuidN ''0a'', 1)]\<rparr>"

definition bumped :: "(string \<times> intentRecord)" where
  "bumped = mandated textM 11 [(runStart + 12, btcSigned 11 ''first'' ''500'' txA 0), (runStart + 13, btcSigned 11 ''bump'' ''700'' txA 0)]"

definition stM4 :: signerState where
  "stM4 = stM1\<lparr>sIntents := sIntents stA4 @ [bumped], sReserved := [(txA @ '':0'', idN 11)], sNextChange := [(uuidN ''0a'', 1)]\<rparr>"

definition cancelledSigs :: "(int \<times> signedT) list" where
  "cancelledSigs = [(runStart + 12, btcSigned 11 ''first'' ''500'' txA 0), (runStart + 13, btcSigned 11 ''cancel'' ''700'' txA 0)]"

definition stC :: signerState where
  "stC = stM1\<lparr>sIntents := sIntents stA4 @ [mandated textM 11 cancelledSigs], sReserved := [(txA @ '':0'', idN 11)], sNextChange := [(uuidN ''0a'', 1)]\<rparr>"

definition stM5 :: signerState where
  "stM5 = stM1\<lparr>sIntents := sIntents stA4 @ [bumped, mandated textN 14 []], sReserved := [(txA @ '':0'', idN 11)], sNextChange := [(uuidN ''0a'', 1)]\<rparr>"

definition stM6 :: signerState where
  "stM6 = stM1\<lparr>sIntents := sIntents stA4 @ [bumped, mandated textN 14 [(runStart + 15, btcSigned 14 ''first'' ''500'' txB 1)]],
     sReserved := [(txA @ '':0'', idN 11), (txB @ '':0'', idN 14)], sNextChange := [(uuidN ''0a'', 2)]\<rparr>"

definition tokens :: "string \<Rightarrow> nat \<Rightarrow> (int \<times> signedT) list \<Rightarrow> (string \<times> intentRecord)" where
  "tokens txt n sgs = payout txt n ''0e'' ''ethereum_sepolia'' ''USDC'' destE 8 700000 None [given True (n + 1)] (n + 1) sgs"

definition textE :: string where
  "textE = ''klick-wallet/v1|payout|00000000-0000-4000-8000-000000000001|00000000-0000-4000-8000-00000000000e|ethereum_sepolia|11155111|USDC|20000|0xbbbbbbbbbbbbbbbbbbbbbbbbbbbbbbbbbbbbbbbb|1700000008|700000|00000000-0000-4000-8000-000000000003|01010101010101010100000000000000|00000000000000000000000000000000|1700014409''"

definition textF :: string where
  "textF = ''klick-wallet/v1|payout|00000000-0000-4000-8000-000000000001|00000000-0000-4000-8000-00000000000e|ethereum_sepolia|11155111|USDC|20000|0xbbbbbbbbbbbbbbbbbbbbbbbbbbbbbbbbbbbbbbbb|1700000008|700000|00000000-0000-4000-8000-000000000003|01010101010101010101010100000000|00000000000000000000000000000000|1700014412''"

definition stE1 :: signerState where
  "stE1 = stE0\<lparr>sIntents := sIntents stE0 @ [tokens textE 9 []]\<rparr>"

definition stE2 :: signerState where
  "stE2 = stE0\<lparr>sIntents := sIntents stE0 @ [tokens textE 9 [(runStart + 11, ethSignedAs 9 ''3'')]], sNonces := [(uuidN ''0e'', 3)]\<rparr>"

definition stE3 :: signerState where
  "stE3 = stE0\<lparr>sIntents := sIntents stE0 @ [tokens textE 9 [(runStart + 11, ethSignedAs 9 ''3'')], tokens textF 12 []], sNonces := [(uuidN ''0e'', 3)]\<rparr>"

definition stE4 :: signerState where
  "stE4 = stE0\<lparr>sIntents := sIntents stE0 @ [tokens textE 9 [(runStart + 11, ethSignedAs 9 ''3'')], tokens textF 12 [(runStart + 14, ethSignedAs 12 ''4'')]],
     sNonces := [(uuidN ''0e'', 4)]\<rparr>"

definition stF1 :: signerState where
  "stF1 = stA4\<lparr>sEnrolments := [runEnrolRec 2 (runPerson True), runEnrolRec 9 (runPerson False)], sKeys := [runKey True 3, runKey False 10]\<rparr>"

definition stF2 :: signerState where
  "stF2 = stF1\<lparr>sPolicy := Some fourEyes\<rparr>"

definition stF3 :: signerState where
  "stF3 = stF2\<lparr>sIntents := sIntents stA4 @ [payout ''klick-wallet/v1|payout|00000000-0000-4000-8000-000000000001|00000000-0000-4000-8000-00000000000a|bitcoin_signet|-|BTC|20000|tb1qa|1700000008|5000|00000000-0000-4000-8000-000000000003|01010101010101010101010100000000|00000000000000000000000000000000|1700014412'' 12
     ''0a'' ''bitcoin_signet'' ''BTC'' destB 8 5000 None [given True 13, given False 14] 14 []]\<rparr>"

section \<open>Stages\<close>

text \<open>The stages of a branch are evaluated together.\<close>

lemma stagesA:
  shows stageA1: "stage 1 freshSigner [initCmd] stA1"
    and stageA2: "stage 2 (atState stA1) (enrol True 2 (uuidN ''02'')) stA2"
    and stageA3: "stage 4 (atState stA2) accountsCmd stA3"
    and stageA4: "stage 7 (atState stA3) [whitelistCmd ''bitcoin_signet'' destB, approveCmd True 7] stA4"
  by (atomize (full), code_simp)

lemma stagesM:
  shows stageM1: "stage 9 (atState stA4) mandateCmds stM1"
    and stageM2: "stage 11 (atState stM1) [payoutCmd ''0a'' ''BTC'' destB ''5000'' [(''mandateId'', JStr (uuidN ''0d''))]] stM2"
    and stageM3: "stage 12 (atState stM2) [signCmd 11 ''first'' (btcPlan txA ''500'')] stM3"
    and stageM4: "stage 13 (atState stM3) [signCmd 11 ''bump'' (btcPlan txA ''700'')] stM4"
    and stageM5: "stage 14 (atState stM4) [payoutCmd ''0a'' ''BTC'' destB ''5000'' [(''mandateId'', JStr (uuidN ''0d''))]] stM5"
    and stageM6: "stage 15 (atState stM5) [signCmd 14 ''first'' (btcPlan txB ''500'')] stM6"
  by (atomize (full), code_simp)

lemma stageC: "stage 13 (atState stM3) [signCmd 11 ''cancel'' (btcPlan txA ''700'')] stC"
  by code_simp

lemma stagesE:
  shows stageE0: "stage 7 (atState stA3) [whitelistCmd ''ethereum_sepolia'' destE, approveCmd True 7] stE0"
    and stageE1: "stage 9 (atState stE0) [payoutCmd ''0e'' ''USDC'' destE ''700000'' [], approveCmd True 9] stE1"
    and stageE2: "stage 11 (atState stE1) [signCmd 9 ''first'' (ethPlan ''3'')] stE2"
    and stageE3: "stage 12 (atState stE2) [payoutCmd ''0e'' ''USDC'' destE ''700000'' [], approveCmd True 12] stE3"
    and stageE4: "stage 14 (atState stE3) [signCmd 12 ''first'' (ethPlan ''4'')] stE4"
  by (atomize (full), code_simp)

lemma stagesF:
  shows stageF1: "stage 9 (atState stA4) (enrol False 9 (uuidN ''05'')) stF1"
    and stageF2: "stage 11 (atState stF1) [policyCmd] stF2"
    and stageF3: "stage 12 (atState stF2) [payoutCmd ''0a'' ''BTC'' destB ''5000'' [], approveCmd True 12, approveCmd False 12] stF3"
  by (atomize (full), code_simp)

text \<open>Every command of the run is a command of a socket.\<close>

lemma run_handlers [simp]:
  "initCommit \<in> handlers" "runC (\<lambda>L E s a. enrolStart E s a) \<in> handlers" "runC enrolFinish \<in> handlers" "runC accountCreate \<in> handlers"
  "runC approve \<in> handlers" "runC intentCreate \<in> handlers" "runC sign \<in> handlers" "runC mandateCreate \<in> handlers" "runC mandateApprove \<in> handlers"
  "runC (\<lambda>L E s a. policySet L s a) \<in> handlers"
  unfolding handlers_def APP_COMMANDS_def ADMIN_COMMANDS_def list.set image_Un image_insert snd_conv by blast+

lemmas run_cmds = initCmd_def enrol_def accountsCmd_def approveCmd_def whitelistCmd_def payoutCmd_def signCmd_def mandateCmds_def policyCmd_def

lemma reach_next: "stage n s cs st \<Longrightarrow> reachable runLib (runStart + int n) s \<Longrightarrow> fst ` set cs \<subseteq> handlers \<Longrightarrow> m = n + length cs \<Longrightarrow>
    reachable runLib (runStart + int m) (atState st)"
  using stage_reachable by simp

lemma reach_first: "reachable runLib tm freshSigner"
  by (rule r_start) (simp add: freshSigner_def demoSigner_def)

lemma reachable_A3: "reachable runLib (runStart + int 7) (atState stA3)"
  by (rule reach_next [OF stageA3 reach_next [OF stageA2 reach_next [OF stageA1 reach_first]]]) (simp_all add: run_cmds)

lemma reachable_A4: "reachable runLib (runStart + int 9) (atState stA4)"
  by (rule reach_next [OF stageA4 reachable_A3]) (simp_all add: run_cmds)

lemma reachable_M: "reachable runLib (runStart + int 16) (atState stM6)"
  by (rule reach_next [OF stageM6 reach_next [OF stageM5 reach_next [OF stageM4 reach_next [OF stageM3 reach_next [OF stageM2
      reach_next [OF stageM1 reachable_A4]]]]]]) (simp_all add: run_cmds)

lemma reachable_M2: "reachable runLib (runStart + int 12) (atState stM2)"
  by (rule reach_next [OF stageM2 reach_next [OF stageM1 reachable_A4]]) (simp_all add: run_cmds)

lemma reachable_C: "reachable runLib (runStart + int 14) (atState stC)"
  by (rule reach_next [OF stageC reach_next [OF stageM3 reachable_M2]]) (simp_all add: run_cmds)

lemma reachable_E1: "reachable runLib (runStart + int 11) (atState stE1)"
  by (rule reach_next [OF stageE1 reach_next [OF stageE0 reachable_A3]]) (simp_all add: run_cmds)

lemma reachable_E: "reachable runLib (runStart + int 15) (atState stE4)"
  by (rule reach_next [OF stageE4 reach_next [OF stageE3 reach_next [OF stageE2 reachable_E1]]]) (simp_all add: run_cmds)

lemma reachable_F: "reachable runLib (runStart + int 15) (atState stF3)"
  by (rule reach_next [OF stageF3 reach_next [OF stageF2 reach_next [OF stageF1 reachable_A4]]]) (simp_all add: run_cmds)

end
