(* ===== verification/Signer_Witness.thy ===== *)
theory Signer_Witness
  imports Signer_Run Signer_Ledger
begin

text \<open>
  The safety properties of the signer applied to the run of \<open>Signer_Run\<close>: two payments over a mandate,
  one of them with a raised fee, two token payments, four eyes.
\<close>

section \<open>Looking up the records of the run\<close>

lemma at_state [simp]: "gState (atState st) = st"
  by (simp add: atState_def)

lemma run_ids: "idN 11 \<noteq> idN 14" "idN 9 \<noteq> idN 12" "uuidN ''0a'' \<noteq> uuidN ''0b''"
  by (code_simp, code_simp, code_simp)

lemma stM6_intents: "mapGet (sIntents (gState (atState stM6))) (idN 11) = Some (snd bumped)"
  "mapGet (sIntents (gState (atState stM6))) (idN 14) = Some (snd (mandated textN 14 [(runStart + 15, btcSigned 14 ''first'' ''500'' txB 1)]))"
  by (code_simp, code_simp)

lemma stE4_intents: "mapGet (sIntents (gState (atState stE4))) (idN 9) = Some (snd (tokens textE 9 [(runStart + 11, ethSignedAs 9 ''3'')]))"
  "mapGet (sIntents (gState (atState stE4))) (idN 12) = Some (snd (tokens textF 12 [(runStart + 14, ethSignedAs 12 ''4'')]))"
  by (code_simp, code_simp)

lemma bumped_sigs: "rSignatures (snd bumped) = [(runStart + 12, btcSigned 11 ''first'' ''500'' txA 0), (runStart + 13, btcSigned 11 ''bump'' ''700'' txA 0)]"
  by (simp add: bumped_def mandated_def payout_def newRecord_def Let_def)

lemma mandated_sigs: "rSignatures (snd (mandated x n gs)) = gs"
  by (simp add: mandated_def payout_def newRecord_def Let_def)

lemma tokens_sigs: "rSignatures (snd (tokens x n gs)) = gs"
  by (simp add: tokens_def payout_def newRecord_def Let_def)

section \<open>Signatures\<close>

theorem outputs_never_shared_witness:
  "reachable runLib (runStart + 16) (atState stM6) \<and> outs (btcSigned 11 ''first'' ''500'' txA 0) = {txA @ '':0''} \<and>
   outs (btcSigned 11 ''first'' ''500'' txA 0) \<inter> outs (btcSigned 14 ''first'' ''500'' txB 1) = {}"
proof -
  have r: "reachable runLib (runStart + 16) (atState stM6)" using reachable_M by simp
  have "outs (btcSigned 11 ''first'' ''500'' txA 0) \<inter> outs (btcSigned 14 ''first'' ''500'' txB 1) = {}"
    by (rule outputs_never_shared [OF r stM6_intents run_ids(1)]) (simp_all add: bumped_sigs mandated_sigs)
  with r show ?thesis by (simp add: outs_def btcSigned_def)
qed

theorem nonces_never_shared_witness:
  "reachable runLib (runStart + 15) (atState stE4) \<and> sgNonce (ethSignedAs 12 ''4'') \<noteq> Some ''3''"
proof -
  have r: "reachable runLib (runStart + 15) (atState stE4)" using reachable_E by simp
  have "sgNonce (ethSignedAs 12 ''4'') \<noteq> Some ''3''"
    by (rule nonces_never_shared [OF r stE4_intents run_ids(2), of "ethSignedAs 9 ''3''"])
      (simp_all only: tokens_sigs, simp_all add: ethSignedAs_def)
  with r show ?thesis by blast
qed

theorem replacements_conflict_witness:
  "reachable runLib (runStart + 16) (atState stM6) \<and> length (sigs (snd bumped)) = 2 \<and>
   outs (btcSigned 11 ''bump'' ''700'' txA 0) \<subseteq> outs (btcSigned 11 ''first'' ''500'' txA 0)"
proof -
  have r: "reachable runLib (runStart + 16) (atState stM6)" using reachable_M by simp
  have "sigs (snd bumped) \<noteq> []" by (simp add: bumped_sigs)
  from replacements_conflict [OF r stM6_intents(1) this] show ?thesis using r by (simp add: bumped_sigs)
qed

section \<open>What a first signature needs\<close>

definition signF :: json where
  "signF = snd (signCmd 12 ''first'' (btcPlan txA ''500''))"

lemma signF_commits: "case sign runLib (runEnv 15) (atState stF3) signF of Inr (Commit (ESigned g) k) \<Rightarrow> sgMode g = JStr ''first'' | _ \<Rightarrow> False"
  by code_simp

lemma signF_ok:
  obtains g k where "sign runLib (runEnv 15) (atState stF3) signF = Inr (Commit (ESigned g) k)" "isMode (sgMode g) ''first''"
  using signF_commits by (auto simp: isMode_def split: sum.splits decision.splits body.splits)



definition stF0 :: signerState where
  "stF0 = stF2\<lparr>sIntents := sIntents stA4 @ [payout textM 11 ''0a'' ''bitcoin_signet'' ''BTC'' destB 8 5000 None [] 12 []]\<rparr>"

lemma approveF_commits: "case approve runLib (runEnv 13) (atState stF0) (snd (approveCmd True 11)) of
    Inr (Commit (EApproval i c p n) k) \<Rightarrow> i = idN 11 \<and> c = keyId True \<and> p = runPerson True \<and> n = 0 | _ \<Rightarrow> False"
  by code_simp

theorem approval_is_verified_witness:
  "\<exists>k (x :: assertionInput) ch. approve runLib (runEnv 13) (atState stF0) (snd (approveCmd True 11)) = Inr (Commit (EApproval (idN 11) (keyId True) (runPerson True) 0) k) \<and>
     verifyAssertion runLib x \<lparr>cxRpId = ''a.b'', cxOrigin = ''https://a.b'', cxChallenge = ch, cxSpki = runSpki, cxStoredCounter = 0\<rparr> = Inr 0"
proof -
  from approveF_commits obtain k where
    a: "approve runLib (runEnv 13) (atState stF0) (snd (approveCmd True 11)) = Inr (Commit (EApproval (idN 11) (keyId True) (runPerson True) 0) k)"
    by (auto split: sum.splits decision.splits body.splits)
  from approval_is_verified [OF a] obtain ini :: initT and key :: keyRecord and x :: assertionInput and r :: intentRecord where
    v: "sInit stF0 = Some ini" "mapGet (sKeys stF0) (keyId True) = Some key"
      "verifyAssertion runLib x \<lparr>cxRpId = inRpId ini, cxOrigin = inOrigin ini, cxChallenge = intentChallenge runLib (rText r),
         cxSpki = kSpki key, cxStoredCounter = kCounter key\<rparr> = Inr 0"
    unfolding at_state by blast
  have "case sInit stF0 of None \<Rightarrow> False | Some ini \<Rightarrow> inRpId ini = ''a.b'' \<and> inOrigin ini = ''https://a.b''" by code_simp
  moreover have "case mapGet (sKeys stF0) (keyId True) of None \<Rightarrow> False | Some key \<Rightarrow> kSpki key = runSpki \<and> kCounter key = 0" by code_simp
  ultimately show ?thesis using a v by auto
qed

section \<open>Accounts and limits\<close>

theorem accounts_never_share_keys_witness:
  "reachable runLib (runStart + 7) (atState stA3) \<and> mapGet (sAccounts stA3) (uuidN ''0a'') \<noteq> None \<and>
   aIndex (snd (runAccount ''0a'' ''bitcoin_signet'' 0)) \<noteq> aIndex (snd (runAccount ''0b'' ''bitcoin_signet'' 1))"
proof -
  have r: "reachable runLib (runStart + 7) (atState stA3)" using reachable_A3 by simp
  have a: "mapGet (sAccounts stA3) (uuidN ''0a'') = Some (snd (runAccount ''0a'' ''bitcoin_signet'' 0))"
    "mapGet (sAccounts stA3) (uuidN ''0b'') = Some (snd (runAccount ''0b'' ''bitcoin_signet'' 1))" by (code_simp, code_simp)
  from accounts_never_share_keys [OF r, of "uuidN ''0a''" _ "uuidN ''0b''"] a run_ids r show ?thesis by (simp add: runAccount_def)
qed

lemma signF_applies: "case sign runLib (runEnv 15) (atState stF3) signF of
    Inr (Commit (ESigned g) k) \<Rightarrow> sgMode g = JStr ''first'' \<and> (case applyBody runLib stF3 (eAt (runEnv 15)) (ESigned g) of Inl e \<Rightarrow> False | Inr st \<Rightarrow> True) | _ \<Rightarrow> False"
  by code_simp

theorem day_limit_is_kept_witness:
  "\<exists>g k st (l :: assetLimit) n. sign runLib (runEnv 15) (atState stF3) signF = Inr (Commit (ESigned g) k) \<and> applyBody runLib stF3 (runStart + 15) (ESigned g) = Inr st \<and>
     map_of (limits fourEyes) (sgAsset g) = Some (Some l) \<and> signedLast24h st (sgAsset g) (runStart + 15) = Inr n \<and> n \<le> bigInt (perDay l)"
proof -
  from signF_applies obtain g k where
    g: "sign runLib (runEnv 15) (atState stF3) signF = Inr (Commit (ESigned g) k)" "isMode (sgMode g) ''first''"
      "case applyBody runLib stF3 (eAt (runEnv 15)) (ESigned g) of Inl e \<Rightarrow> False | Inr st \<Rightarrow> True"
    unfolding isMode_def by (cases "sign runLib (runEnv 15) (atState stF3) signF") (simp_all split: decision.splits body.splits)
  then obtain st where s: "sign runLib (runEnv 15) (atState stF3) signF = Inr (Commit (ESigned g) k)" "isMode (sgMode g) ''first''"
      "applyBody runLib stF3 (eAt (runEnv 15)) (ESigned g) = Inr st" by (cases "applyBody runLib stF3 (eAt (runEnv 15)) (ESigned g)") simp_all
  have p: "sPolicy (gState (atState stF3)) = Some fourEyes" by (simp add: stF3_def stF2_def)
  have a: "applyBody runLib (gState (atState stF3)) (eAt (runEnv 15)) (ESigned g) = Inr st" using s(3) by simp
  have "eNow (runEnv 15) \<le> eAt (runEnv 15)" by (simp add: runEnv_def)
  from day_limit_is_kept [OF s(1,2) a p reachable_F this] s show ?thesis by (auto simp: runEnv_def)
qed

lemma runLib_addresses: "addressLib runLib"
  by (auto simp: addressLib_def runLib_def startsWith_def)

theorem mandate_total_is_kept_witness:
  "reachable runLib (runStart + 16) (atState stM6) \<and> mapGet (sMandates stM6) (uuidN ''0d'') \<noteq> None \<and>
   sum_list (map amountOf (filter (\<lambda>r. rMandateId r = Some (uuidN ''0d'') \<and> rSignatures r \<noteq> []) (mapValues (sIntents stM6)))) = 40000 \<and>
   mTotal runMandate = 40000"
proof -
  have r: "reachable runLib (runStart + 16) (atState stM6)" using reachable_M by simp
  let ?u = "sum_list (map amountOf (filter (\<lambda>r. rMandateId r = Some (uuidN ''0d'') \<and> rSignatures r \<noteq> []) (mapValues (sIntents stM6))))"
  have m: "case mapGet (sMandates stM6) (uuidN ''0d'') of None \<Rightarrow> False | Some d \<Rightarrow> dMandate d = runMandate" by code_simp
  then obtain d where d: "mapGet (sMandates stM6) (uuidN ''0d'') = Some d" "dMandate d = runMandate" by (auto split: option.splits)
  have "?u \<le> mTotal (dMandate d)" using mandate_total_is_kept [OF runLib_addresses r] d(1) by simp
  moreover have "40000 \<le> ?u" by code_simp
  moreover have "mTotal runMandate = 40000" by (simp add: runMandate_def)
  ultimately show ?thesis using r d by simp
qed

section \<open>The ledger and the bounds\<close>


theorem intents_are_bounded_witness:
  "reachable runLib (runStart + 16) (atState stM6) \<and> countIn (\<lambda>r. isOpen r (runStart + 16)) (sIntents stM6) \<le> 50 \<and> length (sIntents stM6) = 3"
proof -
  have r: "reachable runLib (runStart + 16) (atState stM6)" using reachable_M by simp
  have "length (sIntents stM6) = 3" by code_simp
  with intents_are_bounded [OF r] r show ?thesis by simp
qed

definition stW :: signerState where
  "stW = stA4\<lparr>sIntents := sIntents stA4 @ [(idN 11, (snd (mandated textM 11 []))\<lparr>rMandateId := None, rApprovedAt := None, rSignableAt := None, rSignUntil := None\<rparr>)]\<rparr>"

lemma stW_facts: "case applyBody runLib stW (runStart + 12) (EApproval (idN 11) (keyId True) (runPerson True) 0) of Inl e \<Rightarrow> False | Inr st \<Rightarrow>
    (case (mapGet (sIntents stW) (idN 11), mapGet (sIntents st) (idN 11)) of
       (Some r, Some q) \<Rightarrow> rApprovedAt r = None \<and> rMandateId r = None \<and> iKind (rIntent r) = ''payout'' \<and> approvalsQuorum st (rApprovals q) | _ \<Rightarrow> False) \<and>
    sPolicy stW = Some (defaultPolicy [''bitcoin_signet'', ''ethereum_sepolia''] True)"
  by code_simp

theorem quorum_opens_window_witness:
  "\<exists>st q. applyBody runLib stW (runStart + 12) (EApproval (idN 11) (keyId True) (runPerson True) 0) = Inr st \<and> mapGet (sIntents st) (idN 11) = Some q \<and>
     rSignableAt q = Some (runStart + 12) \<and> rSignUntil q = Some (runStart + 3612)"
proof -
  obtain st where st: "applyBody runLib stW (runStart + 12) (EApproval (idN 11) (keyId True) (runPerson True) 0) = Inr st"
    using stW_facts by (cases "applyBody runLib stW (runStart + 12) (EApproval (idN 11) (keyId True) (runPerson True) 0)") simp_all
  with stW_facts have f: "case (mapGet (sIntents stW) (idN 11), mapGet (sIntents st) (idN 11)) of
       (Some r, Some q) \<Rightarrow> rApprovedAt r = None \<and> rMandateId r = None \<and> iKind (rIntent r) = ''payout'' \<and> approvalsQuorum st (rApprovals q) | _ \<Rightarrow> False"
    and p: "sPolicy stW = Some (defaultPolicy [''bitcoin_signet'', ''ethereum_sepolia''] True)" by simp_all
  from f obtain r where r: "mapGet (sIntents stW) (idN 11) = Some r" by (cases "mapGet (sIntents stW) (idN 11)") simp_all
  with f obtain q where q: "mapGet (sIntents st) (idN 11) = Some q" by (cases "mapGet (sIntents st) (idN 11)") simp_all
  from f r q have g: "rApprovedAt r = None" "rMandateId r = None" "iKind (rIntent r) = ''payout''" "approvalsQuorum st (rApprovals q)" by simp_all
  from quorum_opens_window [OF st r g(1-3) p q g(4)] st q show ?thesis by (simp add: defaultPolicy_def)
qed

section \<open>A cancelled payment\<close>

definition higherPlan :: json where
  "higherPlan = btcPlan txA ''900''"

definition recordC :: intentRecord where
  "recordC = snd (mandated textM 11 cancelledSigs)"

lemma recordC_found: "intentOf (atState stC) (Some (JStr (idN 11))) = Inr recordC"
  "firstSigned recordC = Some (runStart + 12, btcSigned 11 ''first'' ''500'' txA 0)"
  "lastSigned recordC = Some (runStart + 13, btcSigned 11 ''cancel'' ''700'' txA 0)"
  "mapGet (sAccounts (gState (atState stC))) (the (iAccountId (rIntent recordC))) = Some (snd (runAccount ''0a'' ''bitcoin_signet'' 0))"
  by (code_simp, code_simp, code_simp, code_simp)

lemma recordC_draft: "\<exists>d. draftFor runLib (atState stC) recordC 0 (JStr ''bump'') (Some higherPlan)
    (defaultPolicy [''bitcoin_signet'', ''ethereum_sepolia''] True) (Some (btcSigned 11 ''first'' ''500'' txA 0))
    (Some (btcSigned 11 ''cancel'' ''700'' txA 0)) = Inr d"
proof -
  have "case draftFor runLib (atState stC) recordC 0 (JStr ''bump'') (Some higherPlan)
    (defaultPolicy [''bitcoin_signet'', ''ethereum_sepolia''] True) (Some (btcSigned 11 ''first'' ''500'' txA 0))
    (Some (btcSigned 11 ''cancel'' ''700'' txA 0)) of Inl _ \<Rightarrow> False | Inr d \<Rightarrow> True"
    by code_simp
  then show ?thesis by (auto split: sum.splits)
qed

lemma recordC_intent: "iKind (rIntent recordC) = ''payout''" "iAccountId (rIntent recordC) = Some (uuidN ''0a'')" "iAsset (rIntent recordC) = Some ''BTC''"
  "iAmount (rIntent recordC) = Some 20000" "\<not> rCancelled recordC" "\<not> rVetoed recordC"
  by (simp_all add: recordC_def mandated_def payout_def newRecord_def Let_def)

theorem list_mode_revives_cancelled_witness:
  "reachable runLib (runStart + 14) (atState stC) \<and>
   sign runLib (runEnv 20) (atState stC) (signArgs (idN 11) (JStr ''bump'') higherPlan) = failG ''cancelled'' \<and>
   (\<exists>g k. sign runLib (runEnv 20) (atState stC) (signArgs (idN 11) listMode higherPlan) = Inr (Commit (ESigned g) k))"
proof -
  have i: "\<exists>ini. requireInit (atState stC) = Inr (ini, defaultPolicy [''bitcoin_signet'', ''ethereum_sepolia''] True)"
    "requireNotFrozen (atState stC) = Inr ()"
    by (simp_all add: requireInit_def requireNotFrozen_def stC_def stM1_def stA4_def stA3_def stA2_def stA1_def emptyState_def Let_def)
  then obtain ini where ini: "requireInit (atState stC) = Inr (ini, defaultPolicy [''bitcoin_signet'', ''ethereum_sepolia''] True)" by blast
  from recordC_draft obtain d where d: "draftFor runLib (atState stC) recordC (aIndex (snd (runAccount ''0a'' ''bitcoin_signet'' 0))) (JStr ''bump'')
      (Some higherPlan) (defaultPolicy [''bitcoin_signet'', ''ethereum_sepolia''] True) (Some (btcSigned 11 ''first'' ''500'' txA 0))
      (Some (btcSigned 11 ''cancel'' ''700'' txA 0)) = Inr d"
    by (auto simp: runAccount_def)
  have u: "uuidN ''0a'' \<noteq> []" by (simp add: uuidN_def)
  have "sign runLib (runEnv 20) (atState stC) (signArgs (idN 11) (JStr ''bump'') higherPlan) = failG ''cancelled'' \<and>
      (\<exists>k. sign runLib (runEnv 20) (atState stC) (signArgs (idN 11) listMode higherPlan) =
        Inr (Commit (ESigned (signedOfDraft recordC listMode (snd (runAccount ''0a'' ''bitcoin_signet'' 0)) d)) k))"
    by (rule list_mode_revives_cancelled [OF ini i(2) recordC_found(1) recordC_intent(1) _ _ _ recordC_intent(5,6) recordC_found(4,2,3) _ d])
      (simp_all add: recordC_intent u btcSigned_def)
  with reachable_C show ?thesis by auto
qed

end
