(* ===== verification/Merkle_Trees.thy ===== *)
theory Merkle_Trees
  imports Hashing
begin

text \<open>
  \<open>lib/ledger/merkle.ts\<close> and \<open>lib/signatures/merkle.ts\<close>: the tree over the heads of the audit chains, built from
  the top and split at the largest power of two, and the tree of a collective signature, built
  from the bottom by pairing neighbours. Both trees have the same root, paths lead to it, and a
  path that leads to it from anything but a leaf contains a collision of the hash function.
\<close>

section \<open>The tree of the ledger\<close>

record ledgerLeaf =
  lfOrgId :: string
  lfSeq :: string
  lfCount :: int
  lfHead :: string

datatype side = LeftSide | RightSide

record pathStep =
  psSide :: side
  psHash :: string

definition leafText :: "ledgerLeaf \<Rightarrow> string" where
  "leafText l = ''klick-ledger/v1|'' @ lfOrgId l @ ''|'' @ lfSeq l @ ''|'' @ show_int (lfCount l) @ ''|'' @ lfHead l"

text \<open>A leaf hashes a zero byte and its text, a node a one and the bytes of its children.\<close>

definition leafOf :: "lib \<Rightarrow> bytes \<Rightarrow> string" where
  "leafOf L t = hexEncode (sha256 L (0 # t))"

definition leafHash :: "lib \<Rightarrow> ledgerLeaf \<Rightarrow> string" where
  "leafHash L l = leafOf L (utf8 (leafText l))"

definition nodeInput :: "string \<Rightarrow> string \<Rightarrow> bytes" where
  "nodeInput l r = 1 # hexDecode l @ hexDecode r"

definition node :: "lib \<Rightarrow> string \<Rightarrow> string \<Rightarrow> string" where
  "node L l r = hexEncode (sha256 L (nodeInput l r))"

text \<open>\<open>while (k * 2 < n) k *= 2\<close>, which the code starts with \<open>k = 1\<close>.\<close>

function splitFrom :: "nat \<Rightarrow> nat \<Rightarrow> nat" where
  "splitFrom k n = (if 0 < k \<and> k * 2 < n then splitFrom (k * 2) n else k)"
  by pat_completeness auto
termination by (relation "measure (\<lambda>(k, n). n - k)") auto

declare splitFrom.simps [simp del]

definition split :: "nat \<Rightarrow> nat" where
  "split n = splitFrom 1 n"

lemma splitFrom_pow: "k = 2 ^ j \<Longrightarrow> k < n \<Longrightarrow> \<exists>m. splitFrom k n = 2 ^ m \<and> splitFrom k n < n \<and> n \<le> 2 * splitFrom k n"
proof (induction k n arbitrary: j rule: splitFrom.induct)
  case (1 k n)
  show ?case
  proof (cases "k * 2 < n")
    case True
    have "splitFrom k n = splitFrom (k * 2) n" using True 1(2) by (subst splitFrom.simps) simp
    with True 1(1) [of "Suc j"] 1(2) show ?thesis by simp
  next
    case False
    then have "splitFrom k n = k" by (subst splitFrom.simps) simp
    with False 1(2,3) show ?thesis by auto
  qed
qed

lemma split_pow_bounds: "1 < n \<Longrightarrow> \<exists>m. split n = 2 ^ m \<and> 2 ^ m < n \<and> n \<le> 2 * 2 ^ m"
proof -
  assume "1 < n"
  then obtain m where "splitFrom 1 n = 2 ^ m \<and> splitFrom 1 n < n \<and> n \<le> 2 * splitFrom 1 n"
    using splitFrom_pow [of 1 0 n] by auto
  then show ?thesis unfolding split_def by metis
qed

lemma split_bounds: "1 < n \<Longrightarrow> 0 < split n \<and> split n < n \<and> n \<le> 2 * split n"
  using split_pow_bounds [of n] by auto

lemma split_pow: "1 < n \<Longrightarrow> \<exists>m. split n = 2 ^ m"
  using split_pow_bounds by blast

lemma split_less: "xs \<noteq> [] \<Longrightarrow> length xs \<noteq> Suc 0 \<Longrightarrow> split (length xs) < length xs \<and> 0 < split (length xs)"
  using split_bounds [of "length xs"] by (cases xs) auto

text \<open>The largest power of two below \<open>n\<close>.\<close>

lemma split_unique:
  assumes "2 ^ m < n" "n \<le> 2 * 2 ^ m"
  shows "split n = 2 ^ m"
proof -
  have n: "1 < n" using assms(1) by (metis le_less_trans one_le_numeral one_le_power)
  then obtain j where j: "split n = 2 ^ j" using split_pow by blast
  have "(2 :: nat) ^ j < 2 * 2 ^ m" "(2 :: nat) ^ m < 2 * 2 ^ j" using split_bounds [OF n] assms j by linarith+
  then have "(2 :: nat) ^ j < 2 ^ Suc m" "(2 :: nat) ^ m < 2 ^ Suc j" by simp_all
  then have "j < Suc m" "m < Suc j" by (meson numeral_less_iff one_less_numeral_iff power_less_imp_less_exp semiring_norm(76))+
  with j show ?thesis by simp
qed

function merkleRoot :: "lib \<Rightarrow> string list \<Rightarrow> string" where
  "merkleRoot L leaves =
     (if leaves = [] then hexEncode (sha256 L [])
      else if length leaves = 1 then leaves ! 0
      else (let k = split (length leaves) in node L (merkleRoot L (take k leaves)) (merkleRoot L (drop k leaves))))"
  by pat_completeness auto
termination
  by (relation "measure (\<lambda>(L, xs). length xs)") (auto simp: split_less min_less_iff_disj)

declare merkleRoot.simps [simp del]

lemma merkleRoot_Nil: "merkleRoot L [] = hexEncode (sha256 L [])"
  by (simp add: merkleRoot.simps)

lemma merkleRoot_one [simp]: "merkleRoot L [x] = x"
  by (simp add: merkleRoot.simps)

lemma merkleRoot_split:
  "1 < length xs \<Longrightarrow> merkleRoot L xs = node L (merkleRoot L (take (split (length xs)) xs)) (merkleRoot L (drop (split (length xs)) xs))"
  by (subst merkleRoot.simps) (auto simp: Let_def)

text \<open>Induction along the tree.\<close>

lemma tree_induct [case_names empty leaf node]:
  assumes "P []" "\<And>x. P [x]"
    "\<And>xs. 1 < length xs \<Longrightarrow> P (take (split (length xs)) xs) \<Longrightarrow> P (drop (split (length xs)) xs) \<Longrightarrow> P xs"
  shows "P xs"
proof (induction "length xs" arbitrary: xs rule: less_induct)
  case less
  show ?case
  proof (cases "1 < length xs")
    case True
    have a: "length (take (split (length xs)) xs) < length xs" and b: "length (drop (split (length xs)) xs) < length xs"
      using split_bounds [OF True] unfolding length_take length_drop by linarith+
    show ?thesis by (rule assms(3) [OF True less [OF a] less [OF b]])
  next
    case False
    then show ?thesis using assms(1,2) by (cases xs; cases "tl xs") auto
  qed
qed

function merklePath :: "lib \<Rightarrow> string list \<Rightarrow> int \<Rightarrow> pathStep list res" where
  "merklePath L leaves index =
     (if index < 0 \<or> int (length leaves) \<le> index then Inl (PlainError ''merkle_index'')
      else if length leaves = 1 then Inr []
      else (let k = split (length leaves) in
        if index < int k
        then andThen (merklePath L (take k leaves) index)
          (\<lambda>p. Inr (p @ [\<lparr>psSide = RightSide, psHash = merkleRoot L (drop k leaves)\<rparr>]))
        else andThen (merklePath L (drop k leaves) (index - int k))
          (\<lambda>p. Inr (p @ [\<lparr>psSide = LeftSide, psHash = merkleRoot L (take k leaves)\<rparr>]))))"
  by pat_completeness auto
termination
proof (relation "measure (\<lambda>(L, xs, i). length xs)", goal_cases)
  case (2 L leaves index k)
  then show ?case using split_less [of leaves] by (cases leaves) auto
next
  case (3 L leaves index k)
  then show ?case using split_less [of leaves] by (cases leaves) auto
qed simp

declare merklePath.simps [simp del]

text \<open>One step towards the root, in both files: the neighbour stands on its side.\<close>

definition stepInput :: "string \<Rightarrow> pathStep \<Rightarrow> bytes" where
  "stepInput acc s = (if psSide s = RightSide then nodeInput acc (psHash s) else nodeInput (psHash s) acc)"

definition climb :: "lib \<Rightarrow> string \<Rightarrow> pathStep \<Rightarrow> string" where
  "climb L acc s = (if psSide s = RightSide then node L acc (psHash s) else node L (psHash s) acc)"

definition rootFromPath :: "lib \<Rightarrow> string \<Rightarrow> pathStep list \<Rightarrow> string" where
  "rootFromPath L leaf path = foldl (climb L) leaf path"

text \<open>Leaves in the order of their organisations; ids are ASCII, where the order of the code is that of characters.\<close>

definition sortLeaves :: "ledgerLeaf list \<Rightarrow> ledgerLeaf list" where
  "sortLeaves leaves = sort_key lfOrgId leaves"

section \<open>The tree of a collective signature\<close>

definition merkleLeaf :: "lib \<Rightarrow> string \<Rightarrow> string \<Rightarrow> string" where
  "merkleLeaf L evidenceId sha = leafOf L (utf8 (evidenceId @ ''|'' @ sha))"

text \<open>The next level: neighbours are joined, the last of an odd number rises unchanged.\<close>

fun nextLevel :: "lib \<Rightarrow> string list \<Rightarrow> string list" where
  "nextLevel L [] = []"
| "nextLevel L [x] = [x]"
| "nextLevel L (x # y # r) = node L x y # nextLevel L r"

lemma length_nextLevel [simp]: "length (nextLevel L xs) = (length xs + 1) div 2"
  by (induction L xs rule: nextLevel.induct) auto

function levelsFrom :: "lib \<Rightarrow> string list \<Rightarrow> string list list" where
  "levelsFrom L cur = (if 1 < length cur then cur # levelsFrom L (nextLevel L cur) else [cur])"
  by pat_completeness auto
termination by (relation "measure (\<lambda>(L, xs). length xs)") auto

declare levelsFrom.simps [simp del]

definition levels :: "lib \<Rightarrow> string list \<Rightarrow> string list list res" where
  "levels L leaves =
     (if leaves = [] then Inl (PlainError (''merkle: keine Bl'' @ [CHR 0xE4] @ ''tter'')) else Inr (levelsFrom L leaves))"

text \<open>\<open>x[i] ?? ""\<close>\<close>

definition orEmpty :: "string list \<Rightarrow> int \<Rightarrow> string" where
  "orEmpty xs i = (if 0 \<le> i \<and> i < int (length xs) then xs ! nat i else [])"

definition sigMerkleRoot :: "lib \<Rightarrow> string list \<Rightarrow> string res" where
  "sigMerkleRoot L leaves = andThen (levels L leaves) (\<lambda>ls. Inr (orEmpty (last ls) 0))"

fun proofAlong :: "int \<Rightarrow> string list list \<Rightarrow> pathStep list" where
  "proofAlong i [] = []"
| "proofAlong i (level # r) =
     (let sibling = (if i mod 2 = 0 then i + 1 else i - 1) in
      (if sibling < int (length level)
       then [\<lparr>psSide = (if i mod 2 = 0 then RightSide else LeftSide), psHash = orEmpty level sibling\<rparr>] else [])
      @ proofAlong (i div 2) r)"

definition merkleProof :: "lib \<Rightarrow> string list \<Rightarrow> int \<Rightarrow> pathStep list res" where
  "merkleProof L leaves index = andThen (levels L leaves) (\<lambda>ls. Inr (proofAlong index (butlast ls)))"

definition verifyMerkleProof :: "lib \<Rightarrow> string \<Rightarrow> pathStep list \<Rightarrow> string \<Rightarrow> bool" where
  "verifyMerkleProof L leaf steps expected \<longleftrightarrow> foldl (climb L) leaf steps = expected"

section \<open>Paths lead to the root\<close>

lemma rootFromPath_snoc: "rootFromPath L h (p @ [s]) = climb L (rootFromPath L h p) s"
  by (simp add: rootFromPath_def)

lemma climb_step: "climb L h s = hexEncode (sha256 L (stepInput h s))"
  by (simp add: climb_def stepInput_def node_def)

lemma path_to_root:
  "i < length xs \<Longrightarrow> \<exists>p. merklePath L xs (int i) = Inr p \<and> rootFromPath L (xs ! i) p = merkleRoot L xs \<and> 2 ^ length p < 2 * length xs"
proof (induction xs arbitrary: i rule: tree_induct)
  case empty
  then show ?case by simp
next
  case (leaf x)
  then show ?case by (simp add: merklePath.simps rootFromPath_def)
next
  case (node xs)
  let ?k = "split (length xs)"
  note k = split_bounds [OF node(1)]
  have pow: "2 ^ Suc n < 2 * length xs" if "2 ^ n < 2 * m" "m \<le> ?k" for n m
  proof -
    obtain j where j: "?k = 2 ^ j" using split_pow [OF node(1)] by blast
    have "(2 :: nat) ^ n < 2 ^ Suc j" using that j by simp
    then have "n \<le> j" by (simp add: power_strict_increasing_iff del: power_Suc)
    then have "(2 :: nat) ^ n \<le> ?k" using j by simp
    then show ?thesis using k by simp
  qed
  show ?case
  proof (cases "i < ?k")
    case True
    with node(2) [of i] k node(4) obtain p where p: "merklePath L (take ?k xs) (int i) = Inr p" "rootFromPath L (xs ! i) p = merkleRoot L (take ?k xs)"
      "2 ^ length p < 2 * ?k" by auto
    with True k node(1,4) pow [OF p(3)] show ?thesis
      by (subst merklePath.simps) (simp add: Let_def rootFromPath_snoc climb_def merkleRoot_split [OF node(1)])
  next
    case False
    then have "i - ?k < length (drop ?k xs)" "drop ?k xs ! (i - ?k) = xs ! i" using k node(4) by simp_all
    with node(3) [of "i - ?k"] obtain p where p: "merklePath L (drop ?k xs) (int (i - ?k)) = Inr p"
      "rootFromPath L (xs ! i) p = merkleRoot L (drop ?k xs)" "2 ^ length p < 2 * (length xs - ?k)" by (metis length_drop)
    have "length xs - ?k \<le> ?k" using k by linarith
    with False k node(1,4) p(1,2) pow [OF p(3)] show ?thesis
      by (subst merklePath.simps) (simp add: Let_def rootFromPath_snoc climb_def merkleRoot_split [OF node(1)] of_nat_diff)
  qed
qed

section \<open>Both trees have the same root\<close>

lemma nextLevel_append: "even (length xs) \<Longrightarrow> nextLevel L (xs @ ys) = nextLevel L xs @ nextLevel L ys"
  by (induction L xs rule: nextLevel.induct) auto

lemma split_half:
  assumes "2 < n"
  shows "split n = 2 * split ((n + 1) div 2)"
proof -
  obtain m where m: "split n = 2 ^ m" using split_pow assms by fastforce
  have b: "2 ^ m < n" "n \<le> 2 * 2 ^ m" using split_bounds [of n] assms m by simp_all
  have "m \<noteq> 0" using b assms by (intro notI) simp
  then obtain j where j: "m = Suc j" by (cases m) auto
  have "split ((n + 1) div 2) = 2 ^ j" by (rule split_unique) (use b j in simp_all)
  with m j show ?thesis by simp
qed

lemma merkleRoot_nextLevel: "merkleRoot L (nextLevel L xs) = merkleRoot L xs"
proof (induction xs rule: tree_induct)
  case empty
  then show ?case by simp
next
  case (leaf x)
  then show ?case by simp
next
  case (node xs)
  show ?case
  proof (cases "length xs = 2")
    case True
    then obtain x y where "xs = [x, y]" by (auto simp: numeral_2_eq_2 length_Suc_conv)
    moreover have "split (Suc (Suc 0)) = 1" using split_unique [of 0 "Suc (Suc 0)"] by simp
    ultimately show ?thesis by (simp add: merkleRoot_split)
  next
    case False
    with node(1) have n: "2 < length xs" by simp
    let ?k = "split (length xs)" and ?h = "split ((length xs + 1) div 2)"
    have k: "?k = 2 * ?h" "?k < length xs" using split_half [OF n] split_bounds [OF node(1)] by simp_all
    have "nextLevel L xs = nextLevel L (take ?k xs) @ nextLevel L (drop ?k xs)"
      using nextLevel_append [of "take ?k xs" L "drop ?k xs"] k by simp
    moreover have "length (nextLevel L (take ?k xs)) = ?h" using k by simp
    ultimately have "take ?h (nextLevel L xs) = nextLevel L (take ?k xs)" "drop ?h (nextLevel L xs) = nextLevel L (drop ?k xs)" by simp_all
    moreover have "1 < length (nextLevel L xs)" using n by simp
    ultimately show ?thesis using node(2,3) merkleRoot_split [of "nextLevel L xs" L] merkleRoot_split [OF node(1), of L] by simp
  qed
qed

lemma levelsFrom_ne: "levelsFrom L xs \<noteq> []"
  by (subst levelsFrom.simps) simp

lemma last_levels: "xs \<noteq> [] \<Longrightarrow> last (levelsFrom L xs) = [merkleRoot L xs]"
proof (induction L xs rule: levelsFrom.induct)
  case (1 L xs)
  show ?case
  proof (cases "1 < length xs")
    case True
    then have "nextLevel L xs \<noteq> []" using length_nextLevel [of L xs] by (metis One_nat_def Suc_eq_plus1 div_eq_0_iff gr_implies_not0 less_2_cases_iff list.size(3) not_less_eq numeral_2_eq_2)
    with True 1 show ?thesis by (subst levelsFrom.simps) (simp add: levelsFrom_ne merkleRoot_nextLevel)
  next
    case False
    with 1(2) obtain x where "xs = [x]" by (cases xs) auto
    then show ?thesis by (subst levelsFrom.simps) simp
  qed
qed

section \<open>Proofs of a collective signature\<close>

lemma nextLevel_nth:
  "i < length xs \<Longrightarrow> nextLevel L xs ! (i div 2) =
    (if even i then if i + 1 < length xs then node L (xs ! i) (xs ! (i + 1)) else xs ! i else node L (xs ! (i - 1)) (xs ! i))"
proof (induction L xs arbitrary: i rule: nextLevel.induct)
  case (1 L)
  then show ?case by simp
next
  case (2 L x)
  then show ?case by simp
next
  case (3 L x y r)
  show ?case
  proof (cases "i < 2")
    case True
    then show ?thesis by (cases i) (auto simp: numeral_2_eq_2)
  next
    case False
    then obtain j where j: "i = Suc (Suc j)" by (metis add_2_eq_Suc le_Suc_ex not_less)
    have "odd j \<Longrightarrow> (x # y # r) ! (i - 1) = r ! (j - 1)" using j by (cases j) auto
    with 3(1) [of j] 3(2) j show ?thesis by auto
  qed
qed

lemma climb_level:
  assumes "i < length xs"
  shows "foldl (climb L) (xs ! i) (proofAlong (int i) (xs # r)) = foldl (climb L) (nextLevel L xs ! (i div 2)) (proofAlong (int (i div 2)) r)"
proof -
  have d: "int i div 2 = int (i div 2)" by simp
  have m: "int i mod 2 = 0 \<longleftrightarrow> even i" by (metis even_of_nat even_iff_mod_2_eq_zero)
  show ?thesis
  proof (cases "even i")
    case True
    then show ?thesis using assms nextLevel_nth [OF assms, of L] by (simp add: m d climb_def orEmpty_def nat_add_distrib)
  next
    case False
    then have "0 < i" by (cases i) auto
    with False show ?thesis using assms nextLevel_nth [OF assms, of L] by (simp add: m d climb_def orEmpty_def nat_diff_distrib)
  qed
qed

lemma proof_to_root:
  "i < length xs \<Longrightarrow> foldl (climb L) (xs ! i) (proofAlong (int i) (butlast (levelsFrom L xs))) = merkleRoot L xs"
proof (induction L xs arbitrary: i rule: levelsFrom.induct)
  case (1 L xs)
  show ?case
  proof (cases "1 < length xs")
    case True
    have h: "i div 2 < length (nextLevel L xs)" using 1(2) by simp
    have "butlast (levelsFrom L xs) = xs # butlast (levelsFrom L (nextLevel L xs))"
      using True by (subst levelsFrom.simps) (simp add: levelsFrom_ne)
    then show ?thesis using 1(1) [OF True h] climb_level [OF 1(2)] by (simp add: merkleRoot_nextLevel del: proofAlong.simps)
  next
    case False
    with 1(2) obtain x where "xs = [x]" by (cases xs) auto
    with 1(2) show ?thesis by (subst levelsFrom.simps) simp
  qed
qed

lemma sigMerkleRoot_root: "leaves \<noteq> [] \<Longrightarrow> sigMerkleRoot L leaves = Inr (merkleRoot L leaves)"
  by (simp add: sigMerkleRoot_def levels_def last_levels orEmpty_def)

section \<open>A path binds its leaf\<close>

text \<open>What is hashed along a path and inside a tree.\<close>

fun pathInputs :: "lib \<Rightarrow> string \<Rightarrow> pathStep list \<Rightarrow> bytes list" where
  "pathInputs L h [] = []"
| "pathInputs L h (s # p) = stepInput h s # pathInputs L (climb L h s) p"

function treeInputs :: "lib \<Rightarrow> string list \<Rightarrow> bytes list" where
  "treeInputs L xs =
     (if xs = [] then [[]]
      else if length xs = 1 then []
      else (let k = split (length xs) in nodeInput (merkleRoot L (take k xs)) (merkleRoot L (drop k xs)) #
        treeInputs L (take k xs) @ treeInputs L (drop k xs)))"
  by pat_completeness auto
termination
  by (relation "measure (\<lambda>(L, xs). length xs)") (auto simp: split_less min_less_iff_disj)

declare treeInputs.simps [simp del]

lemma treeInputs_Nil: "treeInputs L [] = [[]]"
  by (simp add: treeInputs.simps)

lemma treeInputs_split:
  "1 < length xs \<Longrightarrow> treeInputs L xs = nodeInput (merkleRoot L (take (split (length xs)) xs)) (merkleRoot L (drop (split (length xs)) xs)) #
     treeInputs L (take (split (length xs)) xs) @ treeInputs L (drop (split (length xs)) xs)"
  by (subst treeInputs.simps) (auto simp: Let_def)

lemma pathInputs_snoc: "pathInputs L h (p @ [s]) = pathInputs L h p @ [stepInput (rootFromPath L h p) s]"
  by (induction p arbitrary: h) (simp_all add: rootFromPath_def)

text \<open>A digest in hexadecimal.\<close>

definition digest :: "lib \<Rightarrow> string \<Rightarrow> bool" where
  "digest L h \<longleftrightarrow> (\<exists>b. h = hexEncode (sha256 L b))"

lemma digest_root: "(\<And>x. x \<in> set xs \<Longrightarrow> digest L x) \<Longrightarrow> digest L (merkleRoot L xs)"
  by (cases "1 < length xs"; cases xs) (auto simp: merkleRoot_split node_def digest_def merkleRoot_Nil)

lemma digest_path: "digest L h \<Longrightarrow> digest L (rootFromPath L h p)"
  by (cases p rule: rev_cases) (auto simp: rootFromPath_snoc climb_step digest_def rootFromPath_def)

lemma digest_bytes: "shaLib L \<Longrightarrow> digest L h \<Longrightarrow> length (hexDecode h) = 32 \<and> hexEncode (hexDecode h) = h"
  by (auto simp: digest_def shaLib_def)

lemma digest_eq: "shaLib L \<Longrightarrow> digest L a \<Longrightarrow> digest L l \<Longrightarrow> hexDecode a = hexDecode l \<Longrightarrow> a = l"
  by (metis digest_bytes)

lemma nodeInput_left:
  assumes "shaLib L" "digest L a" "digest L l" "nodeInput a x = nodeInput l r"
  shows "a = l"
proof -
  have "hexDecode a @ hexDecode x = hexDecode l @ hexDecode r" using assms(4) unfolding nodeInput_def by blast
  moreover have "length (hexDecode a) = length (hexDecode l)" using digest_bytes [OF assms(1)] assms(2,3) by simp
  ultimately have "hexDecode a = hexDecode l" using append_eq_append_conv by blast
  then show ?thesis by (rule digest_eq [OF assms(1-3)])
qed

lemma nodeInput_right:
  assumes "shaLib L" "digest L a" "digest L r" "nodeInput x a = nodeInput l r"
  shows "a = r"
proof -
  have "hexDecode x @ hexDecode a = hexDecode l @ hexDecode r" using assms(4) unfolding nodeInput_def by blast
  moreover have "length (hexDecode a) = length (hexDecode r)" using digest_bytes [OF assms(1)] assms(2,3) by simp
  ultimately have "hexDecode a = hexDecode r" using append_eq_append_conv by blast
  then show ?thesis by (rule digest_eq [OF assms(1-3)])
qed

lemma path_binds:
  assumes "shaLib L"
  shows "rootFromPath L (leafOf L t) p = merkleRoot L (map (leafOf L) ts) \<Longrightarrow>
    t \<in> set ts \<or> clash L ((0 # t) # pathInputs L (leafOf L t) p) (map ((#) 0) ts @ treeInputs L (map (leafOf L) ts))"
proof (induction p arbitrary: ts rule: rev_induct)
  case Nil
  then have eq: "leafOf L t = merkleRoot L (map (leafOf L) ts)" by (simp add: rootFromPath_def)
  consider "ts = []" | u where "ts = [u]" | "1 < length ts" by (cases ts; cases "tl ts") auto
  then show ?case
  proof cases
    case 1
    with eq show ?thesis by (auto simp: leafOf_def merkleRoot_Nil treeInputs_Nil clash_def dest: hexEncode_inj)
  next
    case 2
    with eq show ?thesis by (auto simp: leafOf_def clash_def dest: hexEncode_inj)
  next
    case 3
    let ?k = "split (length ts)"
    let ?n = "nodeInput (merkleRoot L (take ?k (map (leafOf L) ts))) (merkleRoot L (drop ?k (map (leafOf L) ts)))"
    have "hexEncode (sha256 L (0 # t)) = hexEncode (sha256 L ?n)" using eq 3 by (simp add: merkleRoot_split leafOf_def node_def)
    then have "sha256 L (0 # t) = sha256 L ?n" by (rule hexEncode_inj)
    moreover have "?n \<in> set (treeInputs L (map (leafOf L) ts))" using 3 by (simp add: treeInputs_split)
    moreover have "0 # t \<noteq> ?n" by (simp add: nodeInput_def)
    ultimately show ?thesis by (intro disjI2 clashI [of "0 # t" _ ?n]) simp_all
  qed
next
  case (snoc s p)
  let ?h = "rootFromPath L (leafOf L t) p" and ?xs = "map (leafOf L) ts"
  from snoc(2) have eq: "hexEncode (sha256 L (stepInput ?h s)) = merkleRoot L ?xs" by (simp add: rootFromPath_snoc climb_step)
  have one: "\<exists>b. stepInput ?h s = 1 # b" by (simp add: stepInput_def nodeInput_def)
  consider "ts = []" | u where "ts = [u]" | "1 < length ts" by (cases ts; cases "tl ts") auto
  then show ?case
  proof cases
    case 1
    with eq one show ?thesis
      by (intro disjI2 clashI [of "stepInput ?h s" _ "[]"]) (auto simp: pathInputs_snoc merkleRoot_Nil treeInputs_Nil dest: hexEncode_inj)
  next
    case 2
    with eq one show ?thesis
      by (intro disjI2 clashI [of "stepInput ?h s" _ "0 # u"]) (auto simp: pathInputs_snoc leafOf_def dest: hexEncode_inj)
  next
    case 3
    let ?k = "split (length ts)"
    let ?l = "merkleRoot L (map (leafOf L) (take ?k ts))" and ?r = "merkleRoot L (map (leafOf L) (drop ?k ts))"
    have root: "merkleRoot L ?xs = hexEncode (sha256 L (nodeInput ?l ?r))" and
      ins: "treeInputs L ?xs = nodeInput ?l ?r # treeInputs L (map (leafOf L) (take ?k ts)) @ treeInputs L (map (leafOf L) (drop ?k ts))"
      using 3 by (simp_all add: merkleRoot_split treeInputs_split node_def take_map drop_map)
    have dig: "digest L ?h" "digest L ?l" "digest L ?r"
      by (rule digest_path, auto simp: digest_def leafOf_def intro!: digest_root [unfolded digest_def])
    show ?thesis
    proof (cases "stepInput ?h s = nodeInput ?l ?r")
      case False
      have "sha256 L (stepInput ?h s) = sha256 L (nodeInput ?l ?r)" using eq root by (metis hexEncode_inj)
      with False ins show ?thesis by (intro disjI2 clashI [of "stepInput ?h s" _ "nodeInput ?l ?r"]) (simp_all add: pathInputs_snoc)
    next
      case True
      then have "?h = ?l \<or> ?h = ?r"
        using nodeInput_left [OF assms dig(1,2)] nodeInput_right [OF assms dig(1,3)] by (cases "psSide s = RightSide") (auto simp: stepInput_def)
      then have "\<exists>us\<in>{take ?k ts, drop ?k ts}. ?h = merkleRoot L (map (leafOf L) us)" by blast
      then obtain us where u: "us \<in> {take ?k ts, drop ?k ts}" and us: "?h = merkleRoot L (map (leafOf L) us)" by blast
      have sub: "set us \<subseteq> set ts" using u set_take_subset [of ?k ts] set_drop_subset [of ?k ts] by blast
      have ti: "set (treeInputs L (map (leafOf L) us)) \<subseteq> set (treeInputs L ?xs)" using u unfolding ins by auto
      have "clash L ((0 # t) # pathInputs L (leafOf L t) (p @ [s])) (map ((#) 0) ts @ treeInputs L ?xs)"
        if "clash L ((0 # t) # pathInputs L (leafOf L t) p) (map ((#) 0) us @ treeInputs L (map (leafOf L) us))"
        by (rule clash_mono [OF that]) (use sub ti in \<open>auto simp: pathInputs_snoc\<close>)
      with snoc(1) [OF us] sub show ?thesis by blast
    qed
  qed
qed

section \<open>The texts of the leaves\<close>

definition plainLeaf :: "ledgerLeaf \<Rightarrow> bool" where
  "plainLeaf l \<longleftrightarrow> CHR ''|'' \<notin> set (lfOrgId l) \<and> CHR ''|'' \<notin> set (lfSeq l) \<and> 0 \<le> lfCount l"

lemma show_int_no_bar: "CHR ''|'' \<notin> set (show_int n)"
proof -
  have "CHR ''|'' \<notin> set (show_nat m)" for m
    by (rule digits_no_char) (use show_nat_digits in \<open>auto simp: is_digit_def cval_def\<close>)
  then show ?thesis by (simp add: show_int_def)
qed

lemma leafText_inj:
  assumes "plainLeaf l" "plainLeaf m" "leafText l = leafText m"
  shows "l = m"
proof -
  have parts: "split_on (CHR ''|'') (drop 16 (leafText x)) = [lfOrgId x, lfSeq x, show_int (lfCount x)] @ split_on (CHR ''|'') (lfHead x)"
    if "plainLeaf x" for x
  proof -
    have "drop 16 (leafText x) = lfOrgId x @ CHR ''|'' # lfSeq x @ CHR ''|'' # show_int (lfCount x) @ CHR ''|'' # lfHead x"
      by (simp add: leafText_def)
    then show ?thesis using that by (simp add: plainLeaf_def split_on_append_sep show_int_no_bar)
  qed
  from parts [OF assms(1)] parts [OF assms(2)] assms(3)
  have eq: "lfOrgId l = lfOrgId m" "lfSeq l = lfSeq m" "show_int (lfCount l) = show_int (lfCount m)"
    "split_on (CHR ''|'') (lfHead l) = split_on (CHR ''|'') (lfHead m)" by simp_all
  then have "lfHead l = lfHead m" by (metis join_split_on)
  moreover have "lfCount l = lfCount m" using assms(1,2) eq(3) by (intro show_int_inj) (simp_all add: plainLeaf_def)
  ultimately show ?thesis using eq(1,2) by simp
qed

lemma merkleLeaf_text_inj:
  "CHR ''|'' \<notin> set e \<Longrightarrow> CHR ''|'' \<notin> set f \<Longrightarrow> e @ ''|'' @ s = f @ ''|'' @ t \<Longrightarrow> e = f \<and> s = t"
  using split_on_append_sep [of "CHR ''|''" e s] split_on_append_sep [of "CHR ''|''" f t] by (metis append_Cons append_Nil list.inject join_split_on)

section \<open>The properties\<close>

text \<open>What a leaf hashes.\<close>

definition leafInput :: "ledgerLeaf \<Rightarrow> bytes" where
  "leafInput l = 0 # utf8 (leafText l)"

definition evidenceInput :: "string \<times> string \<Rightarrow> bytes" where
  "evidenceInput x = 0 # utf8 (fst x @ ''|'' @ snd x)"

text \<open>The root does not depend on the order in which the organisations are listed.\<close>

lemma ledger_root_is_reproducible:
  "mset xs = mset ys \<Longrightarrow> distinct (map lfOrgId xs) \<Longrightarrow>
     merkleRoot L (map (leafHash L) (sortLeaves xs)) = merkleRoot L (map (leafHash L) (sortLeaves ys))"
  by (simp add: sortLeaves_def sort_key_mset [of xs ys lfOrgId])

text \<open>
  Every leaf of the ledger has a path, the path leads to the root, and it is at most as long as the
  binary logarithm of the number of leaves, rounded up.
\<close>

theorem ledger_path_leads_to_root:
  assumes "i < length leaves"
  shows "\<exists>p. merklePath L leaves (int i) = Inr p \<and> rootFromPath L (leaves ! i) p = merkleRoot L leaves \<and> 2 ^ length p < 2 * length leaves"
  by (rule path_to_root [OF assms])

theorem ledger_path_leads_to_root_witness:
  "\<exists>p. merklePath demoLib [''aa'', ''bb'', ''cc''] 2 = Inr p \<and> rootFromPath demoLib ''cc'' p = merkleRoot demoLib [''aa'', ''bb'', ''cc''] \<and> 2 ^ length p < (6 :: nat)"
  using ledger_path_leads_to_root [of 2 "[''aa'', ''bb'', ''cc'']" demoLib] by simp

text \<open>
  C26. Whoever shows a path from a leaf to the root of the ledger shows a leaf of the ledger, or two different
  texts with the same hash: one hashed along the path, the other one when the tree was built. In
  particular no inner node passes for a leaf.
\<close>

theorem ledger_path_binds:
  assumes "shaLib L" "rootFromPath L (leafHash L l) p = merkleRoot L (map (leafHash L) ls)" "list_all plainLeaf (l # ls)"
  shows "l \<in> set ls \<or>
    clash L (leafInput l # pathInputs L (leafHash L l) p) (map leafInput ls @ treeInputs L (map (leafHash L) ls))"
proof -
  have m: "map (leafHash L) ls = map (leafOf L) (map (utf8 \<circ> leafText) ls)"
    and n: "map leafInput ls = map ((#) 0) (map (utf8 \<circ> leafText) ls)" by (simp_all add: leafHash_def leafInput_def)
  have "utf8 (leafText l) \<in> set (map (utf8 \<circ> leafText) ls) \<Longrightarrow> l \<in> set ls"
    using assms(3) by (auto simp: list_all_iff dest!: utf8_inj dest: leafText_inj)
  moreover have "utf8 (leafText l) \<in> set (map (utf8 \<circ> leafText) ls) \<or>
    clash L (leafInput l # pathInputs L (leafHash L l) p) (map leafInput ls @ treeInputs L (map (leafHash L) ls))"
    unfolding m n leafInput_def leafHash_def by (rule path_binds [OF assms(1)]) (use assms(2) in \<open>simp only: m leafHash_def\<close>)
  ultimately show ?thesis by blast
qed

definition demoLeaf :: "string \<Rightarrow> ledgerLeaf" where
  "demoLeaf n = \<lparr>lfOrgId = n, lfSeq = ''7'', lfCount = 3, lfHead = ''00''\<rparr>"

theorem ledger_path_binds_witness:
  "\<exists>p. merklePath demoLib (map (leafHash demoLib) [demoLeaf ''a'', demoLeaf ''b'', demoLeaf ''c'']) 1 = Inr p \<and>
     (demoLeaf ''b'' \<in> set [demoLeaf ''a'', demoLeaf ''b'', demoLeaf ''c''] \<or>
      clash demoLib (leafInput (demoLeaf ''b'') # pathInputs demoLib (leafHash demoLib (demoLeaf ''b'')) p)
        (map leafInput [demoLeaf ''a'', demoLeaf ''b'', demoLeaf ''c''] @
         treeInputs demoLib (map (leafHash demoLib) [demoLeaf ''a'', demoLeaf ''b'', demoLeaf ''c''])))"
proof -
  let ?ls = "[demoLeaf ''a'', demoLeaf ''b'', demoLeaf ''c'']"
  obtain p where p: "merklePath demoLib (map (leafHash demoLib) ?ls) 1 = Inr p"
    "rootFromPath demoLib (leafHash demoLib (demoLeaf ''b'')) p = merkleRoot demoLib (map (leafHash demoLib) ?ls)"
    using path_to_root [of 1 "map (leafHash demoLib) ?ls" demoLib] by auto
  have "list_all plainLeaf (demoLeaf ''b'' # ?ls)" by (simp add: plainLeaf_def demoLeaf_def)
  from ledger_path_binds [OF demoLib_sha p(2) this] p(1) show ?thesis by blast
qed

text \<open>
  C27. The tree of a collective signature, built level by level, has the root of the tree of the ledger over the
  same leaves, and the proof made for a leaf verifies against it.
\<close>

theorem signature_tree_verifies:
  assumes "i < length leaves"
  shows "sigMerkleRoot L leaves = Inr (merkleRoot L leaves) \<and>
    (\<exists>p. merkleProof L leaves (int i) = Inr p \<and> verifyMerkleProof L (leaves ! i) p (merkleRoot L leaves))"
proof -
  from assms have ne: "leaves \<noteq> []" by auto
  then show ?thesis using sigMerkleRoot_root [OF ne] proof_to_root [OF assms] by (simp add: merkleProof_def levels_def verifyMerkleProof_def)
qed

theorem signature_tree_verifies_witness:
  "\<exists>p. merkleProof demoLib [''aa'', ''bb'', ''cc''] 2 = Inr p \<and> verifyMerkleProof demoLib ''cc'' p (merkleRoot demoLib [''aa'', ''bb'', ''cc''])"
  using signature_tree_verifies [of 2 "[''aa'', ''bb'', ''cc'']" demoLib] by simp

text \<open>
  C28. A proof that verifies against the root of a collective signature belongs to a signed piece of evidence with
  its checksum, or contains a collision.
\<close>

theorem signature_proof_binds:
  assumes "shaLib L" "sigMerkleRoot L (map (\<lambda>(e, s). merkleLeaf L e s) es) = Inr r" "verifyMerkleProof L (merkleLeaf L e s) p r"
    "list_all (\<lambda>(e, s). CHR ''|'' \<notin> set e) ((e, s) # es)"
  shows "(e, s) \<in> set es \<or>
    clash L (evidenceInput (e, s) # pathInputs L (merkleLeaf L e s) p)
      (map evidenceInput es @ treeInputs L (map (\<lambda>(e, s). merkleLeaf L e s) es))"
proof -
  let ?t = "\<lambda>x. utf8 (fst x @ ''|'' @ snd x)"
  have m: "map (\<lambda>(e, s). merkleLeaf L e s) es = map (leafOf L) (map ?t es)" by (auto simp: merkleLeaf_def)
  have n: "map evidenceInput es = map ((#) 0) (map ?t es)" by (simp add: evidenceInput_def)
  from assms(2) have "es \<noteq> []" by (auto simp: sigMerkleRoot_def levels_def)
  then have "r = merkleRoot L (map (leafOf L) (map ?t es))" using assms(2) sigMerkleRoot_root [of "map (leafOf L) (map ?t es)" L] unfolding m by simp
  then have "rootFromPath L (leafOf L (?t (e, s))) p = merkleRoot L (map (leafOf L) (map ?t es))"
    using assms(3) by (simp add: verifyMerkleProof_def rootFromPath_def merkleLeaf_def)
  from path_binds [OF assms(1) this]
  have "?t (e, s) \<in> set (map ?t es) \<or> clash L (evidenceInput (e, s) # pathInputs L (merkleLeaf L e s) p)
      (map evidenceInput es @ treeInputs L (map (\<lambda>(e, s). merkleLeaf L e s) es))"
    unfolding m n by (simp only: evidenceInput_def merkleLeaf_def fst_conv snd_conv)
  moreover have "(e, s) \<in> set es" if "?t (e, s) \<in> set (map ?t es)"
  proof -
    from that obtain x where x: "x \<in> set es" "fst x @ ''|'' @ snd x = e @ ''|'' @ s" by (auto dest!: utf8_inj)
    with assms(4) have "fst x = e \<and> snd x = s" by (intro merkleLeaf_text_inj) (auto simp: list_all_iff)
    with x(1) show ?thesis by auto
  qed
  ultimately show ?thesis by blast
qed

theorem signature_proof_binds_witness:
  "\<exists>p r. sigMerkleRoot demoLib (map (\<lambda>(e, s). merkleLeaf demoLib e s) [(''a'', ''00''), (''b'', ''01'')]) = Inr r \<and>
     verifyMerkleProof demoLib (merkleLeaf demoLib ''b'' ''01'') p r \<and>
     ((''b'', ''01'') \<in> set [(''a'', ''00''), (''b'', ''01'')] \<or>
      clash demoLib (evidenceInput (''b'', ''01'') # pathInputs demoLib (merkleLeaf demoLib ''b'' ''01'') p)
        (map evidenceInput [(''a'', ''00''), (''b'', ''01'')] @
         treeInputs demoLib (map (\<lambda>(e, s). merkleLeaf demoLib e s) [(''a'', ''00''), (''b'', ''01'')])))"
proof -
  let ?es = "[(''a'', ''00''), (''b'', ''01'')]" and ?l = "\<lambda>(e, s). merkleLeaf demoLib e s"
  obtain p where p: "verifyMerkleProof demoLib (merkleLeaf demoLib ''b'' ''01'') p (merkleRoot demoLib (map ?l ?es))"
    using proof_to_root [of 1 "map ?l ?es" demoLib] by (auto simp: verifyMerkleProof_def)
  have r: "sigMerkleRoot demoLib (map ?l ?es) = Inr (merkleRoot demoLib (map ?l ?es))" by (rule sigMerkleRoot_root) simp
  have "list_all (\<lambda>(e, s). CHR ''|'' \<notin> set e) ((''b'', ''01'') # ?es)" by simp
  from signature_proof_binds [OF demoLib_sha r p this] r p show ?thesis by blast
qed

end
