(* ===== verification/Audit_Chain.thy ===== *)
theory Audit_Chain
  imports Hashing
begin

text \<open>
  \<open>lib/audit-hash.ts\<close>: the hash chain of the audit log. A row is hashed with the hash before it over its
  canonical JSON; a chain is checked as a whole or in blocks. A value of \<open>before\<close> and \<open>after\<close> is what the
  runtime holds: \<open>undefined\<close>, dates and big integers besides JSON. A number is represented by the
  text that \<open>JSON.stringify\<close> prints for it, a date by its ISO text.
  The text of a row is read in one way only (\<open>stringify_split\<close>), so equal hashed texts are equal fields.
\<close>

section \<open>Canonical JSON\<close>

datatype jsv =
    VUndef
  | VNull
  | VBool bool
  | VNum string
  | VBig int
  | VStr string
  | VDate string
  | VArr "jsv list"
  | VObj "(string \<times> jsv) list"

text \<open>What \<open>normalize\<close> returns; the fields of an object stand in the order of \<open>Object.keys\<close>.\<close>

datatype jnf =
    NNull
  | NBool bool
  | NNum string
  | NStr string
  | NArr "jnf list"
  | NObj "(string \<times> jnf) list"

text \<open>
  \<open>normalize\<close>. The fields are sorted by key and set on a fresh object; \<open>undefined\<close> is left out, and
  setting \<open>__proto__\<close> makes no field. As keys are kept, sorting after the recursion is the same.
\<close>

fun normalize :: "jsv \<Rightarrow> jnf"
  and normList :: "jsv list \<Rightarrow> jnf list"
  and normFields :: "(string \<times> jsv) list \<Rightarrow> (string \<times> jnf) list" where
  "normalize VUndef = NNull"
| "normalize VNull = NNull"
| "normalize (VBool b) = NBool b"
| "normalize (VNum t) = NNum t"
| "normalize (VBig n) = NStr (show_int n)"
| "normalize (VStr s) = NStr s"
| "normalize (VDate t) = NStr t"
| "normalize (VArr xs) = NArr (normList xs)"
| "normalize (VObj kvs) = NObj (objectEntries (sort_key fst (normFields kvs)))"
| "normList [] = []"
| "normList (x # xs) = normalize x # normList xs"
| "normFields [] = []"
| "normFields ((k, v) # kvs) =
     (if v = VUndef \<or> k = ''__proto__'' then normFields kvs else (k, normalize v) # normFields kvs)"

text \<open>\<open>JSON.stringify\<close>\<close>

fun stringify :: "jnf \<Rightarrow> string"
  and stringList :: "jnf list \<Rightarrow> string list"
  and stringFields :: "(string \<times> jnf) list \<Rightarrow> string list" where
  "stringify NNull = ''null''"
| "stringify (NBool b) = (if b then ''true'' else ''false'')"
| "stringify (NNum t) = t"
| "stringify (NStr s) = jsonString s"
| "stringify (NArr xs) = CHR ''['' # join (CHR '','') (stringList xs) @ [CHR '']'']"
| "stringify (NObj kvs) = CHR ''{'' # join (CHR '','') (stringFields kvs) @ [CHR ''}'']"
| "stringList [] = []"
| "stringList (x # xs) = stringify x # stringList xs"
| "stringFields [] = []"
| "stringFields ((k, v) # kvs) = (jsonString k @ CHR '':'' # stringify v) # stringFields kvs"

definition auditJson :: "jsv \<Rightarrow> string" where
  "auditJson v = stringify (normalize v)"

section \<open>The chain\<close>

definition auditGenesis :: string where
  "auditGenesis = ''GENESIS''"

definition chainKey :: "string option \<Rightarrow> string" where
  "chainKey org = (case org of None \<Rightarrow> ''platform'' | Some o1 \<Rightarrow> o1)"

text \<open>The time is a date or its text; both are written as the text.\<close>

record auditRow =
  auId :: string
  auOrg :: "string option"
  auActor :: "string option"
  auAction :: string
  auTarget :: "string option"
  auBefore :: jsv
  auAfter :: jsv
  auIp :: "string option"
  auUserAgent :: "string option"
  auOutcome :: string
  auAt :: string

record hashedRow =
  hrRow :: auditRow
  hrSeq :: string
  hrPrev :: "string option"
  hrHash :: string

definition optV :: "string option \<Rightarrow> jsv" where
  "optV v = (case v of None \<Rightarrow> VNull | Some s \<Rightarrow> VStr s)"

definition auditBody :: "auditRow \<Rightarrow> string" where
  "auditBody r = auditJson (VObj
     [(''id'', VStr (auId r)), (''organizationId'', optV (auOrg r)), (''actorUserId'', optV (auActor r)), (''action'', VStr (auAction r)),
      (''target'', optV (auTarget r)), (''before'', auBefore r), (''after'', auAfter r), (''ip'', optV (auIp r)),
      (''userAgent'', optV (auUserAgent r)), (''outcome'', VStr (auOutcome r)), (''at'', VStr (auAt r))])"

definition auditInput :: "string option \<Rightarrow> auditRow \<Rightarrow> string" where
  "auditInput prv r = (case prv of None \<Rightarrow> auditGenesis | Some h \<Rightarrow> h) @ CHR 0x0A # auditBody r"

definition computeAuditHash :: "lib \<Rightarrow> string option \<Rightarrow> auditRow \<Rightarrow> string" where
  "computeAuditHash L prv r = hexEncode (sha256 L (utf8 (auditInput prv r)))"

datatype chainVerdict = ChainOk int | ChainBroken int string string

fun continueChain :: "lib \<Rightarrow> hashedRow list \<Rightarrow> string option \<Rightarrow> int \<Rightarrow> chainVerdict \<times> string option" where
  "continueChain L [] expected checked = (ChainOk checked, expected)"
| "continueChain L (row # rows) expected checked =
     (if hrPrev row \<noteq> expected then (ChainBroken checked (hrSeq row) ''prev_mismatch'', expected)
      else if computeAuditHash L (hrPrev row) (hrRow row) \<noteq> hrHash row
      then (ChainBroken checked (hrSeq row) ''hash_mismatch'', expected)
      else continueChain L rows (Some (hrHash row)) (checked + 1))"

definition verifyChain :: "lib \<Rightarrow> hashedRow list \<Rightarrow> chainVerdict" where
  "verifyChain L rows = fst (continueChain L rows None 0)"

section \<open>Facts about chains\<close>

text \<open>The link of a row to the one before it, and its own hash.\<close>

definition linked :: "lib \<Rightarrow> string option \<Rightarrow> hashedRow \<Rightarrow> bool" where
  "linked L expected row \<longleftrightarrow> hrPrev row = expected \<and> computeAuditHash L (hrPrev row) (hrRow row) = hrHash row"

fun chained :: "lib \<Rightarrow> string option \<Rightarrow> hashedRow list \<Rightarrow> bool" where
  "chained L p [] \<longleftrightarrow> True"
| "chained L p (r # rs) \<longleftrightarrow> linked L p r \<and> chained L (Some (hrHash r)) rs"

definition lastHash :: "string option \<Rightarrow> hashedRow list \<Rightarrow> string option" where
  "lastHash p rs = (if rs = [] then p else Some (hrHash (last rs)))"

lemma continueChain_append:
  "continueChain L (xs @ ys) p n =
     (case continueChain L xs p n of (ChainOk m, q) \<Rightarrow> continueChain L ys q m | broken \<Rightarrow> broken)"
  by (induction xs arbitrary: p n) auto

lemma continueChain_ok:
  "continueChain L rs p n = (ChainOk m, q) \<longleftrightarrow> chained L p rs \<and> m = n + int (length rs) \<and> q = lastHash p rs"
  by (induction rs arbitrary: p n) (auto simp: linked_def lastHash_def)

lemma continueChain_broken:
  "continueChain L rs p n = (ChainBroken m s e, q) \<longleftrightarrow>
     (\<exists>xs r ys. rs = xs @ r # ys \<and> chained L p xs \<and> m = n + int (length xs) \<and> q = lastHash p xs \<and> s = hrSeq r \<and> \<not> linked L q r \<and>
       e = (if hrPrev r \<noteq> q then ''prev_mismatch'' else ''hash_mismatch''))"
  (is "_ \<longleftrightarrow> ?P rs p n")
proof (induction rs arbitrary: p n)
  case Nil
  then show ?case by simp
next
  case (Cons r rs)
  show ?case
  proof (cases "linked L p r")
    case True
    then have "continueChain L (r # rs) p n = continueChain L rs (Some (hrHash r)) (n + 1)" by (auto simp: linked_def)
    moreover have "?P (r # rs) p n \<longleftrightarrow> ?P rs (Some (hrHash r)) (n + 1)"
    proof
      assume "?P (r # rs) p n"
      then obtain xs b ys where b: "r # rs = xs @ b # ys" "chained L p xs" "m = n + int (length xs)" "q = lastHash p xs" "s = hrSeq b"
        "\<not> linked L q b" "e = (if hrPrev b \<noteq> q then ''prev_mismatch'' else ''hash_mismatch'')" by blast
      then have "xs \<noteq> []" using True by (auto simp: lastHash_def)
      then obtain us where "xs = r # us" using b(1) by (cases xs) auto
      with b show "?P rs (Some (hrHash r)) (n + 1)" by (intro exI [of _ us] exI [of _ b] exI [of _ ys]) (auto simp: lastHash_def)
    next
      assume "?P rs (Some (hrHash r)) (n + 1)"
      then obtain xs b ys where b: "rs = xs @ b # ys" "chained L (Some (hrHash r)) xs" "m = n + 1 + int (length xs)" "q = lastHash (Some (hrHash r)) xs"
        "s = hrSeq b" "\<not> linked L q b" "e = (if hrPrev b \<noteq> q then ''prev_mismatch'' else ''hash_mismatch'')" by blast
      with True show "?P (r # rs) p n" by (intro exI [of _ "r # xs"] exI [of _ b] exI [of _ ys]) (auto simp: lastHash_def)
    qed
    ultimately show ?thesis using Cons.IH by simp
  next
    case False
    show ?thesis
    proof
      assume "continueChain L (r # rs) p n = (ChainBroken m s e, q)"
      with False show "?P (r # rs) p n" by (intro exI [of _ "[]"] exI [of _ r] exI [of _ rs]) (auto simp: linked_def lastHash_def split: if_splits)
    next
      assume "?P (r # rs) p n"
      then obtain xs b ys where b: "r # rs = xs @ b # ys" "chained L p xs" "m = n + int (length xs)" "q = lastHash p xs" "s = hrSeq b"
        "\<not> linked L q b" "e = (if hrPrev b \<noteq> q then ''prev_mismatch'' else ''hash_mismatch'')" by blast
      then have "xs = []" using False by (cases xs) auto
      with b False show "continueChain L (r # rs) p n = (ChainBroken m s e, q)" by (auto simp: linked_def lastHash_def)
    qed
  qed
qed

text \<open>The texts that a chain hashes.\<close>

fun auditInputs :: "string option \<Rightarrow> hashedRow list \<Rightarrow> bytes list" where
  "auditInputs p [] = []"
| "auditInputs p (r # rs) = utf8 (auditInput p (hrRow r)) # auditInputs (Some (hrHash r)) rs"

lemma auditInputs_snoc: "auditInputs p (rs @ [r]) = auditInputs p rs @ [utf8 (auditInput (lastHash p rs) (hrRow r))]"
  by (induction rs arbitrary: p) (auto simp: lastHash_def)

lemma chained_snoc: "chained L p (rs @ [r]) \<longleftrightarrow> chained L p rs \<and> linked L (lastHash p rs) r"
  by (induction rs arbitrary: p) (auto simp: lastHash_def)

lemma auditInput_parts:
  assumes "CHR 0x0A \<notin> set a" "CHR 0x0A \<notin> set b" "a @ CHR 0x0A # x = b @ CHR 0x0A # y"
  shows "a = b \<and> x = y"
  using split_on_append_sep [OF assms(1), of x] split_on_append_sep [OF assms(2), of y] assms(3)
  by (metis join_split_on list.inject)

lemma hex_no_nl: "CHR 0x0A \<notin> set (hexEncode bs)"
  using hexEncode_chars nibble_no_nl by metis

lemma lastHash_text:
  assumes "chained L None rs"
  shows "CHR 0x0A \<notin> set (case lastHash None rs of None \<Rightarrow> auditGenesis | Some h \<Rightarrow> h)"
proof (cases rs rule: rev_cases)
  case Nil
  then show ?thesis by (simp add: lastHash_def auditGenesis_def)
next
  case (snoc us r)
  with assms have "hrHash r = computeAuditHash L (hrPrev r) (hrRow r)" by (auto simp: chained_snoc linked_def)
  with snoc hex_no_nl show ?thesis by (simp add: lastHash_def computeAuditHash_def)
qed

lemma auditInputs_length [simp]: "length (auditInputs p rs) = length rs"
  by (induction rs arbitrary: p) simp_all

text \<open>What the hash of a row covers, and its links.\<close>

definition sealed :: "hashedRow \<Rightarrow> string \<times> string option \<times> string" where
  "sealed r = (auditBody (hrRow r), hrPrev r, hrHash r)"

lemma chain_determines_rows:
  assumes "length rs = length qs" "chained L None rs" "chained L None qs" "lastHash None rs = lastHash None qs"
  shows "map sealed rs = map sealed qs \<or> clashAt L (auditInputs None rs) (auditInputs None qs)"
  using assms
proof (induction rs arbitrary: qs rule: rev_induct)
  case Nil
  then show ?case by simp
next
  case (snoc r rs)
  then obtain q qs' where q: "qs = qs' @ [q]" "length rs = length qs'" by (cases qs rule: rev_cases) auto
  let ?p = "lastHash None rs" and ?u = "lastHash None qs'"
  from snoc.prems q have c: "chained L None rs" "chained L None qs'" "linked L ?p r" "linked L ?u q" "hrHash r = hrHash q"
    by (simp_all add: chained_snoc lastHash_def)
  let ?a = "utf8 (auditInput ?p (hrRow r))" and ?b = "utf8 (auditInput ?u (hrRow q))"
  have dig: "sha256 L ?a = sha256 L ?b"
    using c(3-5) unfolding linked_def computeAuditHash_def by (metis hexEncode_inj)
  show ?case
  proof (cases "?a = ?b")
    case False
    with dig q show ?thesis by (simp add: auditInputs_snoc clashAt_snoc)
  next
    case True
    then have "auditInput ?p (hrRow r) = auditInput ?u (hrRow q)" by (rule utf8_inj)
    then have e: "(case ?p of None \<Rightarrow> auditGenesis | Some h \<Rightarrow> h) = (case ?u of None \<Rightarrow> auditGenesis | Some h \<Rightarrow> h) \<and>
        auditBody (hrRow r) = auditBody (hrRow q)"
      unfolding auditInput_def by (rule auditInput_parts [OF lastHash_text [OF c(1)] lastHash_text [OF c(2)]])
    have "?p = ?u" using e q(2) by (auto simp: lastHash_def split: if_splits)
    with snoc.IH [OF q(2) c(1,2)] q e c(3-5) show ?thesis by (auto simp: auditInputs_snoc clashAt_snoc sealed_def linked_def)
  qed
qed

section \<open>Canonical JSON is read in one way only\<close>

text \<open>
  Numbers as \<open>JSON.stringify\<close> prints the finite ones. The text of an infinite number or of \<open>NaN\<close> would
  be \<open>null\<close>, as the one of the value \<open>null\<close>.
\<close>

definition numChar :: "char \<Rightarrow> bool" where
  "numChar c \<longleftrightarrow> c \<in> set ''0123456789+-.e''"

definition numText :: "string \<Rightarrow> bool" where
  "numText t \<longleftrightarrow> t \<noteq> [] \<and> list_all numChar t"

fun plainN :: "jnf \<Rightarrow> bool" where
  "plainN (NNum t) = numText t"
| "plainN (NArr xs) = list_all plainN xs"
| "plainN (NObj kvs) = list_all (\<lambda>(k, v). plainN v) kvs"
| "plainN _ = True"

text \<open>What may follow a value inside a text.\<close>

definition delim :: "string \<Rightarrow> bool" where
  "delim r \<longleftrightarrow> (case r of [] \<Rightarrow> True | c # q \<Rightarrow> c \<in> {CHR '','', CHR '']'', CHR ''}''})"

lemma jsonString_split: "jsonString a @ r = jsonString b @ s \<longleftrightarrow> a = b \<and> r = s"
proof
  assume e: "jsonString a @ r = jsonString b @ s"
  obtain q where q: "jsonString b @ s = CHR 0x22 # q" by (simp only: jsonString_def append_Cons)
  from pStr_jsonString [OF q] pStr_jsonString [OF e [unfolded q]] show "a = b \<and> r = s" by simp
qed simp

lemma numText_split:
  assumes "numText t" "numText u" "delim r" "delim s" "t @ r = u @ s"
  shows "t = u \<and> r = s"
proof -
  have d: "\<not> numChar (CHR '','')" "\<not> numChar (CHR '']'')" "\<not> numChar (CHR ''}'')" by (code_simp, code_simp, code_simp)
  have n: "takeWhile numChar (t @ r) = t" if "list_all numChar t" "delim r" for t r
    using that(1)
  proof (induction t)
    case Nil
    show ?case using that(2) d by (cases r) (auto simp: delim_def)
  qed simp
  from assms have "takeWhile numChar (t @ r) = t" "takeWhile numChar (u @ s) = u" using n unfolding numText_def by blast+
  with assms(5) have "t = u" by metis
  with assms(5) show ?thesis by simp
qed

text \<open>Every kind of value opens with characters of its own.\<close>

fun kindOf :: "jnf \<Rightarrow> nat" where
  "kindOf NNull = 0"
| "kindOf (NBool b) = (if b then 1 else 2)"
| "kindOf (NNum t) = 3"
| "kindOf (NStr s) = 4"
| "kindOf (NArr xs) = 5"
| "kindOf (NObj kvs) = 6"

definition charKind :: "char \<Rightarrow> nat" where
  "charKind c = (if c = CHR ''n'' then 0 else if c = CHR ''t'' then 1 else if c = CHR ''f'' then 2
     else if numChar c then 3 else if c = CHR 0x22 then 4 else if c = CHR ''['' then 5 else if c = CHR ''{'' then 6 else 7)"

lemma charKinds:
  "charKind (CHR ''n'') = 0" "charKind (CHR ''t'') = 1" "charKind (CHR ''f'') = 2" "charKind (CHR 0x22) = 4" "charKind (CHR ''['') = 5"
  "charKind (CHR ''{'') = 6" "charKind (CHR '']'') = 7" "charKind (CHR ''}'') = 7"
  by (code_simp, code_simp, code_simp, code_simp, code_simp, code_simp, code_simp, code_simp)

lemma charKind_num: "numChar c \<Longrightarrow> charKind c = 3"
proof -
  have "\<not> numChar (CHR ''n'')" "\<not> numChar (CHR ''t'')" "\<not> numChar (CHR ''f'')" by (code_simp, code_simp, code_simp)
  then show "numChar c \<Longrightarrow> charKind c = 3" by (metis charKind_def)
qed

lemma stringify_first: "plainN a \<Longrightarrow> \<exists>c q. stringify a = c # q \<and> charKind c = kindOf a"
proof (cases a)
  case (NNum t)
  assume "plainN a"
  with NNum obtain c q where "t = c # q" "numChar c" by (cases t) (auto simp: numText_def)
  with NNum charKind_num show ?thesis by simp
qed (auto simp: charKinds jsonString_def)

lemma stringify_kind:
  assumes "plainN a" "plainN b" "stringify a @ r = stringify b @ s"
  shows "kindOf a = kindOf b"
  using stringify_first [OF assms(1)] stringify_first [OF assms(2)] assms(3) by auto

lemma kinds:
  "kindOf b = 0 \<longleftrightarrow> b = NNull" "kindOf b = 1 \<longleftrightarrow> b = NBool True" "kindOf b = 2 \<longleftrightarrow> b = NBool False" "kindOf b = 3 \<longleftrightarrow> (\<exists>t. b = NNum t)"
  "kindOf b = 4 \<longleftrightarrow> (\<exists>t. b = NStr t)" "kindOf b = 5 \<longleftrightarrow> (\<exists>xs. b = NArr xs)" "kindOf b = 6 \<longleftrightarrow> (\<exists>kvs. b = NObj kvs)"
  by (cases b; simp)+

lemma stringify_not_bracket: "plainN a \<Longrightarrow> stringify a @ r \<noteq> CHR '']'' # s"
proof
  assume "plainN a" "stringify a @ r = CHR '']'' # s"
  with stringify_first [of a] have "kindOf a = 7" by (auto simp: charKinds)
  then show False by (cases a) (auto split: if_splits)
qed

text \<open>The elements of an array and the fields of an object, each after its comma.\<close>

fun tailArr :: "jnf list \<Rightarrow> string" where
  "tailArr [] = []"
| "tailArr (x # xs) = CHR '','' # stringify x @ tailArr xs"

fun tailObj :: "(string \<times> jnf) list \<Rightarrow> string" where
  "tailObj [] = []"
| "tailObj ((k, v) # kvs) = CHR '','' # jsonString k @ CHR '':'' # stringify v @ tailObj kvs"

lemma join_arr: "CHR '','' # join (CHR '','') (stringList (x # xs)) = tailArr (x # xs)"
  by (induction xs arbitrary: x) auto

lemma join_obj: "CHR '','' # join (CHR '','') (stringFields (p # kvs)) = tailObj (p # kvs)"
proof (induction kvs arbitrary: p)
  case Nil
  show ?case by (cases p) simp
next
  case (Cons q kvs)
  show ?case using Cons.IH [of q] by (cases p; cases q) simp
qed

lemma stringify_arr:
  "stringify (NArr []) = ''[]''" "stringify (NArr (x # xs)) = CHR ''['' # stringify x @ tailArr xs @ '']''"
  using join_arr [of x xs] by simp_all

lemma stringify_obj:
  "stringify (NObj []) = ''{}''" "stringify (NObj ((k, v) # kvs)) = CHR ''{'' # jsonString k @ CHR '':'' # stringify v @ tailObj kvs @ ''}''"
  using join_obj [of "(k, v)" kvs] by simp_all

lemma delim_tails: "delim (tailArr xs @ CHR '']'' # r)" "delim (tailObj kvs @ CHR ''}'' # r)"
  by (cases xs; simp add: delim_def) (cases kvs; auto simp: delim_def split: prod.split list.split)

lemma stringify_split:
  shows "plainN a \<Longrightarrow> plainN b \<Longrightarrow> delim r \<Longrightarrow> delim s \<Longrightarrow> stringify a @ r = stringify b @ s \<Longrightarrow> a = b \<and> r = s"
    and "list_all plainN xs \<Longrightarrow> list_all plainN ys \<Longrightarrow> tailArr xs @ CHR '']'' # r = tailArr ys @ CHR '']'' # s \<Longrightarrow> xs = ys \<and> r = s"
    and "list_all (\<lambda>(k, v). plainN v) kvs \<Longrightarrow> list_all (\<lambda>(k, v). plainN v) fs \<Longrightarrow>
      tailObj kvs @ CHR ''}'' # r = tailObj fs @ CHR ''}'' # s \<Longrightarrow> kvs = fs \<and> r = s"
proof (induction a and xs and kvs arbitrary: b r s and ys r s and fs r s rule: stringify_stringList_stringFields.induct)
  case 1
  then have "kindOf b = 0" using stringify_kind [of NNull b r s] by simp
  with 1 show ?case by (simp add: kinds)
next
  case (2 x)
  then have "kindOf b = kindOf (NBool x)" using stringify_kind [of "NBool x" b r s] by simp
  then have "b = NBool x" by (cases x) (simp_all add: kinds del: One_nat_def)
  with 2 show ?case by simp
next
  case (3 t)
  then have "kindOf b = 3" using stringify_kind [of "NNum t" b r s] by simp
  then obtain u where "b = NNum u" by (auto simp: kinds)
  with 3 numText_split [of t u r s] show ?case by simp
next
  case (4 t)
  then have "kindOf b = 4" using stringify_kind [of "NStr t" b r s] by simp
  with 4 show ?case by (auto simp: kinds jsonString_split)
next
  case (5 xs)
  then have "kindOf b = 5" using stringify_kind [of "NArr xs" b r s] by simp
  then obtain ys where b: "b = NArr ys" by (auto simp: kinds)
  show ?case
  proof (cases "xs = [] \<or> ys = []")
    case True
    show ?thesis
    proof (cases "xs = ys")
      case True
      with 5(6) b show ?thesis by simp
    next
      case False
      with True consider y vs where "xs = []" "ys = y # vs" | x us where "xs = x # us" "ys = []" by (cases xs; cases ys) auto
      then show ?thesis
      proof cases
        case 1
        with 5(6) b have "stringify y @ (tailArr vs @ CHR '']'' # s) = CHR '']'' # r" by (simp add: stringify_arr del: stringify.simps)
        moreover have "plainN y" using 5(3) b 1 by simp
        ultimately show ?thesis using stringify_not_bracket by blast
      next
        case 2
        with 5(6) b have "stringify x @ (tailArr us @ CHR '']'' # r) = CHR '']'' # s" by (simp add: stringify_arr del: stringify.simps)
        moreover have "plainN x" using 5(2) 2 by simp
        ultimately show ?thesis using stringify_not_bracket by blast
      qed
    qed
  next
    case False
    then obtain x us y vs where c: "xs = x # us" "ys = y # vs" by (auto simp: neq_Nil_conv)
    with 5(6) b have "tailArr xs @ CHR '']'' # r = tailArr ys @ CHR '']'' # s" by (simp add: stringify_arr del: stringify.simps)
    from 5(1) [OF _ _ this] 5(2,3) b show ?thesis by simp
  qed
next
  case (6 kvs)
  then have "kindOf b = 6" using stringify_kind [of "NObj kvs" b r s] by simp
  then obtain fs where b: "b = NObj fs" by (auto simp: kinds)
  show ?case
  proof (cases "kvs = [] \<or> fs = []")
    case True
    show ?thesis
    proof (cases "kvs = fs")
      case True
      with 6(6) b show ?thesis by simp
    next
      case False
      then obtain k v us where "kvs = [] \<and> fs = (k, v) # us \<or> kvs = (k, v) # us \<and> fs = []" using True by (metis neq_Nil_conv prod.exhaust)
      with 6(6) b show ?thesis by (elim disjE conjE) (simp_all add: stringify_obj jsonString_def del: stringify.simps)
    qed
  next
    case False
    then obtain k u us h v vs where c: "kvs = (k, u) # us" "fs = (h, v) # vs" by (metis neq_Nil_conv prod.exhaust)
    with 6(6) b have "tailObj kvs @ CHR ''}'' # r = tailObj fs @ CHR ''}'' # s" by (simp add: stringify_obj del: stringify.simps)
    from 6(1) [OF _ _ this] 6(2,3) b show ?thesis by simp
  qed
next
  case 7
  then show ?case by (cases ys) auto
next
  case (8 x xs)
  then obtain y vs where y: "ys = y # vs" by (cases ys) auto
  from 8(5) y have "stringify x @ tailArr xs @ CHR '']'' # r = stringify y @ tailArr vs @ CHR '']'' # s" by simp
  from 8(1) [OF _ _ delim_tails(1) delim_tails(1) this] 8(3,4) y
  have "x = y \<and> tailArr xs @ CHR '']'' # r = tailArr vs @ CHR '']'' # s" by simp
  with 8(2) [of vs r s] 8(3,4) y show ?case by simp
next
  case 9
  then show ?case by (cases fs) auto
next
  case (10 k v kvs)
  then obtain h w us where y: "fs = (h, w) # us" by (cases fs) auto
  from 10(5) y have e: "h = k" "stringify v @ tailObj kvs @ CHR ''}'' # r = stringify w @ tailObj us @ CHR ''}'' # s" by (auto simp: jsonString_split)
  from 10(1) [OF _ _ delim_tails(2) delim_tails(2) e(2)] 10(3,4) y
  have "v = w \<and> tailObj kvs @ CHR ''}'' # r = tailObj us @ CHR ''}'' # s" by simp
  with 10(2) [of us r s] 10(3,4) y e(1) show ?case by simp
qed

text \<open>What a row records of a value: nothing of \<open>undefined\<close>, otherwise its normal form.\<close>

definition recorded :: "jsv \<Rightarrow> jnf option" where
  "recorded v = (if v = VUndef then None else Some (normalize v))"

definition plainRow :: "auditRow \<Rightarrow> bool" where
  "plainRow r \<longleftrightarrow> plainN (normalize (auBefore r)) \<and> plainN (normalize (auAfter r))"

definition sameRecord :: "auditRow \<Rightarrow> auditRow \<Rightarrow> bool" where
  "sameRecord a b \<longleftrightarrow> auId a = auId b \<and> auOrg a = auOrg b \<and> auActor a = auActor b \<and> auAction a = auAction b \<and> auTarget a = auTarget b \<and>
     recorded (auBefore a) = recorded (auBefore b) \<and> recorded (auAfter a) = recorded (auAfter b) \<and> auIp a = auIp b \<and>
     auUserAgent a = auUserAgent b \<and> auOutcome a = auOutcome b \<and> auAt a = auAt b"

lemma set_objectEntries [simp]: "set (objectEntries kvs) = set kvs"
  by (auto simp: objectEntries_def)

lemma normalize_optV: "normalize (optV v) = (case v of None \<Rightarrow> NNull | Some s \<Rightarrow> NStr s)" "optV v \<noteq> VUndef"
  by (simp_all add: optV_def split: option.split)

definition rowFields :: "auditRow \<Rightarrow> (string \<times> jnf) list" where
  "rowFields r = normFields
     [(''id'', VStr (auId r)), (''organizationId'', optV (auOrg r)), (''actorUserId'', optV (auActor r)), (''action'', VStr (auAction r)),
      (''target'', optV (auTarget r)), (''before'', auBefore r), (''after'', auAfter r), (''ip'', optV (auIp r)),
      (''userAgent'', optV (auUserAgent r)), (''outcome'', VStr (auOutcome r)), (''at'', VStr (auAt r))]"

definition optN :: "string option \<Rightarrow> jnf" where
  "optN v = (case v of None \<Rightarrow> NNull | Some s \<Rightarrow> NStr s)"

lemma optN_inj [simp]: "optN a = optN b \<longleftrightarrow> a = b"
  by (simp add: optN_def split: option.split)

lemma rowFields_eq:
  "(k, v) \<in> set (rowFields r) \<longleftrightarrow>
     k = ''id'' \<and> v = NStr (auId r) \<or> k = ''organizationId'' \<and> v = optN (auOrg r) \<or> k = ''actorUserId'' \<and> v = optN (auActor r) \<or>
     k = ''action'' \<and> v = NStr (auAction r) \<or> k = ''target'' \<and> v = optN (auTarget r) \<or> k = ''before'' \<and> recorded (auBefore r) = Some v \<or>
     k = ''after'' \<and> recorded (auAfter r) = Some v \<or> k = ''ip'' \<and> v = optN (auIp r) \<or> k = ''userAgent'' \<and> v = optN (auUserAgent r) \<or>
     k = ''outcome'' \<and> v = NStr (auOutcome r) \<or> k = ''at'' \<and> v = NStr (auAt r)"
  unfolding rowFields_def by (auto simp: normalize_optV optN_def recorded_def)

lemma auditBody_fields: "auditBody r = stringify (NObj (objectEntries (sort_key fst (rowFields r))))"
  by (simp only: auditBody_def auditJson_def normalize.simps rowFields_def)

lemma rowFields_plain: "plainRow r \<Longrightarrow> plainN (NObj (objectEntries (sort_key fst (rowFields r))))"
  by (auto simp: list_all_iff rowFields_eq plainRow_def recorded_def optN_def split: option.splits if_splits)

lemma auditBody_inj:
  assumes "plainRow a" "plainRow b" "auditBody a = auditBody b"
  shows "sameRecord a b"
proof -
  have "NObj (objectEntries (sort_key fst (rowFields a))) = NObj (objectEntries (sort_key fst (rowFields b)))"
    using stringify_split(1) [of _ _ "[]" "[]", OF rowFields_plain [OF assms(1)] rowFields_plain [OF assms(2)]] assms(3)
    by (simp add: auditBody_fields delim_def del: stringify.simps)
  then have "set (objectEntries (sort_key fst (rowFields a))) = set (objectEntries (sort_key fst (rowFields b)))" by simp
  then have e: "(k, v) \<in> set (rowFields a) \<longleftrightarrow> (k, v) \<in> set (rowFields b)" for k v by simp
  have "recorded (auBefore a) = Some v \<longleftrightarrow> recorded (auBefore b) = Some v" "recorded (auAfter a) = Some v \<longleftrightarrow> recorded (auAfter b) = Some v" for v
    using e [of "''before''" v] e [of "''after''" v] by (simp_all add: rowFields_eq)
  then have "recorded (auBefore a) = recorded (auBefore b)" "recorded (auAfter a) = recorded (auAfter b)"
    by (metis not_Some_eq)+
  then show ?thesis
    using e [of "''id''" "NStr (auId a)"] e [of "''organizationId''" "optN (auOrg a)"] e [of "''actorUserId''" "optN (auActor a)"]
      e [of "''action''" "NStr (auAction a)"] e [of "''target''" "optN (auTarget a)"] e [of "''ip''" "optN (auIp a)"]
      e [of "''userAgent''" "optN (auUserAgent a)"] e [of "''outcome''" "NStr (auOutcome a)"] e [of "''at''" "NStr (auAt a)"]
    by (simp add: sameRecord_def rowFields_eq)
qed

lemma sealed_rows:
  assumes "map sealed rs = map sealed qs" "list_all (\<lambda>r. plainRow (hrRow r)) rs" "list_all (\<lambda>r. plainRow (hrRow r)) qs"
  shows "list_all2 (\<lambda>r q. sameRecord (hrRow r) (hrRow q) \<and> hrPrev r = hrPrev q \<and> hrHash r = hrHash q) rs qs"
  using assms
proof (induction rs arbitrary: qs)
  case Nil
  then show ?case by simp
next
  case (Cons r rs)
  then obtain q ps where "qs = q # ps" by (cases qs) auto
  with Cons show ?case by (auto simp: sealed_def intro: auditBody_inj)
qed

section \<open>The properties\<close>

text \<open>
  C30. Checking in blocks is checking as a whole: the blocks of a chain, each continued where the one before it
  ended, give the verdict of the whole chain.
\<close>

theorem audit_blocks_agree:
  "continueChain L (xs @ ys) expected checked =
     (case continueChain L xs expected checked of
        (ChainOk n, lst) \<Rightarrow> continueChain L ys lst n
      | (ChainBroken n s e, lst) \<Rightarrow> (ChainBroken n s e, lst))"
  by (simp add: continueChain_append split: prod.splits chainVerdict.splits)

text \<open>
  The verdict names the first row that is not linked: all rows before it are, and the reason is the link if
  the row does not point to the hash before it, and its own hash otherwise.
\<close>

theorem broken_at_first_bad_row:
  assumes "verifyChain L rs = ChainBroken n s e"
  shows "\<exists>xs r ys. rs = xs @ r # ys \<and> n = int (length xs) \<and> verifyChain L xs = ChainOk n \<and> s = hrSeq r \<and>
    (e = ''prev_mismatch'' \<and> hrPrev r \<noteq> lastHash None xs \<or>
     e = ''hash_mismatch'' \<and> hrPrev r = lastHash None xs \<and> hrHash r \<noteq> computeAuditHash L (lastHash None xs) (hrRow r))"
proof -
  from assms obtain q where "continueChain L rs None 0 = (ChainBroken n s e, q)" by (cases "continueChain L rs None 0") (auto simp: verifyChain_def)
  then obtain xs r ys where b: "rs = xs @ r # ys" "chained L None xs" "n = int (length xs)" "q = lastHash None xs" "s = hrSeq r" "\<not> linked L q r"
    "e = (if hrPrev r \<noteq> q then ''prev_mismatch'' else ''hash_mismatch'')" by (auto simp: continueChain_broken)
  have "verifyChain L xs = ChainOk n" using b(2,3) continueChain_ok [of L xs None 0 n "lastHash None xs"] by (simp add: verifyChain_def)
  with b show ?thesis by (intro exI [of _ xs] exI [of _ r] exI [of _ ys]) (auto simp: linked_def)
qed

text \<open>
  C29. Whoever changes the audit log and still presents a chain of the same length with the same last hash has
  changed nothing that the rows record, or shows a collision at some row: row by row the hash, the hash before it,
  and every field but \<open>seq\<close> agree, the values before and after up to their normal form (order of the fields, dates and
  big integers as text, without \<open>undefined\<close> and fields named \<open>__proto__\<close>). The numbers in them are finite.
\<close>

theorem audit_chain_is_tamper_evident:
  assumes "verifyChain L rs = ChainOk n" "verifyChain L qs = ChainOk n" "lastHash None rs = lastHash None qs"
    and "list_all (\<lambda>r. plainRow (hrRow r)) (rs @ qs)"
  shows "list_all2 (\<lambda>r q. sameRecord (hrRow r) (hrRow q) \<and> hrPrev r = hrPrev q \<and> hrHash r = hrHash q) rs qs \<or>
    clashAt L (auditInputs None rs) (auditInputs None qs)"
proof -
  have ok: "chained L None us \<and> n = int (length us)" if "verifyChain L us = ChainOk n" for us
    using that continueChain_ok [of L us None 0 n "snd (continueChain L us None 0)"] by (simp add: verifyChain_def prod_eq_iff)
  have "map sealed rs = map sealed qs \<or> clashAt L (auditInputs None rs) (auditInputs None qs)"
    using ok [OF assms(1)] ok [OF assms(2)] assms(3) by (intro chain_determines_rows) auto
  then show ?thesis
  proof
    assume "map sealed rs = map sealed qs"
    with sealed_rows assms(4) show ?thesis by auto
  qed simp
qed

text \<open>Two logs that differ in an action; their hashes agree under a constant hash.\<close>

definition flatLib :: lib where
  "flatLib = demoLib\<lparr>sha256 := (\<lambda>b. replicate 32 0)\<rparr>"

definition demoRow :: "string \<Rightarrow> auditRow" where
  "demoRow a = \<lparr>auId = ''1'', auOrg = None, auActor = None, auAction = a, auTarget = None, auBefore = VNull, auAfter = VObj [(''n'', VNum ''1'')],
     auIp = None, auUserAgent = None, auOutcome = ''success'', auAt = ''2026-01-01T00:00:00.000Z''\<rparr>"

definition demoAudit :: "lib \<Rightarrow> string \<Rightarrow> hashedRow list" where
  "demoAudit L a =
     (let h = computeAuditHash L None (demoRow ''login'') in
      [\<lparr>hrRow = demoRow ''login'', hrSeq = ''1'', hrPrev = None, hrHash = h\<rparr>,
       \<lparr>hrRow = demoRow a, hrSeq = ''2'', hrPrev = Some h, hrHash = computeAuditHash L (Some h) (demoRow a)\<rparr>])"

lemma demoAudit_ok: "verifyChain L (demoAudit L a) = ChainOk 2"
  by (simp add: verifyChain_def demoAudit_def Let_def)

lemma demoAudit_plain: "list_all (\<lambda>r. plainRow (hrRow r)) (demoAudit L a)"
  by (simp add: demoAudit_def Let_def plainRow_def demoRow_def numText_def numChar_def objectEntries_def)

theorem audit_chain_is_tamper_evident_witness:
  "verifyChain flatLib (demoAudit flatLib ''grant'') = ChainOk 2 \<and> verifyChain flatLib (demoAudit flatLib ''deny'') = ChainOk 2 \<and>
     clashAt flatLib (auditInputs None (demoAudit flatLib ''grant'')) (auditInputs None (demoAudit flatLib ''deny''))"
proof -
  have e: "lastHash None (demoAudit flatLib ''grant'') = lastHash None (demoAudit flatLib ''deny'')"
    by (simp add: demoAudit_def Let_def lastHash_def computeAuditHash_def flatLib_def)
  have p: "list_all (\<lambda>r. plainRow (hrRow r)) (demoAudit flatLib ''grant'' @ demoAudit flatLib ''deny'')"
    using demoAudit_plain by simp
  have "\<not> list_all2 (\<lambda>r q. sameRecord (hrRow r) (hrRow q) \<and> hrPrev r = hrPrev q \<and> hrHash r = hrHash q) (demoAudit flatLib ''grant'') (demoAudit flatLib ''deny'')"
    by (simp add: demoAudit_def Let_def sameRecord_def demoRow_def)
  with audit_chain_is_tamper_evident [OF demoAudit_ok demoAudit_ok e p] show ?thesis by (simp add: demoAudit_ok)
qed

theorem broken_at_first_bad_row_witness:
  "\<exists>xs r ys. rev (demoAudit demoLib ''deny'') = xs @ r # ys \<and> 0 = length xs \<and> hrSeq r = ''2'' \<and> hrPrev r \<noteq> None"
proof -
  have "verifyChain demoLib (rev (demoAudit demoLib ''deny'')) = ChainBroken 0 ''2'' ''prev_mismatch''"
    by (simp add: verifyChain_def demoAudit_def Let_def)
  from broken_at_first_bad_row [OF this] show ?thesis by (auto simp: lastHash_def)
qed

lemma normFields_append: "normFields (xs @ ys) = normFields xs @ normFields ys"
  by (induction xs) auto

text \<open>
  A field named \<open>__proto__\<close> in the recorded values leaves no trace in the hash: with it and without it, at any
  place of the object, the row has the same hash.
\<close>

theorem proto_field_escapes_hash:
  "computeAuditHash L prv (r\<lparr>auAfter := VObj (xs @ (''__proto__'', v) # ys)\<rparr>) = computeAuditHash L prv (r\<lparr>auAfter := VObj (xs @ ys)\<rparr>)"
  by (simp add: computeAuditHash_def auditInput_def auditBody_def auditJson_def normFields_append)

text \<open>The hash does not depend on the order in which the fields of an object were set.\<close>

lemma normFields_mset: "mset xs = mset ys \<Longrightarrow> mset (normFields xs) = mset (normFields ys)"
proof -
  have "mset (normFields zs) = image_mset (\<lambda>(k, v). (k, normalize v)) (filter_mset (\<lambda>(k, v). \<not> (v = VUndef \<or> k = ''__proto__'')) (mset zs))" for zs
    by (induction zs) auto
  then show "mset xs = mset ys \<Longrightarrow> mset (normFields xs) = mset (normFields ys)" by simp
qed

lemma normFields_keys: "distinct (map fst xs) \<Longrightarrow> distinct (map fst (normFields xs))"
proof -
  have "fst ` set (normFields zs) \<subseteq> fst ` set zs" for zs
  proof (induction zs)
    case (Cons z zs)
    then show ?case by (cases z) (simp, blast)
  qed simp
  then have sub: "k \<in> fst ` set (normFields zs) \<Longrightarrow> k \<in> fst ` set zs" for k zs by blast
  show "distinct (map fst xs) \<Longrightarrow> distinct (map fst (normFields xs))"
  proof (induction xs)
    case (Cons x xs)
    then show ?case using sub [of "fst x" xs] by (cases x) auto
  qed simp
qed

lemma field_order_irrelevant: "mset xs = mset ys \<Longrightarrow> distinct (map fst xs) \<Longrightarrow> auditJson (VObj xs) = auditJson (VObj ys)"
  using sort_key_mset [OF normFields_mset normFields_keys] by (simp add: auditJson_def)

end
