(* ===== verification/Sign_Text.thy ===== *)
theory Sign_Text
  imports Hashing
begin

text \<open>
  \<open>lib/signatures/canonical.ts\<close>: the text a person signs with a passkey. Every field has a fixed pattern
  without the separator, so a text is read back as the fields it was made of, and the challenge
  of an assertion binds all of them.
\<close>

section \<open>Fields\<close>

definition SIGN_PURPOSES :: "string list" where
  "SIGN_PURPOSES = [''approve'', ''acknowledge'', ''review'']"

record signFields =
  sfOrg :: string
  sfTarget :: string
  sfHash :: string
  sfSigner :: string
  sfFunction :: string
  sfPurpose :: string
  sfNonce :: string
  sfExpires :: string

text \<open>\<open>/^[a-z][a-z_]{1,39}$/\<close>\<close>

definition re_function :: "string \<Rightarrow> bool" where
  "re_function s = (case s of [] \<Rightarrow> False
     | c # cs \<Rightarrow> is_lower c \<and> list_all (\<lambda>d. is_lower d \<or> d = CHR ''_'') cs \<and> 1 \<le> length cs \<and> length cs \<le> 39)"

definition re_prefixed :: "string \<Rightarrow> string \<Rightarrow> bool" where
  "re_prefixed p s \<longleftrightarrow> startsWith s p \<and> re_uuid (drop (length p) s)"

text \<open>\<open>/^\d{4}-\d{2}-\d{2}T\d{2}:\d{2}:\d{2}Z$/\<close>\<close>

definition re_isoSeconds :: "string \<Rightarrow> bool" where
  "re_isoSeconds s \<longleftrightarrow> length s = 20 \<and>
     list_all (\<lambda>(t, c). if t = CHR ''0'' then is_digit c else c = t) (zip ''0000-00-00T00:00:00Z'' s)"

text \<open>The fields in their order, each with its pattern.\<close>

definition signParts :: "signFields \<Rightarrow> (string \<times> (string \<Rightarrow> bool) \<times> string) list" where
  "signParts f =
     [(''org'', re_uuid, sfOrg f),
      (''target'', \<lambda>s. re_prefixed ''evidence:'' s \<or> re_prefixed ''batch:'' s \<or> re_prefixed ''docver:'' s, sfTarget f),
      (''hash'', re_hexn 64, sfHash f),
      (''signer'', re_uuid, sfSigner f),
      (''function'', \<lambda>s. s = ''-'' \<or> re_function s \<or> re_prefixed ''role:'' s, sfFunction f),
      (''purpose'', \<lambda>s. s \<in> set SIGN_PURPOSES, sfPurpose f),
      (''nonce'', re_hexn 32, sfNonce f),
      (''expires'', re_isoSeconds, sfExpires f)]"

definition SIGN_PREFIX :: string where
  "SIGN_PREFIX = ''klick-sign/v1''"

section \<open>The text\<close>

fun checkParts :: "(string \<times> (string \<Rightarrow> bool) \<times> string) list \<Rightarrow> unit res" where
  "checkParts [] = Inr ()"
| "checkParts ((k, p, v) # r) =
     (if \<not> p v then Inl (PlainError (''sign: Feld '' @ k @ '' ung'' @ [CHR 0xFC] @ ''ltig'')) else checkParts r)"

definition encodeSignText :: "signFields \<Rightarrow> string res" where
  "encodeSignText f = andThen (checkParts (signParts f)) (\<lambda>_. Inr (join (CHR ''|'') (SIGN_PREFIX # map (snd \<circ> snd) (signParts f))))"

text \<open>\<open>null\<close> is \<open>None\<close>; the last comparison of the code is the round trip of the text.\<close>

definition parseSignText :: "string \<Rightarrow> signFields option" where
  "parseSignText t =
     (case split_on (CHR ''|'') t of
        [p, org, target, hash, signer, fn, purpose, nonce, expires] \<Rightarrow>
          if p \<noteq> SIGN_PREFIX then None
          else let f = \<lparr>sfOrg = org, sfTarget = target, sfHash = hash, sfSigner = signer, sfFunction = fn, sfPurpose = purpose,
                 sfNonce = nonce, sfExpires = expires\<rparr> in
          (case checkParts (signParts f) of Inl e \<Rightarrow> None
           | Inr u \<Rightarrow> if encodeSignText f = Inr t then Some f else None)
      | _ \<Rightarrow> None)"

definition signChallenge :: "lib \<Rightarrow> string \<Rightarrow> string" where
  "signChallenge L t = b64uEncode (sha256 L (utf8 t))"

definition sealSignText :: "lib \<Rightarrow> string \<Rightarrow> string \<Rightarrow> string" where
  "sealSignText L t secret = b64uEncode (hmac256 L (utf8 (''klick-sign|'' @ secret)) (utf8 t))"

definition checkSeal :: "lib \<Rightarrow> string \<Rightarrow> string \<Rightarrow> string \<Rightarrow> bool" where
  "checkSeal L t sl secret \<longleftrightarrow>
     (let want = utf8 (sealSignText L t secret); got = utf8 sl in length want = length got \<and> want = got)"

section \<open>Lemmas\<close>

lemma checkParts_ok: "checkParts ps = Inr u \<longleftrightarrow> (\<forall>(k, p, v)\<in>set ps. p v)"
proof (induction ps)
  case Nil
  show ?case by simp
next
  case (Cons x ps)
  obtain k p v where x: "x = (k, p, v)" by (cases x)
  show ?case using Cons.IH by (cases "p v") (simp_all add: x)
qed

lemma lower_no_bar: "is_lower c \<Longrightarrow> c \<noteq> CHR ''|''"
  by (auto simp: is_lower_def cval_def)

lemma re_function_no_bar: "re_function s \<Longrightarrow> CHR ''|'' \<notin> set s"
  using lower_no_bar by (cases s) (auto simp: re_function_def list_all_iff)

lemma re_prefixed_no_bar: "CHR ''|'' \<notin> set p \<Longrightarrow> re_prefixed p s \<Longrightarrow> CHR ''|'' \<notin> set s"
proof -
  assume p: "CHR ''|'' \<notin> set p" and r: "re_prefixed p s"
  have t: "take (length p) s = p" using r by (simp add: re_prefixed_def startsWith_def)
  have "CHR ''|'' \<notin> set (drop (length p) s)" using r re_uuid_no_sep by (simp add: re_prefixed_def)
  then have "CHR ''|'' \<notin> set (take (length p) s) \<union> set (drop (length p) s)" using p t by simp
  then show "CHR ''|'' \<notin> set s" using set_append [of "take (length p) s" "drop (length p) s"] by (simp only: append_take_drop_id not_False_eq_True)
qed

lemma list_all_zip_member:
  "list_all f (zip ts xs) \<Longrightarrow> length xs = length ts \<Longrightarrow> x \<in> set xs \<Longrightarrow> \<exists>t\<in>set ts. f (t, x)"
proof -
  assume a: "list_all f (zip ts xs)" "length xs = length ts" "x \<in> set xs"
  then obtain i where i: "i < length xs" "xs ! i = x" by (auto simp: in_set_conv_nth)
  with a have "f (ts ! i, x)" by (force simp: list_all_length)
  with a i show ?thesis by (intro bexI [of _ "ts ! i"]) simp_all
qed

lemma re_isoSeconds_no_bar: "re_isoSeconds s \<Longrightarrow> CHR ''|'' \<notin> set s"
proof
  assume r: "re_isoSeconds s" and m: "CHR ''|'' \<in> set s"
  let ?f = "\<lambda>(t, c). if t = CHR ''0'' then is_digit c else c = t"
  have "length s = length ''0000-00-00T00:00:00Z''" "list_all ?f (zip ''0000-00-00T00:00:00Z'' s)"
    using r unfolding re_isoSeconds_def by simp_all
  from list_all_zip_member [OF this(2) this(1) m] obtain t where t: "t \<in> set ''0000-00-00T00:00:00Z''" "?f (t, CHR ''|'')" ..
  moreover have "\<not> is_digit (CHR ''|'')" by (simp add: is_digit_def cval_def)
  ultimately have "t = CHR ''|''" by (cases "t = CHR ''0''") simp_all
  with t show False by simp
qed

lemma parts_no_bar:
  assumes "checkParts (signParts f) = Inr u"
  shows "\<forall>x\<in>set (SIGN_PREFIX # map (snd \<circ> snd) (signParts f)). CHR ''|'' \<notin> set x"
proof -
  note p = assms [unfolded checkParts_ok, unfolded signParts_def]
  have h: "re_hexn 64 (sfHash f)" "re_hexn 32 (sfNonce f)" and i: "re_uuid (sfOrg f)" "re_uuid (sfSigner f)" using p by simp_all
  note u = i [THEN re_uuid_no_sep] h [THEN re_hexn_no_sep]
  have t: "CHR ''|'' \<notin> set (sfTarget f)" using p by (auto dest: re_prefixed_no_bar [rotated])
  have fn: "CHR ''|'' \<notin> set (sfFunction f)" using p by (auto simp: re_function_no_bar dest: re_prefixed_no_bar [rotated])
  have pu: "CHR ''|'' \<notin> set (sfPurpose f)" using p by (auto simp: SIGN_PURPOSES_def)
  have ex: "CHR ''|'' \<notin> set (sfExpires f)" using p re_isoSeconds_no_bar by simp
  have "CHR ''|'' \<notin> set SIGN_PREFIX" by (simp add: SIGN_PREFIX_def)
  with u t fn pu ex show ?thesis by (simp add: signParts_def)
qed

lemma encodeSignText_iff:
  "encodeSignText f = Inr t \<longleftrightarrow> checkParts (signParts f) = Inr () \<and> t = join (CHR ''|'') (SIGN_PREFIX # map (snd \<circ> snd) (signParts f))"
  by (auto simp: encodeSignText_def exn_simps)

lemma split_signText:
  "encodeSignText f = Inr t \<Longrightarrow> split_on (CHR ''|'') t =
     [SIGN_PREFIX, sfOrg f, sfTarget f, sfHash f, sfSigner f, sfFunction f, sfPurpose f, sfNonce f, sfExpires f]"
proof -
  assume "encodeSignText f = Inr t"
  then have c: "checkParts (signParts f) = Inr ()" and t: "t = join (CHR ''|'') (SIGN_PREFIX # map (snd \<circ> snd) (signParts f))"
    by (simp_all add: encodeSignText_iff)
  have "split_on (CHR ''|'') t = SIGN_PREFIX # map (snd \<circ> snd) (signParts f)"
    unfolding t by (rule split_on_join [OF _ parts_no_bar [OF c]]) simp
  then show ?thesis by (simp add: signParts_def)
qed

section \<open>The properties\<close>

text \<open>
  C31. The text to be signed is read back as exactly the fields it was made of, and no other text is accepted.
\<close>

theorem sign_text_roundtrip: "parseSignText t = Some f \<longleftrightarrow> encodeSignText f = Inr t"
proof
  assume e: "encodeSignText f = Inr t"
  then have "checkParts (signParts f) = Inr ()" by (simp add: encodeSignText_iff)
  moreover have "\<lparr>sfOrg = sfOrg f, sfTarget = sfTarget f, sfHash = sfHash f, sfSigner = sfSigner f, sfFunction = sfFunction f,
    sfPurpose = sfPurpose f, sfNonce = sfNonce f, sfExpires = sfExpires f\<rparr> = f" by simp
  ultimately show "parseSignText t = Some f" using e by (simp only: parseSignText_def split_signText [OF e] list.case Let_def sum.case refl if_True not_True_eq_False if_False)
next
  assume "parseSignText t = Some f"
  then show "encodeSignText f = Inr t" by (auto simp: parseSignText_def Let_def split: list.splits if_splits sum.splits)
qed

text \<open>
  A passkey signs over all fields: texts of different fields have different challenges, or the two texts
  themselves are a collision.
\<close>

theorem sign_challenge_binds:
  assumes "encodeSignText f = Inr t" "encodeSignText g = Inr u" "signChallenge L t = signChallenge L u"
  shows "f = g \<or> clash L [utf8 t] [utf8 u]"
proof (cases "t = u")
  case True
  have "f = g" using split_signText [OF assms(1)] split_signText [OF assms(2)] True by simp
  then show ?thesis ..
next
  case False
  have "sha256 L (utf8 t) = sha256 L (utf8 u)" using assms(3) b64uEncode_inj by (simp add: signChallenge_def)
  moreover have "utf8 t \<noteq> utf8 u" using False utf8_inj by blast
  ultimately show ?thesis by (simp add: clash_def)
qed

definition demoSign :: "string \<Rightarrow> signFields" where
  "demoSign purpose = \<lparr>sfOrg = ''00000000-0000-0000-0000-000000000001'', sfTarget = ''batch:00000000-0000-0000-0000-000000000002'',
     sfHash = replicate 64 (CHR ''a''), sfSigner = ''00000000-0000-0000-0000-000000000003'', sfFunction = ''ciso'', sfPurpose = purpose,
     sfNonce = replicate 32 (CHR ''b''), sfExpires = ''2026-01-01T00:00:00Z''\<rparr>"

theorem sign_challenge_binds_witness:
  "\<exists>t u. encodeSignText (demoSign ''approve'') = Inr t \<and> encodeSignText (demoSign ''review'') = Inr u \<and>
     signChallenge (demoLib\<lparr>sha256 := (\<lambda>b. [])\<rparr>) t = signChallenge (demoLib\<lparr>sha256 := (\<lambda>b. [])\<rparr>) u \<and> clash (demoLib\<lparr>sha256 := (\<lambda>b. [])\<rparr>) [utf8 t] [utf8 u]"
proof -
  let ?L = "demoLib\<lparr>sha256 := (\<lambda>b. [])\<rparr>"
  have "checkParts (signParts (demoSign ''approve'')) = Inr ()" "checkParts (signParts (demoSign ''review'')) = Inr ()" by code_simp+
  then obtain t u where e: "encodeSignText (demoSign ''approve'') = Inr t" "encodeSignText (demoSign ''review'') = Inr u" by (simp add: encodeSignText_iff)
  have c: "signChallenge ?L t = signChallenge ?L u" by (simp add: signChallenge_def)
  have "demoSign ''approve'' \<noteq> demoSign ''review''" by (simp add: demoSign_def)
  with sign_challenge_binds [OF e c] e c show ?thesis by blast
qed

end
