(* ===== verification/Approval_Rules.thy ===== *)
theory Approval_Rules
  imports Policy
begin

text \<open>
  \<open>lib/approvals/rules.ts\<close>: who may decide a step of an approval, when a step is satisfied, and how a
  request moves through its steps. A route that ends with an approval has passed every step
  that applies, each by enough persons, none of them the requester.
\<close>

section \<open>Data\<close>

text \<open>Functions, roles and users are their texts; an absent field is \<open>None\<close>.\<close>

record candidate =
  cUserId :: string
  cOrgRole :: string
  cFunctions :: "string list"
  cHolderFunctions :: "string list option"
  cCustomRoleIds :: "string list option"
  cCanDecide :: "bool option"

record delegation =
  dlFrom :: string
  dlTo :: string

record eligCtx =
  ecRequester :: "string option"
  ecOwner :: "string option"
  ecApproverFn :: "string option"
  ecDelegations :: "delegation list option"

text \<open>A condition on the facts of a trigger (\<open>db/schema/grc.ts\<close>).\<close>

datatype condValue = CvStr string | CvNum int | CvList "string list"

record approvalCondition =
  acField :: string
  acOp :: string
  acValue :: "condValue option"

datatype skipReason = ByRequester string | ByCondition | ByVacant

record approvalStep =
  stOrder :: int
  stRule :: string
  stApprovers :: "string list option"
  stMode :: "string option"
  stMin :: "int option"
  stSlaDays :: "int option"
  stLabel :: "string option"
  stSkipIf :: "string list option"
  stOnlyIf :: "approvalCondition list option"
  stEveryone :: "bool option"
  stSignature :: "bool option"
  stExpandedFrom :: "string list option"
  stGiven :: "string list option"
  stSkipped :: "skipReason option"

datatype verdictT = Approved | Rejected | ChangesRequested

record decisionT =
  dnVerdict :: verdictT
  dnRule :: "string option"
  dnApprover :: "string option"

section \<open>Who may decide\<close>

definition stepRules :: "approvalStep \<Rightarrow> string list" where
  "stepRules s = (case stApprovers s of None \<Rightarrow> [stRule s] | Some as \<Rightarrow> if as \<noteq> [] then as else [stRule s])"

definition parseRule :: "string \<Rightarrow> string \<times> string" where
  "parseRule r =
     (if CHR '':'' \<in> set r then (takeWhile (\<lambda>c. c \<noteq> CHR '':'') r, tl (dropWhile (\<lambda>c. c \<noteq> CHR '':'') r)) else (r, []))"

definition matchesRule :: "string \<Rightarrow> candidate \<Rightarrow> eligCtx \<Rightarrow> bool" where
  "matchesRule r c ctx =
     (let (kind, value) = parseRule r in
      if kind = ''function'' then value \<in> set (cFunctions c)
      else if kind = ''role'' then
        cOrgRole c = value \<or> (value = ''editor'' \<and> cOrgRole c = ''owner'') \<or>
        value \<in> set (case cCustomRoleIds c of None \<Rightarrow> [] | Some ids \<Rightarrow> ids)
      else if kind = ''user'' then cUserId c = value
      else if kind = ''owner_of_entity'' then (case ecOwner ctx of None \<Rightarrow> False | Some u \<Rightarrow> u \<noteq> [] \<and> cUserId c = u)
      else if kind = ''approver_of_entity'' then (case ecApproverFn ctx of None \<Rightarrow> False | Some f \<Rightarrow> f \<noteq> [] \<and> f \<in> set (cFunctions c))
      else if kind = ''not_requester'' then ecRequester ctx \<noteq> Some (cUserId c)
      else False)"

datatype eligibility = Direct "string list" | ViaDelegation string "string list" | FourEyes | RuleNotMet

fun eligible :: "eligibility \<Rightarrow> bool" where
  "eligible (Direct rs) = True"
| "eligible (ViaDelegation u rs) = True"
| "eligible FourEyes = False"
| "eligible RuleNotMet = False"

fun eligibleRules :: "eligibility \<Rightarrow> string list" where
  "eligibleRules (Direct rs) = rs"
| "eligibleRules (ViaDelegation u rs) = rs"
| "eligibleRules FourEyes = []"
| "eligibleRules RuleNotMet = []"

fun viaDelegation :: "string list \<Rightarrow> candidate \<Rightarrow> eligCtx \<Rightarrow> candidate list \<Rightarrow> delegation list \<Rightarrow> eligibility" where
  "viaDelegation rules c ctx members [] = RuleNotMet"
| "viaDelegation rules c ctx members (d # ds) =
     (if dlTo d \<noteq> cUserId c then viaDelegation rules c ctx members ds
      else if ecRequester ctx = Some (dlFrom d) then viaDelegation rules c ctx members ds
      else let via = (case List.find (\<lambda>m. cUserId m = dlFrom d) members of
             None \<Rightarrow> [] | Some prin \<Rightarrow> filter (\<lambda>r. matchesRule r prin ctx) rules) in
      if via \<noteq> [] then ViaDelegation (dlFrom d) via else viaDelegation rules c ctx members ds)"

definition approverEligibility :: "approvalStep \<Rightarrow> candidate \<Rightarrow> eligCtx \<Rightarrow> candidate list \<Rightarrow> eligibility" where
  "approverEligibility s c ctx members =
     (if (case ecRequester ctx of None \<Rightarrow> False | Some r \<Rightarrow> r \<noteq> [] \<and> cUserId c = r) then FourEyes
      else if cCanDecide c = Some False then RuleNotMet
      else let rules = stepRules s; direct = filter (\<lambda>r. matchesRule r c ctx) rules in
      if direct \<noteq> [] then Direct direct
      else viaDelegation rules c ctx members (case ecDelegations ctx of None \<Rightarrow> [] | Some ds \<Rightarrow> ds))"

definition eligibleApprovers :: "approvalStep \<Rightarrow> candidate list \<Rightarrow> eligCtx \<Rightarrow> candidate list" where
  "eligibleApprovers s members ctx = filter (\<lambda>m. eligible (approverEligibility s m ctx members)) members"

text \<open>\<open>Number.parseInt\<close> of the first character is a digit or not a number.\<close>

definition soloModeAllowed :: "int \<Rightarrow> bool \<Rightarrow> string \<Rightarrow> bool" where
  "soloModeAllowed memberCount allowSelf licenceStage \<longleftrightarrow>
     memberCount \<le> 1 \<and> allowSelf \<and> (case licenceStage of [] \<Rightarrow> False | c # r \<Rightarrow> is_digit c \<and> digit_val c < 2)"

text \<open>A date is its milliseconds.\<close>

definition slaDueAt :: "approvalStep \<Rightarrow> int \<Rightarrow> int option" where
  "slaDueAt s from =
     (case stSlaDays s of None \<Rightarrow> None | Some n \<Rightarrow> if n \<le> 0 then None else Some (from + n * 86400000))"

section \<open>The way through the steps\<close>

text \<open>The next step after an order; \<open>None\<close> stands for minus infinity.\<close>

definition nextActiveStep :: "approvalStep list \<Rightarrow> int option \<Rightarrow> int option" where
  "nextActiveStep steps after =
     (case sort (map stOrder (filter (\<lambda>s. stSkipped s = None \<and> (case after of None \<Rightarrow> True | Some a \<Rightarrow> a < stOrder s)) steps)) of
        [] \<Rightarrow> None | n # r \<Rightarrow> Some n)"

definition firstActiveStep :: "approvalStep list \<Rightarrow> int option" where
  "firstActiveStep steps = nextActiveStep steps None"

definition requiredOf :: "approvalStep \<Rightarrow> int" where
  "requiredOf s = (case stMin s of None \<Rightarrow> 1 | Some n \<Rightarrow> n)"

text \<open>Different persons; a decision without one counts under its position.\<close>

definition distinctPersons :: "decisionT list \<Rightarrow> int" where
  "distinctPersons ds =
     int (card (set (map (\<lambda>(i, d). case dnApprover d of Some u \<Rightarrow> u | None \<Rightarrow> CHR ''#'' # show_nat i) (List.enumerate 0 ds))))"

definition approvalsOf :: "decisionT list \<Rightarrow> decisionT list" where
  "approvalsOf ds = filter (\<lambda>d. dnVerdict d = Approved) ds"

definition ofRule :: "string \<Rightarrow> decisionT list \<Rightarrow> decisionT list" where
  "ofRule r ds = filter (\<lambda>d. dnRule d = Some r) ds"

definition stepSatisfied :: "approvalStep \<Rightarrow> decisionT list \<Rightarrow> bool" where
  "stepSatisfied s ds =
     (let required = requiredOf s; approvals = approvalsOf ds in
      if stMode s = Some ''all'' \<and> length (stepRules s) > 1
      then list_all (\<lambda>r. distinctPersons (ofRule r approvals) \<ge> required) (stepRules s)
      else distinctPersons approvals \<ge> required)"

definition openRules :: "approvalStep \<Rightarrow> decisionT list \<Rightarrow> string list" where
  "openRules s ds =
     (if stMode s \<noteq> Some ''all'' then []
      else filter (\<lambda>r. int (length (ofRule r (approvalsOf ds))) < requiredOf s) (stepRules s))"

datatype outcome = Pending int | OutApproved | OutRejected | OutChanges

definition advance :: "approvalStep list \<Rightarrow> int \<Rightarrow> decisionT list \<Rightarrow> outcome" where
  "advance steps current ds =
     (if \<exists>d\<in>set ds. dnVerdict d = Rejected then OutRejected
      else if \<exists>d\<in>set ds. dnVerdict d = ChangesRequested then OutChanges
      else case List.find (\<lambda>s. stOrder s = current) steps of
        Some s \<Rightarrow>
          if \<not> stepSatisfied s ds then Pending current
          else (case nextActiveStep steps (Some current) of None \<Rightarrow> OutApproved | Some n \<Rightarrow> Pending n)
      | None \<Rightarrow> (case nextActiveStep steps (Some current) of None \<Rightarrow> OutApproved | Some n \<Rightarrow> Pending n))"

definition canDecideNow :: "approvalStep \<Rightarrow> candidate \<Rightarrow> eligCtx \<Rightarrow> candidate list \<Rightarrow> decisionT list \<Rightarrow> bool" where
  "canDecideNow s c ctx members ds =
     (let e = approverEligibility s c ctx members in
      if \<not> eligible e then False
      else if \<exists>d\<in>set ds. dnApprover d = Some (cUserId c) then False
      else if stMode s = Some ''all'' \<and> length (stepRules s) > 1
      then \<exists>r\<in>set (eligibleRules e). r \<in> set (openRules s ds)
      else True)"

definition ruleStates :: "approvalStep \<Rightarrow> decisionT list \<Rightarrow> (string \<times> bool) list" where
  "ruleStates s ds =
     (if stMode s \<noteq> Some ''all'' \<or> length (stepRules s) < 2 then []
      else map (\<lambda>r. (r, r \<notin> set (openRules s ds))) (stepRules s))"

section \<open>Lemmas\<close>

abbreviation applies :: "approvalStep \<Rightarrow> bool" where
  "applies s \<equiv> stSkipped s = None"

lemma sort_head: "sort xs = n # r \<Longrightarrow> n \<in> set xs \<and> (\<forall>m\<in>set xs. n \<le> m)" for n :: int
  by (metis list.set_intros(1) set_ConsD set_sort sorted_simps(2) sorted_sort order_refl)

lemma nextActiveStep_Some:
  "nextActiveStep steps after = Some n \<Longrightarrow>
     (\<exists>s\<in>set steps. applies s \<and> stOrder s = n) \<and> (\<forall>a. after = Some a \<longrightarrow> a < n) \<and>
     (\<forall>s\<in>set steps. applies s \<and> (\<forall>a. after = Some a \<longrightarrow> a < stOrder s) \<longrightarrow> n \<le> stOrder s)"
  by (cases after) (auto simp: nextActiveStep_def split: list.splits dest!: sort_head)

lemma nextActiveStep_None:
  "nextActiveStep steps after = None \<longleftrightarrow> (\<forall>s\<in>set steps. applies s \<longrightarrow> (\<exists>a. after = Some a \<and> stOrder s \<le> a))"
proof -
  let ?f = "filter (\<lambda>s. applies s \<and> (case after of None \<Rightarrow> True | Some a \<Rightarrow> a < stOrder s)) steps"
  have "nextActiveStep steps after = None \<longleftrightarrow> sort (map stOrder ?f) = []"
    unfolding nextActiveStep_def by (simp split: list.split)
  also have "\<dots> \<longleftrightarrow> ?f = []" by (simp only: length_0_conv [symmetric] length_sort length_map)
  also have "\<dots> \<longleftrightarrow> (\<forall>s\<in>set steps. applies s \<longrightarrow> (\<exists>a. after = Some a \<and> stOrder s \<le> a))"
    by (cases after) (auto simp: filter_empty_conv not_less)
  finally show ?thesis .
qed

lemma find_order:
  assumes "distinct (map stOrder steps)" "s \<in> set steps"
  shows "List.find (\<lambda>x. stOrder x = stOrder s) steps = Some s"
proof -
  from assms(2) have "List.find (\<lambda>x. stOrder x = stOrder s) steps \<noteq> None" by (auto simp: find_None_iff)
  then obtain x where x: "List.find (\<lambda>x. stOrder x = stOrder s) steps = Some x" by blast
  then have "x \<in> set steps" "stOrder x = stOrder s" by (auto simp: find_Some_iff)
  with assms have "x = s" by (auto simp: distinct_map inj_on_def)
  with x show ?thesis by simp
qed

lemma viaDelegation_entitled:
  "eligible (viaDelegation rules c ctx members ds) \<Longrightarrow>
     \<exists>d\<in>set ds. \<exists>m\<in>set members. \<exists>r\<in>set rules. dlTo d = cUserId c \<and> ecRequester ctx \<noteq> Some (dlFrom d) \<and> cUserId m = dlFrom d \<and> matchesRule r m ctx"
proof (induction rules c ctx members ds rule: viaDelegation.induct)
  case (1 rules c ctx members)
  then show ?case by simp
next
  case (2 rules c ctx members d ds)
  show ?case
  proof (cases "dlTo d = cUserId c \<and> ecRequester ctx \<noteq> Some (dlFrom d) \<and>
      (\<exists>m. List.find (\<lambda>m. cUserId m = dlFrom d) members = Some m \<and> filter (\<lambda>r. matchesRule r m ctx) rules \<noteq> [])")
    case True
    then obtain m where m: "List.find (\<lambda>m. cUserId m = dlFrom d) members = Some m" "filter (\<lambda>r. matchesRule r m ctx) rules \<noteq> []" by blast
    from m(1) have "m \<in> set members" "cUserId m = dlFrom d" by (auto simp: find_Some_iff)
    moreover from m(2) obtain r where "r \<in> set rules" "matchesRule r m ctx" by (auto simp: filter_empty_conv)
    ultimately show ?thesis using True by auto
  next
    case False
    then have "viaDelegation rules c ctx members (d # ds) = viaDelegation rules c ctx members ds"
      by (auto simp: Let_def split: option.splits)
    with 2 False show ?thesis by (auto simp: Let_def split: option.splits if_splits)
  qed
qed

text \<open>One move of a request: the decisions on the current step let it go on.\<close>

inductive moves :: "approvalStep list \<Rightarrow> (int \<Rightarrow> decisionT list) \<Rightarrow> int \<Rightarrow> int \<Rightarrow> bool" for steps D where
  m_next: "advance steps a (D a) = Pending b \<Longrightarrow> b \<noteq> a \<Longrightarrow> moves steps D a b"

inductive_simps moves_iff: "moves steps D a b"

lemma advance_on:
  assumes "advance steps a ds = Pending b" "b \<noteq> a"
  shows "nextActiveStep steps (Some a) = Some b"
  using assms by (auto simp: advance_def split: if_splits option.splits)

lemma advance_past:
  assumes "advance steps a ds = out" "out = OutApproved \<or> (\<exists>b. out = Pending b \<and> b \<noteq> a)" "List.find (\<lambda>s. stOrder s = a) steps = Some s"
  shows "stepSatisfied s ds \<and> (\<forall>d\<in>set ds. dnVerdict d = Approved)"
proof -
  have none: "\<not> (\<exists>d\<in>set ds. dnVerdict d = Rejected)" "\<not> (\<exists>d\<in>set ds. dnVerdict d = ChangesRequested)"
    using assms(1,2) by (auto simp: advance_def split: if_splits)
  then have "\<forall>d\<in>set ds. dnVerdict d = Approved" using verdictT.exhaust by metis
  moreover have "stepSatisfied s ds" using assms none by (cases "stepSatisfied s ds") (auto simp: advance_def)
  ultimately show ?thesis by blast
qed

text \<open>What holds when a request is at a step: it applies, and those before it are settled.\<close>

definition passed :: "approvalStep list \<Rightarrow> (int \<Rightarrow> decisionT list) \<Rightarrow> approvalStep \<Rightarrow> bool" where
  "passed steps D s \<longleftrightarrow> stepSatisfied s (D (stOrder s)) \<and> (\<forall>d\<in>set (D (stOrder s)). dnVerdict d = Approved)"

definition reachedStep :: "approvalStep list \<Rightarrow> (int \<Rightarrow> decisionT list) \<Rightarrow> int \<Rightarrow> bool" where
  "reachedStep steps D c \<longleftrightarrow> (\<exists>s\<in>set steps. applies s \<and> stOrder s = c) \<and> (\<forall>s\<in>set steps. applies s \<and> stOrder s < c \<longrightarrow> passed steps D s)"

lemma reached_start: "firstActiveStep steps = Some f \<Longrightarrow> reachedStep steps D f"
  unfolding firstActiveStep_def reachedStep_def by (drule nextActiveStep_Some) fastforce

lemma reached_move:
  assumes d: "distinct (map stOrder steps)" and r: "reachedStep steps D a" and m: "moves steps D a b"
  shows "reachedStep steps D b"
proof -
  from m have adv: "advance steps a (D a) = Pending b" "b \<noteq> a" by (simp_all add: moves_iff)
  note n = nextActiveStep_Some [OF advance_on [OF adv]]
  from r obtain s where s: "s \<in> set steps" "stOrder s = a" by (auto simp: reachedStep_def)
  have "passed steps D s" using advance_past [OF adv(1) _ find_order [OF d s(1), unfolded s(2)]] adv(2) s(2) by (simp add: passed_def)
  moreover have "x = s" if "x \<in> set steps" "stOrder x = a" for x using that s d by (auto simp: distinct_map inj_on_def)
  ultimately show ?thesis using r n unfolding reachedStep_def by (metis linorder_neqE_linordered_idom not_less option.inject)
qed

lemma reached_moves:
  "(moves steps D)\<^sup>*\<^sup>* f c \<Longrightarrow> distinct (map stOrder steps) \<Longrightarrow> firstActiveStep steps = Some f \<Longrightarrow> reachedStep steps D c"
  by (induction rule: rtranclp_induct) (auto intro: reached_start reached_move)

lemma moves_later: "moves steps D a b \<Longrightarrow> a < b \<and> b \<in> stOrder ` {s \<in> set steps. applies s}"
proof -
  assume "moves steps D a b"
  then have "advance steps a (D a) = Pending b" "b \<noteq> a" by (simp_all add: moves_iff)
  from nextActiveStep_Some [OF advance_on [OF this]] show ?thesis by auto
qed

lemma moves_count:
  "(moves steps D ^^ n) f c \<Longrightarrow> f \<in> stOrder ` {s \<in> set steps. applies s} \<Longrightarrow>
     n < card {x \<in> stOrder ` {s \<in> set steps. applies s}. x \<le> c}"
proof (induction n arbitrary: c)
  case 0
  then have "f \<in> {x \<in> stOrder ` {s \<in> set steps. applies s}. x \<le> c}" by simp
  moreover have "finite {x \<in> stOrder ` {s \<in> set steps. applies s}. x \<le> c}" by simp
  ultimately show ?case by (metis card_gt_0_iff empty_iff)
next
  case (Suc n)
  then obtain b where b: "(moves steps D ^^ n) f b" "moves steps D b c" by auto
  let ?A = "stOrder ` {s \<in> set steps. applies s}"
  have "insert c {x \<in> ?A. x \<le> b} \<subseteq> {x \<in> ?A. x \<le> c}" using moves_later [OF b(2)] by auto
  moreover have "c \<notin> {x \<in> ?A. x \<le> b}" using moves_later [OF b(2)] by auto
  moreover have "finite {x \<in> ?A. x \<le> c}" "finite {x \<in> ?A. x \<le> b}" by simp_all
  ultimately have "Suc (card {x \<in> ?A. x \<le> b}) \<le> card {x \<in> ?A. x \<le> c}" by (metis (no_types, lifting) card_insert_disjoint card_mono)
  with Suc.IH [OF b(1) Suc.prems(2)] show ?case by simp
qed

section \<open>The properties\<close>

text \<open>
  C32. Only an entitled person decides: never the requester, never somebody without the right to decide, nobody
  twice on a step, and only with a rule of the step that the person meets, or that
  somebody meets who is not the requester and is represented by the person.
\<close>

theorem decider_is_entitled:
  assumes "canDecideNow s c ctx members ds"
  shows "(\<forall>r. ecRequester ctx = Some r \<and> r \<noteq> [] \<longrightarrow> cUserId c \<noteq> r) \<and> cCanDecide c \<noteq> Some False \<and>
    (\<forall>d\<in>set ds. dnApprover d \<noteq> Some (cUserId c)) \<and>
    (\<exists>r\<in>set (stepRules s). matchesRule r c ctx \<or>
      (\<exists>d\<in>set (case ecDelegations ctx of None \<Rightarrow> [] | Some ds \<Rightarrow> ds). \<exists>m\<in>set members.
        dlTo d = cUserId c \<and> ecRequester ctx \<noteq> Some (dlFrom d) \<and> cUserId m = dlFrom d \<and> matchesRule r m ctx))"
proof -
  let ?e = "approverEligibility s c ctx members"
  from assms have e: "eligible ?e" and twice: "\<forall>d\<in>set ds. dnApprover d \<noteq> Some (cUserId c)"
    by (auto simp: canDecideNow_def Let_def split: if_splits)
  from e have fe: "\<forall>r. ecRequester ctx = Some r \<and> r \<noteq> [] \<longrightarrow> cUserId c \<noteq> r" and cd: "cCanDecide c \<noteq> Some False"
    by (auto simp: approverEligibility_def split: if_splits)
  show ?thesis
  proof (cases "filter (\<lambda>r. matchesRule r c ctx) (stepRules s) = []")
    case False
    with fe cd twice show ?thesis by (auto simp: filter_empty_conv)
  next
    case True
    then have "eligible (viaDelegation (stepRules s) c ctx members (case ecDelegations ctx of None \<Rightarrow> [] | Some ds \<Rightarrow> ds))"
      using e fe cd by (auto simp: approverEligibility_def Let_def split: if_splits)
    from viaDelegation_entitled [OF this] fe cd twice show ?thesis by blast
  qed
qed

definition demoPerson :: "string \<Rightarrow> candidate" where
  "demoPerson u = \<lparr>cUserId = u, cOrgRole = ''editor'', cFunctions = [], cHolderFunctions = None, cCustomRoleIds = None, cCanDecide = None\<rparr>"

definition demoStep :: "int \<Rightarrow> string \<Rightarrow> approvalStep" where
  "demoStep n r = \<lparr>stOrder = n, stRule = r, stApprovers = None, stMode = None, stMin = None, stSlaDays = None, stLabel = None, stSkipIf = None,
     stOnlyIf = None, stEveryone = None, stSignature = None, stExpandedFrom = None, stGiven = None, stSkipped = None\<rparr>"

definition demoEligCtx :: eligCtx where
  "demoEligCtx = \<lparr>ecRequester = Some ''a'', ecOwner = None, ecApproverFn = None, ecDelegations = Some [\<lparr>dlFrom = ''b'', dlTo = ''c''\<rparr>]\<rparr>"

text \<open>A step for \<open>b\<close>, decided by the representative \<open>c\<close>.\<close>

theorem decider_is_entitled_witness:
  "canDecideNow (demoStep 1 ''user:b'') (demoPerson ''c'') demoEligCtx [demoPerson ''b'', demoPerson ''c''] [] \<and>
   (\<exists>r\<in>set (stepRules (demoStep 1 ''user:b'')). matchesRule r (demoPerson ''c'') demoEligCtx \<or>
      (\<exists>d\<in>set [\<lparr>dlFrom = ''b'', dlTo = ''c''\<rparr>]. \<exists>m\<in>set [demoPerson ''b'', demoPerson ''c''].
        dlTo d = ''c'' \<and> cUserId m = dlFrom d \<and> matchesRule r m demoEligCtx))"
proof -
  have c: "canDecideNow (demoStep 1 ''user:b'') (demoPerson ''c'') demoEligCtx [demoPerson ''b'', demoPerson ''c''] []" by code_simp
  have ds: "(case ecDelegations demoEligCtx of None \<Rightarrow> [] | Some ds \<Rightarrow> ds) = [\<lparr>dlFrom = ''b'', dlTo = ''c''\<rparr>]" "cUserId (demoPerson ''c'') = ''c''"
    by (simp_all add: demoEligCtx_def demoPerson_def)
  from decider_is_entitled [OF c, unfolded ds] c show ?thesis by blast
qed

text \<open>A request that ends approved has passed every step that applies.\<close>

lemma approved_passed:
  assumes "distinct (map stOrder steps)" "firstActiveStep steps = Some f" "(moves steps D)\<^sup>*\<^sup>* f c" "advance steps c (D c) = OutApproved"
    "s \<in> set steps" "stSkipped s = None"
  shows "stepSatisfied s (D (stOrder s)) \<and> (\<forall>d\<in>set (D (stOrder s)). dnVerdict d = Approved)"
proof -
  have r: "reachedStep steps D c" by (rule reached_moves [OF assms(3,1,2)])
  from r obtain t where t: "t \<in> set steps" "stOrder t = c" by (auto simp: reachedStep_def)
  have pt: "passed steps D t" using advance_past [OF assms(4) _ find_order [OF assms(1) t(1), unfolded t(2)]] t(2) by (simp add: passed_def)
  have "nextActiveStep steps (Some c) = None" using assms(4) by (auto simp: advance_def split: if_splits option.splits)
  then have "stOrder s \<le> c" using assms(5,6) by (auto simp: nextActiveStep_None)
  then have "passed steps D s"
    using r pt assms(1,5,6) t unfolding reachedStep_def by (metis distinct_map inj_onD order_le_less)
  then show ?thesis by (simp add: passed_def)
qed

text \<open>Three steps of which the second does not apply.\<close>

definition demoSteps :: "approvalStep list" where
  "demoSteps = [demoStep 1 ''user:b'', (demoStep 2 ''user:c'')\<lparr>stSkipped := Some ByCondition\<rparr>, demoStep 3 ''user:c'']"

definition demoDecisions :: "int \<Rightarrow> decisionT list" where
  "demoDecisions n = [\<lparr>dnVerdict = Approved, dnRule = None, dnApprover = Some (if n = 1 then ''b'' else ''c'')\<rparr>]"

lemma demo_moves: "firstActiveStep demoSteps = Some 1" "moves demoSteps demoDecisions 1 3"
  unfolding moves_iff by code_simp+

text \<open>
  C33. Every route ends: a request makes fewer moves than the route has steps that apply, whatever is decided.
\<close>

theorem route_ends:
  assumes "firstActiveStep steps = Some f" "(moves steps D ^^ n) f c"
  shows "n < length (filter (\<lambda>s. stSkipped s = None) steps)"
proof -
  let ?A = "stOrder ` {s \<in> set steps. applies s}"
  have "f \<in> ?A" using nextActiveStep_Some [of steps None f] assms(1) by (auto simp: firstActiveStep_def)
  then have "n < card {x \<in> ?A. x \<le> c}" by (rule moves_count [OF assms(2)])
  also have "\<dots> \<le> card ?A" by (rule card_mono) auto
  also have "\<dots> \<le> card (set (filter applies steps))" using card_image_le [of "set (filter applies steps)" stOrder] by simp
  also have "\<dots> \<le> length (filter applies steps)" by (rule card_length)
  finally show ?thesis .
qed

theorem route_ends_witness:
  "(moves demoSteps demoDecisions ^^ 1) 1 3 \<and> 1 < length (filter (\<lambda>s. stSkipped s = None) demoSteps)"
proof -
  have m: "(moves demoSteps demoDecisions ^^ 1) 1 3" using demo_moves(2) relpowp_1 [of "moves demoSteps demoDecisions"] by metis
  from route_ends [OF demo_moves(1) m] m show ?thesis by blast
qed

text \<open>
  Where every person decides once, the rules still open are those that keep a step of all rules from
  being satisfied; \<open>stepSatisfied\<close> counts persons, \<open>openRules\<close> decisions.
\<close>

lemma distinctPersons_once:
  assumes "distinct (map dnApprover ds)" "None \<notin> set (map dnApprover ds)"
  shows "distinctPersons ds = int (length ds)"
proof -
  let ?f = "\<lambda>(i, d). case dnApprover d of Some u \<Rightarrow> u | None \<Rightarrow> CHR ''#'' # show_nat i"
  have step: "map ?f (List.enumerate n ds) = map (\<lambda>d. the (dnApprover d)) ds" if "None \<notin> set (map dnApprover ds)" for n ds
    using that by (induction ds arbitrary: n) (auto split: option.split)
  have m: "map ?f (List.enumerate 0 ds) = map the (map dnApprover ds)" using step [OF assms(2), of 0] by (simp only: map_map comp_def)
  have "inj_on the (set (map dnApprover ds))" using assms(2) by (intro inj_onI) (metis option.exhaust_sel)
  then have "distinct (map the (map dnApprover ds))" using assms(1) by (simp only: distinct_map)
  then show ?thesis unfolding distinctPersons_def m using distinct_card [of "map the (map dnApprover ds)"] by (simp only: length_map)
qed

lemma open_rules_are_unsatisfied:
  assumes "stMode s = Some ''all''" "1 < length (stepRules s)" "distinct (map dnApprover ds)" "None \<notin> set (map dnApprover ds)"
  shows "stepSatisfied s ds \<longleftrightarrow> openRules s ds = []"
proof -
  have "distinctPersons (ofRule r (approvalsOf ds)) = int (length (ofRule r (approvalsOf ds)))" for r
    by (rule distinctPersons_once) (use assms(3,4) in \<open>auto simp: ofRule_def approvalsOf_def distinct_map intro: inj_on_subset\<close>)
  with assms(1,2) show ?thesis by (auto simp: stepSatisfied_def openRules_def Let_def list_all_iff filter_empty_conv not_less)
qed

end
