(* ===== verification/Approval_Route.thy ===== *)
theory Approval_Route
  imports Approval_Rules
begin

text \<open>
  \<open>lib/approvals/route.ts\<close>: which workflow applies, which of its steps apply to a request, who is asked on a
  step of all persons, and how the steps of the designer are stored. A fact is a boolean, an
  integer or a text; the trigger of a workflow is the one \<open>triggerOf\<close> finds in the catalogue.
\<close>

section \<open>Conditions\<close>

datatype factV = FNull | FBool bool | FNum int | FStr string

type_synonym facts = "(string \<times> factV) list"

text \<open>\<open>String(v)\<close> and \<open>Number(v)\<close>; \<open>None\<close> is \<open>NaN\<close>.\<close>

fun factText :: "factV \<Rightarrow> string" where
  "factText FNull = ''null''"
| "factText (FBool b) = (if b then ''true'' else ''false'')"
| "factText (FNum n) = show_int n"
| "factText (FStr s) = s"

fun condText :: "condValue option \<Rightarrow> string" where
  "condText None = ''undefined''"
| "condText (Some (CvStr s)) = s"
| "condText (Some (CvNum n)) = show_int n"
| "condText (Some (CvList xs)) = join (CHR '','') xs"

fun condNumber :: "condValue option \<Rightarrow> rat option" where
  "condNumber None = None"
| "condNumber (Some (CvStr s)) = toNumber s"
| "condNumber (Some (CvNum n)) = Some (of_int n)"
| "condNumber (Some (CvList xs)) = toNumber (join (CHR '','') xs)"

text \<open>The value of a field that is neither missing nor \<open>null\<close>.\<close>

definition present :: "facts \<Rightarrow> string \<Rightarrow> factV option" where
  "present fs k = (case map_of fs k of None \<Rightarrow> None | Some FNull \<Rightarrow> None | Some v \<Rightarrow> Some v)"

definition conditionHolds :: "approvalCondition \<Rightarrow> facts \<Rightarrow> bool" where
  "conditionHolds c fs =
     (let v = map_of fs (acField c); op = acOp c; p = present fs (acField c) in
      if op = ''is_true'' then v = Some (FBool True)
      else if op = ''is_false'' then v = Some (FBool False)
      else if op = ''eq'' then (case p of None \<Rightarrow> False | Some x \<Rightarrow> factText x = condText (acValue c))
      else if op = ''neq'' then (case p of None \<Rightarrow> False | Some x \<Rightarrow> factText x \<noteq> condText (acValue c))
      else if op = ''in'' then (case (acValue c, p) of (Some (CvList xs), Some x) \<Rightarrow> factText x \<in> set xs | _ \<Rightarrow> False)
      else if op = ''gte'' then (case (v, condNumber (acValue c)) of (Some (FNum n), Some m) \<Rightarrow> of_int n \<ge> m | _ \<Rightarrow> False)
      else if op = ''lte'' then (case (v, condNumber (acValue c)) of (Some (FNum n), Some m) \<Rightarrow> of_int n \<le> m | _ \<Rightarrow> False)
      else False)"

definition matchConditions :: "approvalCondition list option \<Rightarrow> facts \<Rightarrow> bool" where
  "matchConditions cs fs = list_all (\<lambda>c. conditionHolds c fs) (case cs of None \<Rightarrow> [] | Some xs \<Rightarrow> xs)"

section \<open>The workflow of a trigger\<close>

record workflowLike =
  wfTrigger :: "string option"
  wfEnabled :: bool
  wfConditions :: "approvalCondition list option"
  wfPriority :: "int option"
  wfCustom :: "bool option"

definition priorityOf :: "workflowLike \<Rightarrow> int" where
  "priorityOf w = (case wfPriority w of None \<Rightarrow> 0 | Some n \<Rightarrow> n)"

definition customRank :: "workflowLike \<Rightarrow> int" where
  "customRank w = (if wfCustom w = Some True then 0 else 1)"

text \<open>The stable sort by priority and then by kind: sorting by the second key first.\<close>

definition selectWorkflow :: "workflowLike list \<Rightarrow> string \<Rightarrow> facts \<Rightarrow> workflowLike option" where
  "selectWorkflow ws trigger fs =
     List.find (\<lambda>w. matchConditions (wfConditions w) fs)
       (sort_key (\<lambda>w. - priorityOf w) (sort_key customRank (filter (\<lambda>w. wfEnabled w \<and> wfTrigger w = Some trigger) ws)))"

section \<open>Steps of a request\<close>

definition MANAGEMENT_RULE :: string where
  "MANAGEMENT_RULE = ''function:management_body''"

definition resolveEntityApprover :: "string list \<Rightarrow> string option \<Rightarrow> string list" where
  "resolveEntityApprover rules fn =
     uniq (concat (map (\<lambda>r. if r = ''approver_of_entity''
       then (case fn of None \<Rightarrow> [] | Some f \<Rightarrow> if f = [] then [] else [''function:'' @ f]) else [r]) rules))"

definition stepVacant :: "string list \<Rightarrow> candidate list \<Rightarrow> bool" where
  "stepVacant rules cands =
     (if rules = [] then True
      else list_all (\<lambda>r. let (kind, value) = parseRule r in
        kind = ''function'' \<and> r \<noteq> MANAGEMENT_RULE \<and> \<not> (\<exists>c\<in>set cands. value \<in> set (cFunctions c))) rules)"

text \<open>Holds a rule of a step of all persons: holders of a function count, representatives do not.\<close>

definition holdsRule :: "eligCtx \<Rightarrow> candidate \<Rightarrow> string \<Rightarrow> bool" where
  "holdsRule ctx c r =
     (let (kind, value) = parseRule r in
      if kind = ''function'' then value \<in> set (case cHolderFunctions c of None \<Rightarrow> cFunctions c | Some fs \<Rightarrow> fs)
      else if kind = ''role'' \<or> kind = ''user'' then matchesRule r c ctx
      else False)"

definition peopleOf :: "string list \<Rightarrow> candidate list \<Rightarrow> eligCtx \<Rightarrow> string list \<Rightarrow> string list" where
  "peopleOf rules cands ctx exclude =
     uniq (map cUserId (filter (\<lambda>c. cUserId c \<notin> set exclude \<and> (\<exists>r\<in>set rules. holdsRule ctx c r)) cands))"

definition expandEveryone :: "approvalStep \<Rightarrow> candidate list \<Rightarrow> eligCtx \<Rightarrow> string list \<Rightarrow> approvalStep" where
  "expandEveryone s cands ctx exclude =
     (let rules = stepRules s; people = peopleOf rules cands ctx exclude; requester = ecRequester ctx in
      if people = [] then s
      else let b0 = s\<lparr>stEveryone := Some True, stExpandedFrom := Some rules\<rparr>;
        b = (case requester of None \<Rightarrow> b0
             | Some q \<Rightarrow> if q \<noteq> [] \<and> q \<in> set people then b0\<lparr>stGiven := Some [q]\<rparr> else b0);
        others = sort (filter (\<lambda>u. Some u \<noteq> requester) people) in
      if others = [] then b\<lparr>stSkipped := Some (ByRequester (case rules of [] \<Rightarrow> [] | r # rs \<Rightarrow> r))\<rparr>
      else let approvers = map (\<lambda>u. ''user:'' @ u) others in
        b\<lparr>stMin := None, stRule := hd approvers, stApprovers := Some approvers, stMode := Some ''all''\<rparr>)"

record routeInput =
  riRequester :: "candidate option"
  riFacts :: facts
  riCandidates :: "candidate list"
  riCtx :: eligCtx
  riExclude :: "string list"

record routeWarning =
  rwOrder :: int
  rwRule :: "string option"

record plannedRoute =
  prSteps :: "approvalStep list"
  prFirst :: "int option"
  prWarnings :: "routeWarning list"

text \<open>After the resolution of the approver of the entity.\<close>

definition planResolved :: "routeInput \<Rightarrow> approvalStep \<Rightarrow> approvalStep" where
  "planResolved inp s =
     (if (case stOnlyIf s of None \<Rightarrow> False | Some cs \<Rightarrow> \<not> matchConditions (Some cs) (riFacts inp)) then s\<lparr>stSkipped := Some ByCondition\<rparr>
      else case (case riRequester inp of None \<Rightarrow> None
          | Some q \<Rightarrow> List.find (\<lambda>r. matchesRule r q (riCtx inp)) (case stSkipIf s of None \<Rightarrow> [] | Some rs \<Rightarrow> rs)) of
        Some hit \<Rightarrow> s\<lparr>stSkipped := Some (ByRequester hit)\<rparr>
      | None \<Rightarrow>
          if stepVacant (stepRules s) (riCandidates inp) then s\<lparr>stSkipped := Some ByVacant\<rparr>
          else if stEveryone s = Some True then expandEveryone s (riCandidates inp) (riCtx inp) (riExclude inp)
          else s)"

definition planStep :: "routeInput \<Rightarrow> approvalStep \<Rightarrow> approvalStep" where
  "planStep inp s0 =
     (let s = s0\<lparr>stSkipped := None, stGiven := None, stExpandedFrom := None\<rparr> in
      if ''approver_of_entity'' \<in> set (stepRules s)
      then let rules = resolveEntityApprover (stepRules s) (ecApproverFn (riCtx inp)) in
        if rules = [] then s\<lparr>stSkipped := Some ByVacant\<rparr>
        else planResolved inp (s\<lparr>stRule := hd rules, stApprovers := Some rules\<rparr>)
      else planResolved inp s)"

definition warningsOf :: "routeInput \<Rightarrow> approvalStep \<Rightarrow> routeWarning list" where
  "warningsOf inp s =
     (if stSkipped s \<noteq> None then []
      else if stMode s = Some ''all'' \<and> length (stepRules s) > 1
      then map (\<lambda>r. \<lparr>rwOrder = stOrder s, rwRule = Some r\<rparr>)
        (filter (\<lambda>r. eligibleApprovers (s\<lparr>stApprovers := Some [r], stRule := r\<rparr>) (riCandidates inp) (riCtx inp) = []) (stepRules s))
      else if eligibleApprovers s (riCandidates inp) (riCtx inp) = [] then [\<lparr>rwOrder = stOrder s, rwRule = None\<rparr>] else [])"

definition planRoute :: "approvalStep list \<Rightarrow> routeInput \<Rightarrow> plannedRoute" where
  "planRoute steps inp =
     (let planned = map (planStep inp) (sort_key stOrder steps) in
      \<lparr>prSteps = planned, prFirst = firstActiveStep planned, prWarnings = concat (map (warningsOf inp) planned)\<rparr>)"

section \<open>Steps of the designer\<close>

definition nonBlank :: "string option \<Rightarrow> string option" where
  "nonBlank v = (case v of None \<Rightarrow> None | Some s \<Rightarrow> if trim s = [] then None else Some (trim s))"

definition nonEmpty :: "'a list option \<Rightarrow> 'a list option" where
  "nonEmpty v = (case v of Some (x # xs) \<Rightarrow> Some (x # xs) | _ \<Rightarrow> None)"

definition above :: "int \<Rightarrow> int option \<Rightarrow> int option" where
  "above m v = (case v of None \<Rightarrow> None | Some n \<Rightarrow> if n > m then Some n else None)"

text \<open>The fields that are set on the fresh step; all others are absent.\<close>

definition normalizeStep :: "int \<Rightarrow> approvalStep \<Rightarrow> approvalStep" where
  "normalizeStep n s =
     (let approvers = filter (\<lambda>r. r \<noteq> []) (map trim (stepRules s)); several = length approvers > 1 in
      \<lparr>stOrder = n, stRule = (case approvers of [] \<Rightarrow> stRule s | r # rs \<Rightarrow> r),
       stApprovers = (if several then Some approvers else None),
       stMode = (if several then Some (if stMode s = Some ''all'' then ''all'' else ''any'') else None),
       stMin = above 1 (stMin s), stSlaDays = above 0 (stSlaDays s), stLabel = nonBlank (stLabel s),
       stSkipIf = nonEmpty (stSkipIf s), stOnlyIf = nonEmpty (stOnlyIf s),
       stEveryone = (if stEveryone s = Some True then Some True else None), stSignature = None,
       stExpandedFrom = None, stGiven = None, stSkipped = None\<rparr>)"

definition normalizeSteps :: "approvalStep list \<Rightarrow> approvalStep list" where
  "normalizeSteps steps = map (\<lambda>(i, s). normalizeStep (int i + 1) s) (List.enumerate 0 (sort_key stOrder steps))"

section \<open>Lemmas\<close>

lemma planResolved_order [simp]: "stOrder (planResolved inp s) = stOrder s"
  by (simp add: planResolved_def expandEveryone_def Let_def split: option.split)

lemma planStep_order [simp]: "stOrder (planStep inp s) = stOrder s"
  by (simp add: planStep_def Let_def)

lemma planned_orders: "map stOrder (prSteps (planRoute steps inp)) = map stOrder (sort_key stOrder steps)"
  by (simp add: planRoute_def Let_def)

lemma normalized_orders: "map stOrder (normalizeSteps steps) = map (\<lambda>i. int i + 1) [0..<length steps]"
proof -
  have "map stOrder (map (\<lambda>(i, s). normalizeStep (int i + 1) s) (List.enumerate n xs)) = map (\<lambda>i. int i + 1) [n..<n + length xs]" for n xs
    by (induction xs arbitrary: n) (simp_all add: normalizeStep_def Let_def upt_rec)
  from this [of 0 "sort_key stOrder steps"] show ?thesis by (simp add: normalizeSteps_def)
qed

lemma designed_orders: "distinct (map stOrder (prSteps (planRoute (normalizeSteps steps) inp)))"
proof -
  have "distinct (map stOrder (normalizeSteps steps))" by (simp add: normalized_orders distinct_map inj_on_def)
  then have "distinct (map stOrder (sort_key stOrder (normalizeSteps steps)))" by (simp add: distinct_map)
  then show ?thesis by (simp only: planned_orders)
qed

lemma peopleOf_iff: "u \<in> set (peopleOf rules cands ctx ex) \<longleftrightarrow>
    (\<exists>c\<in>set cands. cUserId c = u \<and> u \<notin> set ex \<and> (\<exists>r\<in>set rules. holdsRule ctx c r))"
  by (auto simp: peopleOf_def)

text \<open>A step of all persons that stays asks exactly the holders other than the requester.\<close>

lemma expandEveryone_rules:
  assumes "peopleOf (stepRules s) cands ctx ex \<noteq> []" "stSkipped (expandEveryone s cands ctx ex) = None"
  shows "stepRules (expandEveryone s cands ctx ex) =
      map (\<lambda>u. ''user:'' @ u) (sort (filter (\<lambda>u. Some u \<noteq> ecRequester ctx) (peopleOf (stepRules s) cands ctx ex))) \<and>
    stMode (expandEveryone s cands ctx ex) = Some ''all'' \<and> stMin (expandEveryone s cands ctx ex) = None"
  using assms by (auto simp: expandEveryone_def stepRules_def [of "s\<lparr>stApprovers := a\<rparr>" for a] Let_def split: if_splits option.splits) (auto simp: stepRules_def)

lemma distinctPersons_pos: "1 \<le> distinctPersons ds \<Longrightarrow> ds \<noteq> []"
  by (auto simp: distinctPersons_def)

lemma find_best: "sorted (map f xs) \<Longrightarrow> List.find P xs = Some w \<Longrightarrow> P w \<and> w \<in> set xs \<and> (\<forall>v\<in>set xs. P v \<longrightarrow> f w \<le> f v)"
  by (induction xs) (auto split: if_splits)

section \<open>The properties\<close>

text \<open>
  The workflow that is chosen is enabled for the trigger, its conditions hold, and no other one that
  could apply has a higher priority; none is chosen only if none could apply.
\<close>

theorem chosen_workflow_has_priority:
  shows "case selectWorkflow ws t fs of
      None \<Rightarrow> \<not> (\<exists>v\<in>set ws. wfEnabled v \<and> wfTrigger v = Some t \<and> matchConditions (wfConditions v) fs)
    | Some w \<Rightarrow> w \<in> set ws \<and> wfEnabled w \<and> wfTrigger w = Some t \<and> matchConditions (wfConditions w) fs \<and>
        \<not> (\<exists>v\<in>set ws. wfEnabled v \<and> wfTrigger v = Some t \<and> matchConditions (wfConditions v) fs \<and> priorityOf v > priorityOf w)"
proof -
  let ?P = "\<lambda>w. matchConditions (wfConditions w) fs"
  let ?xs = "sort_key (\<lambda>w. - priorityOf w) (sort_key customRank (filter (\<lambda>w. wfEnabled w \<and> wfTrigger w = Some t) ws))"
  have mem: "w \<in> set ?xs \<longleftrightarrow> w \<in> set ws \<and> wfEnabled w \<and> wfTrigger w = Some t" for w by auto
  have srt: "sorted (map (\<lambda>w. - priorityOf w) ?xs)" by (rule sorted_sort_key)
  show ?thesis
  proof (cases "selectWorkflow ws t fs")
    case None
    then have "\<forall>x\<in>set ?xs. \<not> ?P x" by (auto simp: selectWorkflow_def find_None_iff)
    then show ?thesis unfolding None using mem by auto
  next
    case (Some w)
    then have "List.find ?P ?xs = Some w" by (simp only: selectWorkflow_def)
    note b = find_best [OF srt this]
    from b mem have "w \<in> set ws \<and> wfEnabled w \<and> wfTrigger w = Some t \<and> ?P w" by blast
    moreover have "priorityOf v \<le> priorityOf w" if "v \<in> set ws" "wfEnabled v" "wfTrigger v = Some t" "?P v" for v
    proof -
      from that mem [of v] have "v \<in> set ?xs" "?P v" by blast+
      with b have "- priorityOf w \<le> - priorityOf v" by blast
      then show ?thesis by simp
    qed
    ultimately show ?thesis unfolding Some by (auto simp: not_less)
  qed
qed

text \<open>
  A step of the management is never dropped as vacant: wherever its function is one of the rules of a step,
  the step stays or another reason is given.
\<close>

theorem management_never_vacant:
  assumes "s \<in> set (prSteps (planRoute steps inp))" "stSkipped s = Some ByVacant"
  shows "MANAGEMENT_RULE \<notin> set (stepRules s)"
proof -
  have vac: "stepVacant rs cs \<Longrightarrow> MANAGEMENT_RULE \<notin> set rs" for rs cs
    by (auto simp: stepVacant_def list_all_iff Let_def split: if_splits)
  have ev: "stSkipped (expandEveryone x cs ctx ex) \<noteq> Some ByVacant" if "stSkipped x = None" for x cs ctx ex
    using that by (simp add: expandEveryone_def Let_def split: option.split)
  have same: "stepRules (x\<lparr>stSkipped := a\<rparr>) = stepRules x" for x :: approvalStep and a by (simp add: stepRules_def split: option.split)
  have res: "MANAGEMENT_RULE \<notin> set (stepRules (planResolved inp x))" if p: "stSkipped (planResolved inp x) = Some ByVacant" and n: "stSkipped x = None" for x
  proof -
    define A where "A = (case stOnlyIf x of None \<Rightarrow> False | Some cs \<Rightarrow> \<not> matchConditions (Some cs) (riFacts inp))"
    define H where "H = (case riRequester inp of None \<Rightarrow> None
      | Some q \<Rightarrow> List.find (\<lambda>r. matchesRule r q (riCtx inp)) (case stSkipIf x of None \<Rightarrow> [] | Some rs \<Rightarrow> rs))"
    let ?V = "stepVacant (stepRules x) (riCandidates inp)" and ?E = "expandEveryone x (riCandidates inp) (riCtx inp) (riExclude inp)"
    have e: "planResolved inp x = (if A then x\<lparr>stSkipped := Some ByCondition\<rparr> else case H of Some hit \<Rightarrow> x\<lparr>stSkipped := Some (ByRequester hit)\<rparr>
        | None \<Rightarrow> if ?V then x\<lparr>stSkipped := Some ByVacant\<rparr> else if stEveryone x = Some True then ?E else x)"
      unfolding planResolved_def A_def H_def by (rule refl)
    have "stSkipped ?E \<noteq> Some ByVacant" by (rule ev [OF n])
    then have "?V \<and> planResolved inp x = x\<lparr>stSkipped := Some ByVacant\<rparr>"
      using p n unfolding e by (cases A; cases H; cases ?V; cases "stEveryone x = Some True") simp_all
    then have "MANAGEMENT_RULE \<notin> set (stepRules x)" and e: "planResolved inp x = x\<lparr>stSkipped := Some ByVacant\<rparr>" using vac by blast+
    then show ?thesis unfolding e same by blast
  qed
  from assms(1) obtain x where x: "s = planStep inp x" by (auto simp: planRoute_def Let_def)
  let ?y = "x\<lparr>stSkipped := None, stGiven := None, stExpandedFrom := None\<rparr>"
  show ?thesis
  proof (cases "''approver_of_entity'' \<in> set (stepRules ?y) \<and> resolveEntityApprover (stepRules ?y) (ecApproverFn (riCtx inp)) = []")
    case True
    then have "\<forall>r\<in>set (stepRules ?y). r = ''approver_of_entity''"
      by (auto simp: resolveEntityApprover_def uniq_def split: if_splits)
    with True x show ?thesis by (auto simp: planStep_def Let_def MANAGEMENT_RULE_def stepRules_def split: option.splits if_splits)
  next
    case False
    let ?rs = "resolveEntityApprover (stepRules ?y) (ecApproverFn (riCtx inp))"
    have "s = planResolved inp (?y\<lparr>stRule := hd ?rs, stApprovers := Some ?rs\<rparr>) \<or> s = planResolved inp ?y"
      using False x by (simp add: planStep_def Let_def split: if_splits)
    then obtain y where "s = planResolved inp y" "stSkipped y = None" by fastforce
    with assms(2) show ?thesis using res by blast
  qed
qed

definition demoInput :: routeInput where
  "demoInput = \<lparr>riRequester = None, riFacts = [], riCandidates = [demoPerson ''b'', demoPerson ''c''], riCtx = demoEligCtx, riExclude = []\<rparr>"

theorem management_never_vacant_witness:
  "\<exists>s\<in>set (prSteps (planRoute [demoStep 1 ''function:ciso''] demoInput)). stSkipped s = Some ByVacant \<and> MANAGEMENT_RULE \<notin> set (stepRules s)"
proof -
  have p: "map stSkipped (prSteps (planRoute [demoStep 1 ''function:ciso''] demoInput)) = [Some ByVacant]" by code_simp
  then obtain s where s: "s \<in> set (prSteps (planRoute [demoStep 1 ''function:ciso''] demoInput))" "stSkipped s = Some ByVacant" by auto
  with management_never_vacant [OF s] show ?thesis by blast
qed

text \<open>
  C34. A route made in the designer is complete: the planned steps have different orders, and a request that
  ends approved has every step that was not dropped satisfied by its own decisions, without a rejection.
\<close>

theorem designed_route_is_complete:
  assumes "prSteps (planRoute (normalizeSteps ds) inp) = steps" "prFirst (planRoute (normalizeSteps ds) inp) = Some f"
    "(moves steps D)\<^sup>*\<^sup>* f c" "advance steps c (D c) = OutApproved" "s \<in> set steps" "stSkipped s = None"
  shows "distinct (map stOrder steps) \<and> stepSatisfied s (D (stOrder s)) \<and> (\<forall>d\<in>set (D (stOrder s)). dnVerdict d = Approved)"
proof -
  have o: "distinct (map stOrder steps)" using designed_orders [of ds inp] assms(1) by simp
  have "firstActiveStep steps = Some f" using assms(1,2) by (simp add: planRoute_def Let_def)
  from o approved_passed [OF o this assms(3-6)] show ?thesis by blast
qed

definition designed :: "approvalStep list" where
  "designed = [demoStep 9 ''user:c'', demoStep 5 ''user:b'']"

theorem designed_route_is_complete_witness:
  "\<exists>steps c. prSteps (planRoute (normalizeSteps designed) demoInput) = steps \<and> (moves steps demoDecisions)\<^sup>*\<^sup>* 1 c \<and>
     advance steps c (demoDecisions c) = OutApproved \<and> demoStep 2 ''user:c'' \<in> set steps \<and> distinct (map stOrder steps) \<and>
     stepSatisfied (demoStep 2 ''user:c'') (demoDecisions 2)"
proof -
  let ?r = "planRoute (normalizeSteps designed) demoInput"
  have st: "prSteps ?r = [demoStep 1 ''user:b'', demoStep 2 ''user:c'']" by code_simp
  have f: "prFirst ?r = Some 1" by code_simp
  have "moves [demoStep 1 ''user:b'', demoStep 2 ''user:c''] demoDecisions 1 2" unfolding moves_iff by code_simp
  then have m: "(moves [demoStep 1 ''user:b'', demoStep 2 ''user:c''] demoDecisions)\<^sup>*\<^sup>* 1 2" by blast
  have a: "advance [demoStep 1 ''user:b'', demoStep 2 ''user:c''] 2 (demoDecisions 2) = OutApproved" by code_simp
  have s: "demoStep 2 ''user:c'' \<in> set [demoStep 1 ''user:b'', demoStep 2 ''user:c'']" "stSkipped (demoStep 2 ''user:c'') = None"
    "stOrder (demoStep 2 ''user:c'') = 2" by (simp_all add: demoStep_def)
  from designed_route_is_complete [OF st f m a s(1,2)] s(3)
  have "distinct (map stOrder [demoStep 1 ''user:b'', demoStep 2 ''user:c''])" "stepSatisfied (demoStep 2 ''user:c'') (demoDecisions 2)" by simp_all
  with st m a s(1) show ?thesis by blast
qed

text \<open>
  On a step of all persons everybody signs: each holder of the position other than the requester and those
  excluded is a rule of the step, the requester is none, and several of them satisfy the
  step only with an approval of each.
\<close>

theorem everyone_has_a_say:
  assumes "t = expandEveryone s cands ctx ex" "stSkipped t = None" "c \<in> set cands" "cUserId c \<notin> set ex" "r \<in> set (stepRules s)" "holdsRule ctx c r"
    "ecRequester ctx \<noteq> Some (cUserId c)"
  shows "''user:'' @ cUserId c \<in> set (stepRules t) \<and> (\<forall>q. ecRequester ctx = Some q \<longrightarrow> ''user:'' @ q \<notin> set (stepRules t)) \<and>
    (stepSatisfied t ds \<and> 1 < length (stepRules t) \<longrightarrow> (\<exists>d\<in>set ds. dnVerdict d = Approved \<and> dnRule d = Some (''user:'' @ cUserId c)))"
proof -
  have u: "cUserId c \<in> set (peopleOf (stepRules s) cands ctx ex)" using assms(3-6) peopleOf_iff by blast
  then have "peopleOf (stepRules s) cands ctx ex \<noteq> []" by auto
  from expandEveryone_rules [OF this assms(2) [unfolded assms(1)], folded assms(1)]
  have t: "stepRules t = map (\<lambda>u. ''user:'' @ u) (sort (filter (\<lambda>u. Some u \<noteq> ecRequester ctx) (peopleOf (stepRules s) cands ctx ex)))"
    "stMode t = Some ''all''" "stMin t = None" by simp_all
  have mem: "''user:'' @ cUserId c \<in> set (stepRules t)" using u assms(7) by (auto simp: t(1))
  moreover have "ecRequester ctx = Some q \<longrightarrow> ''user:'' @ q \<notin> set (stepRules t)" for q by (auto simp: t(1))
  moreover have "\<exists>d\<in>set ds. dnVerdict d = Approved \<and> dnRule d = Some (''user:'' @ cUserId c)" if "stepSatisfied t ds" "1 < length (stepRules t)"
  proof -
    from that mem t(2,3) have "1 \<le> distinctPersons (ofRule (''user:'' @ cUserId c) (approvalsOf ds))"
      by (auto simp: stepSatisfied_def Let_def list_all_iff requiredOf_def)
    from distinctPersons_pos [OF this] show ?thesis by (auto simp: ofRule_def approvalsOf_def filter_empty_conv)
  qed
  ultimately show ?thesis by blast
qed

definition managers :: "candidate list" where
  "managers = map (\<lambda>u. (demoPerson u)\<lparr>cFunctions := [''management_body'']\<rparr>) [''a'', ''b'', ''c'']"

theorem everyone_has_a_say_witness:
  "\<exists>t. t = expandEveryone (demoStep 1 MANAGEMENT_RULE) managers demoEligCtx [] \<and> stSkipped t = None \<and> ''user:b'' \<in> set (stepRules t) \<and>
     ''user:a'' \<notin> set (stepRules t)"
proof -
  let ?t = "expandEveryone (demoStep 1 MANAGEMENT_RULE) managers demoEligCtx []" and ?c = "(demoPerson ''b'')\<lparr>cFunctions := [''management_body'']\<rparr>"
  have "stSkipped ?t = None" by code_simp
  moreover have "?c \<in> set managers" "cUserId ?c = ''b''" by (simp_all add: managers_def demoPerson_def)
  moreover have "MANAGEMENT_RULE \<in> set (stepRules (demoStep 1 MANAGEMENT_RULE))" "holdsRule demoEligCtx ?c MANAGEMENT_RULE" by code_simp+
  moreover have "ecRequester demoEligCtx = Some ''a''" by (simp add: demoEligCtx_def)
  ultimately show ?thesis using everyone_has_a_say [of ?t "demoStep 1 MANAGEMENT_RULE" managers demoEligCtx "[]" ?c MANAGEMENT_RULE] by auto
qed

text \<open>
  Storing a workflow forgets that a step asks for a signature: whatever the designer is given for it, the
  stored steps are the same, and none of them asks for one.
\<close>

theorem designer_forgets_signature:
  "normalizeSteps (map (\<lambda>s. s\<lparr>stSignature := v\<rparr>) steps) = normalizeSteps steps \<and>
   list_all (\<lambda>s. stSignature s = None) (normalizeSteps steps)"
proof -
  have rules: "stepRules (s\<lparr>stSignature := v\<rparr>) = stepRules s" for s :: approvalStep by (simp add: stepRules_def split: option.split)
  have one: "normalizeStep n (s\<lparr>stSignature := v\<rparr>) = normalizeStep n s" for n and s :: approvalStep
    by (simp add: normalizeStep_def rules Let_def split: list.split)
  have "insort_key stOrder (s\<lparr>stSignature := v\<rparr>) (map (\<lambda>s. s\<lparr>stSignature := v\<rparr>) xs) = map (\<lambda>s. s\<lparr>stSignature := v\<rparr>) (insort_key stOrder s xs)"
    for s :: approvalStep and xs by (induction xs) simp_all
  then have "sort_key stOrder (map (\<lambda>s. s\<lparr>stSignature := v\<rparr>) steps) = map (\<lambda>s. s\<lparr>stSignature := v\<rparr>) (sort_key stOrder steps)" for steps :: "approvalStep list"
    by (induction steps) simp_all
  moreover have "map (\<lambda>(i, s). normalizeStep (int i + 1) s) (List.enumerate n (map (\<lambda>s. s\<lparr>stSignature := v\<rparr>) xs)) =
      map (\<lambda>(i, s). normalizeStep (int i + 1) s) (List.enumerate n xs)" for n xs
    by (induction xs arbitrary: n) (simp_all add: one)
  moreover have "list_all (\<lambda>s. stSignature s = None) (normalizeSteps steps)"
    by (auto simp: normalizeSteps_def normalizeStep_def Let_def list_all_iff)
  ultimately show ?thesis unfolding normalizeSteps_def by simp
qed

end
