(* ===== verification/Sync_Plan.thy ===== *)
theory Sync_Plan
  imports Prelude
begin

text \<open>
  \<open>lib/wallet/sync/plan.ts\<close>: the stored transfers against what the node reports. New ones are inserted,
  changed ones updated, vanished ones marked as dropped. Once a plan is carried out, the same
  report leaves nothing to do, and nothing that the node reports is ever dropped.
\<close>

section \<open>Data\<close>

datatype transferStatus = TPending | TConfirmed | TDropped

text \<open>A time is its milliseconds; \<open>direction\<close>, \<open>counterparty\<close> and address are carried along.\<close>

record transferObservation =
  obDirection :: string
  obAsset :: string
  obAmount :: int
  obTxid :: string
  obOutputRef :: string
  obAddress :: string
  obCounterparty :: "string option"
  obBlockHeight :: "int option"
  obBlockHash :: "string option"
  obBlockTime :: "int option"
  obConfirmations :: int
  obStatus :: transferStatus

record existingTransfer =
  etId :: string
  etTxid :: string
  etOutputRef :: string
  etAsset :: string
  etStatus :: transferStatus
  etConfirmations :: int
  etBlockHeight :: "int option"
  etBlockHash :: "string option"

record transferUpdate =
  tuId :: string
  tuStatus :: transferStatus
  tuConfirmations :: int
  tuBlockHeight :: "int option"
  tuBlockHash :: "string option"
  tuBlockTime :: "int option"
  tuBecameConfirmed :: bool
  tuRevived :: bool

record transferPlan =
  tpInserts :: "transferObservation list"
  tpUpdates :: "transferUpdate list"
  tpDrops :: "(string \<times> string) list"

definition transferKey :: "string \<Rightarrow> string \<Rightarrow> string \<Rightarrow> string" where
  "transferKey txid outputRef asset = txid @ ''|'' @ outputRef @ ''|'' @ asset"

definition obKey :: "transferObservation \<Rightarrow> string" where
  "obKey o1 = transferKey (obTxid o1) (obOutputRef o1) (obAsset o1)"

definition etKey :: "existingTransfer \<Rightarrow> string" where
  "etKey e = transferKey (etTxid e) (etOutputRef e) (etAsset e)"

section \<open>The plan\<close>

definition changed :: "existingTransfer \<Rightarrow> transferObservation \<Rightarrow> bool" where
  "changed e o1 \<longleftrightarrow> etStatus e \<noteq> obStatus o1 \<or> etConfirmations e \<noteq> obConfirmations o1 \<or>
     etBlockHash e \<noteq> obBlockHash o1 \<or> etBlockHeight e \<noteq> obBlockHeight o1"

definition updateOf :: "existingTransfer \<Rightarrow> transferObservation \<Rightarrow> transferUpdate" where
  "updateOf e o1 = \<lparr>tuId = etId e, tuStatus = obStatus o1, tuConfirmations = obConfirmations o1, tuBlockHeight = obBlockHeight o1,
     tuBlockHash = obBlockHash o1, tuBlockTime = obBlockTime o1,
     tuBecameConfirmed = (etStatus e \<noteq> TConfirmed \<and> obStatus o1 = TConfirmed), tuRevived = (etStatus e = TDropped)\<rparr>"

definition byKey :: "existingTransfer list \<Rightarrow> (string, existingTransfer) jsmap" where
  "byKey es = foldl (\<lambda>m e. mapSet m (etKey e) e) [] es"

text \<open>The loop over the report: the keys seen, the inserts and the updates.\<close>

fun observe :: "(string, existingTransfer) jsmap \<Rightarrow> string list \<Rightarrow> transferObservation list \<Rightarrow>
    string list \<times> transferObservation list \<times> transferUpdate list" where
  "observe m seen [] = (seen, [], [])"
| "observe m seen (o1 # os) =
     (if obKey o1 \<in> set seen then observe m seen os
      else let (s, ins, ups) = observe m (obKey o1 # seen) os in
        case mapGet m (obKey o1) of
          None \<Rightarrow> (s, o1 # ins, ups)
        | Some e \<Rightarrow> if changed e o1 then (s, ins, updateOf e o1 # ups) else (s, ins, ups))"

definition vanished :: "string list \<Rightarrow> (int \<times> int) option \<Rightarrow> existingTransfer \<Rightarrow> bool" where
  "vanished gone rescanned e \<longleftrightarrow> etTxid e \<in> set gone \<or>
     (case rescanned of None \<Rightarrow> False
      | Some (lo, hi) \<Rightarrow> etStatus e = TPending \<and> (case etBlockHeight e of None \<Rightarrow> True | Some h \<Rightarrow> h \<ge> lo \<and> h \<le> hi))"

definition planTransfers :: "existingTransfer list \<Rightarrow> transferObservation list \<Rightarrow> string list \<Rightarrow> (int \<times> int) option \<Rightarrow> transferPlan" where
  "planTransfers existing observed gone rescanned =
     (let (seen, ins, ups) = observe (byKey existing) [] observed in
      \<lparr>tpInserts = ins, tpUpdates = ups,
       tpDrops = map (\<lambda>e. (etId e, etTxid e))
         (filter (\<lambda>e. \<not> (etStatus e = TDropped \<or> etKey e \<in> set seen) \<and> vanished gone rescanned e) existing)\<rparr>)"

definition unseenPendingTxids :: "existingTransfer list \<Rightarrow> transferObservation list \<Rightarrow> string list" where
  "unseenPendingTxids existing observed =
     uniq (map etTxid (filter (\<lambda>e. etStatus e = TPending \<and> etTxid e \<notin> set (map obTxid observed)) existing))"

section \<open>Carrying out a plan\<close>

text \<open>
  What a plan asks for, as a specification: a dropped row changes its status, an updated one takes over
  what was reported, an inserted one is a new row with an id of its own.
\<close>

definition applyRow :: "transferPlan \<Rightarrow> existingTransfer \<Rightarrow> existingTransfer" where
  "applyRow p e =
     (if etId e \<in> set (map fst (tpDrops p)) then e\<lparr>etStatus := TDropped\<rparr>
      else case List.find (\<lambda>u. tuId u = etId e) (tpUpdates p) of None \<Rightarrow> e
      | Some u \<Rightarrow> e\<lparr>etStatus := tuStatus u, etConfirmations := tuConfirmations u, etBlockHeight := tuBlockHeight u, etBlockHash := tuBlockHash u\<rparr>)"

definition newRow :: "(transferObservation \<Rightarrow> string) \<Rightarrow> transferObservation \<Rightarrow> existingTransfer" where
  "newRow ident o1 = \<lparr>etId = ident o1, etTxid = obTxid o1, etOutputRef = obOutputRef o1, etAsset = obAsset o1, etStatus = obStatus o1,
     etConfirmations = obConfirmations o1, etBlockHeight = obBlockHeight o1, etBlockHash = obBlockHash o1\<rparr>"

definition applyPlan :: "(transferObservation \<Rightarrow> string) \<Rightarrow> existingTransfer list \<Rightarrow> transferPlan \<Rightarrow> existingTransfer list" where
  "applyPlan ident existing p = map (applyRow p) existing @ map (newRow ident) (tpInserts p)"

section \<open>Lemmas\<close>

text \<open>The observations that count: the first one of every key.\<close>

fun firsts :: "string list \<Rightarrow> transferObservation list \<Rightarrow> transferObservation list" where
  "firsts seen [] = []"
| "firsts seen (o1 # os) = (if obKey o1 \<in> set seen then firsts seen os else o1 # firsts (obKey o1 # seen) os)"

lemma observe_form:
  "observe m seen os =
     (rev (map obKey (firsts seen os)) @ seen,
      filter (\<lambda>o1. mapGet m (obKey o1) = None) (firsts seen os),
      concat (map (\<lambda>o1. case mapGet m (obKey o1) of None \<Rightarrow> [] | Some e \<Rightarrow> if changed e o1 then [updateOf e o1] else []) (firsts seen os)))"
  by (induction m seen os rule: observe.induct) (auto split: option.split)

lemma firsts_keys: "distinct (map obKey (firsts seen os)) \<and> set (map obKey (firsts seen os)) \<inter> set seen = {}"
  by (induction seen os rule: firsts.induct) auto

lemma firsts_seen: "set (map obKey (firsts seen os)) \<union> set seen = obKey ` set os \<union> set seen"
  by (induction seen os rule: firsts.induct) auto

lemma firsts_sub: "set (firsts seen os) \<subseteq> set os"
  by (induction seen os rule: firsts.induct) auto

lemma byKey_get:
  assumes "distinct (map etKey es)"
  shows "mapGet (byKey es) k = Some e \<longleftrightarrow> e \<in> set es \<and> etKey e = k"
proof -
  have "mapGet (foldl (\<lambda>m e. mapSet m (etKey e) e) m es) k = Some e \<longleftrightarrow>
      e \<in> set es \<and> etKey e = k \<or> k \<notin> etKey ` set es \<and> mapGet m k = Some e" if "distinct (map etKey es)" for m es
    using that by (induction es arbitrary: m) auto
  from this [OF assms, of "[]"] show ?thesis by (simp add: byKey_def)
qed

lemma byKey_none: "distinct (map etKey es) \<Longrightarrow> mapGet (byKey es) k = None \<longleftrightarrow> k \<notin> etKey ` set es"
  using byKey_get [of es k] by (metis (no_types, lifting) image_iff not_None_eq)

lemma keys_kept [simp]: "etKey (applyRow p e) = etKey e" "etKey (newRow ident o1) = obKey o1"
  by (simp_all add: applyRow_def newRow_def etKey_def obKey_def split: option.split)

lemma updates_iff:
  "x \<in> set (concat (map (\<lambda>o1. case h o1 of None \<Rightarrow> [] | Some e \<Rightarrow> if P e o1 then [g e o1] else []) fs)) \<longleftrightarrow>
     (\<exists>o1\<in>set fs. \<exists>e. h o1 = Some e \<and> P e o1 \<and> x = g e o1)"
proof (induction fs)
  case (Cons a fs)
  then show ?case by (cases "h a") auto
qed simp

text \<open>The parts of a plan.\<close>

lemma plan_parts:
  fixes es os gone resc
  defines "p \<equiv> planTransfers es os gone resc" and "fs \<equiv> firsts [] os"
  assumes d: "distinct (map etKey es)"
  shows "set (tpInserts p) = {o1 \<in> set fs. obKey o1 \<notin> etKey ` set es}"
    and "set (tpUpdates p) = {updateOf e o1 |e o1. o1 \<in> set fs \<and> e \<in> set es \<and> etKey e = obKey o1 \<and> changed e o1}"
    and "set (tpDrops p) = {(etId e, etTxid e) |e. e \<in> set es \<and> etStatus e \<noteq> TDropped \<and> etKey e \<notin> obKey ` set os \<and> vanished gone resc e}"
proof -
  have s: "set (rev (map obKey fs) @ []) = obKey ` set os" using firsts_seen [of "[]" os] by (simp add: fs_def)
  show "set (tpInserts p) = {o1 \<in> set fs. obKey o1 \<notin> etKey ` set es}"
    by (simp add: p_def planTransfers_def observe_form Let_def fs_def byKey_none [OF d])
  show "set (tpUpdates p) = {updateOf e o1 |e o1. o1 \<in> set fs \<and> e \<in> set es \<and> etKey e = obKey o1 \<and> changed e o1}"
    by (rule set_eqI) (auto simp: p_def planTransfers_def observe_form Let_def fs_def updates_iff byKey_get [OF d] simp del: set_concat set_map)
  show "set (tpDrops p) = {(etId e, etTxid e) |e. e \<in> set es \<and> etStatus e \<noteq> TDropped \<and> etKey e \<notin> obKey ` set os \<and> vanished gone resc e}"
    using s by (auto simp: p_def planTransfers_def observe_form Let_def fs_def)
qed

text \<open>Rows after a plan, by what was reported for their key.\<close>

lemma inj_rows: "distinct (map f xs) \<Longrightarrow> x \<in> set xs \<Longrightarrow> y \<in> set xs \<Longrightarrow> f x = f y \<Longrightarrow> x = y"
  by (auto simp: distinct_map dest: inj_onD)

lemma applyRow_reported:
  fixes es os gone resc
  defines "p \<equiv> planTransfers es os gone resc" and "fs \<equiv> firsts [] os"
  assumes d: "distinct (map etKey es)" and i: "distinct (map etId es)" and e: "e \<in> set es" and o1: "o1 \<in> set fs" "etKey e = obKey o1"
  shows "\<not> changed (applyRow p e) o1"
proof -
  note parts = plan_parts [OF d, where os = os and gone = gone and resc = resc, folded p_def fs_def]
  have seen: "obKey o1 \<in> obKey ` set os" using o1(1) firsts_sub [of "[]" os] by (auto simp: fs_def)
  have nd: "etId e \<notin> set (map fst (tpDrops p))"
  proof
    assume "etId e \<in> set (map fst (tpDrops p))"
    then have "etId e \<in> fst ` set (tpDrops p)" by simp
    then obtain e2 where e2: "e2 \<in> set es" "etId e2 = etId e" "etKey e2 \<notin> obKey ` set os" unfolding parts(3) by fastforce
    then have "e2 = e" using i e by (metis inj_rows)
    with e2(3) seen o1(2) show False by simp
  qed
  have unique: "o2 = o1" if "o2 \<in> set fs" "obKey o2 = etKey e" for o2
    using that o1 firsts_keys [of "[]" os] by (metis fs_def inj_rows)
  show ?thesis
  proof (cases "List.find (\<lambda>u. tuId u = etId e) (tpUpdates p)")
    case None
    have "\<not> changed e o1"
    proof
      assume "changed e o1"
      then have "updateOf e o1 \<in> set (tpUpdates p)" unfolding parts(2) using e o1 by blast
      with None show False by (auto simp: find_None_iff updateOf_def)
    qed
    with None nd show ?thesis by (simp add: applyRow_def)
  next
    case (Some u)
    then have u: "u \<in> set (tpUpdates p)" "tuId u = etId e" by (auto simp: find_Some_iff)
    then obtain e2 o2 where e2: "u = updateOf e2 o2" "o2 \<in> set fs" "e2 \<in> set es" "etKey e2 = obKey o2" unfolding parts(2) by blast
    then have "e2 = e" using u(2) i e by (metis inj_rows updateOf_def transferUpdate.select_convs(1))
    with e2 unique have "u = updateOf e o1" by metis
    with Some nd show ?thesis by (simp add: applyRow_def changed_def updateOf_def)
  qed
qed

lemma applyRow_unreported:
  fixes es os gone resc
  defines "p \<equiv> planTransfers es os gone resc"
  assumes d: "distinct (map etKey es)" and i: "distinct (map etId es)" and e: "e \<in> set es" and n: "etKey e \<notin> obKey ` set os"
  shows "etStatus (applyRow p e) = TDropped \<or> \<not> vanished gone resc (applyRow p e)"
proof (cases "etId e \<in> set (map fst (tpDrops p))")
  case True
  then show ?thesis by (simp add: applyRow_def)
next
  case False
  note parts = plan_parts [OF d, where os = os and gone = gone and resc = resc, folded p_def]
  have "List.find (\<lambda>u. tuId u = etId e) (tpUpdates p) = None"
  proof (rule ccontr)
    assume "List.find (\<lambda>u. tuId u = etId e) (tpUpdates p) \<noteq> None"
    then obtain u where "u \<in> set (tpUpdates p)" "tuId u = etId e" by (auto simp: find_None_iff)
    then obtain e2 o2 where e2: "u = updateOf e2 o2" "o2 \<in> set (firsts [] os)" "e2 \<in> set es" "etKey e2 = obKey o2" "etId e2 = etId e"
      unfolding parts(2) by (auto simp: updateOf_def)
    then have "e2 = e" using i e by (metis inj_rows)
    with e2 n firsts_sub [of "[]" os] show False by auto
  qed
  then have same: "applyRow p e = e" using False by (simp add: applyRow_def)
  have "etStatus e = TDropped \<or> \<not> vanished gone resc e"
  proof (rule ccontr)
    assume "\<not> (etStatus e = TDropped \<or> \<not> vanished gone resc e)"
    then have "(etId e, etTxid e) \<in> set (tpDrops p)" unfolding parts(3) using e n by blast
    with False show False by force
  qed
  with same show ?thesis by simp
qed

section \<open>The properties\<close>

text \<open>
  C35. A plan settles the report: once its inserts, updates and drops are carried out on stored transfers
  with different ids and keys, the same report leaves nothing to insert, to update or to drop.
\<close>

theorem plan_settles_report:
  assumes "distinct (map etKey es)" "distinct (map etId es)"
  shows "planTransfers (applyPlan ident es (planTransfers es os gone resc)) os gone resc = \<lparr>tpInserts = [], tpUpdates = [], tpDrops = []\<rparr>"
proof -
  let ?p = "planTransfers es os gone resc" and ?fs = "firsts [] os"
  let ?es = "applyPlan ident es ?p"
  note parts = plan_parts [OF assms(1), where os = os and gone = gone and resc = resc]
  have keys: "map etKey ?es = map etKey es @ map obKey (tpInserts ?p)" by (simp add: applyPlan_def comp_def)
  have ins: "tpInserts ?p = filter (\<lambda>o1. mapGet (byKey es) (obKey o1) = None) ?fs" by (simp add: planTransfers_def observe_form Let_def)
  have di: "distinct (map obKey (tpInserts ?p))" using firsts_keys [of "[]" os] unfolding ins by (auto simp: distinct_map intro: inj_on_subset)
  have d: "distinct (map etKey ?es)" unfolding keys using assms(1) di parts(1) by (auto simp: image_iff)
  have settled: "\<exists>e\<in>set ?es. etKey e = obKey o1 \<and> \<not> changed e o1" if o1: "o1 \<in> set ?fs" for o1
  proof (cases "obKey o1 \<in> etKey ` set es")
    case True
    then obtain e where e: "e \<in> set es" "etKey e = obKey o1" by auto
    with applyRow_reported [OF assms e(1) o1 e(2)] show ?thesis
      by (intro bexI [of _ "applyRow ?p e"]) (simp_all add: applyPlan_def)
  next
    case False
    then have "o1 \<in> set (tpInserts ?p)" unfolding parts(1) using o1 by blast
    then show ?thesis by (intro bexI [of _ "newRow ident o1"]) (auto simp: applyPlan_def changed_def newRow_def obKey_def etKey_def)
  qed
  have only: "\<not> changed e o1" if "o1 \<in> set ?fs" "e \<in> set ?es" "etKey e = obKey o1" for e o1
    using settled [OF that(1)] that d by (metis inj_rows)
  note now = plan_parts [OF d, where os = os and gone = gone and resc = resc]
  have "obKey o1 \<in> etKey ` set ?es" if "o1 \<in> set ?fs" for o1 using settled [OF that] by force
  then have "set (tpInserts (planTransfers ?es os gone resc)) = {}" unfolding now(1) by blast
  moreover have "set (tpUpdates (planTransfers ?es os gone resc)) = {}" unfolding now(2) using only by blast
  moreover have "set (tpDrops (planTransfers ?es os gone resc)) = {}"
  proof -
    have "etStatus e = TDropped \<or> \<not> vanished gone resc e" if e: "e \<in> set ?es" "etKey e \<notin> obKey ` set os" for e
    proof -
      from e(1) consider x where "x \<in> set es" "e = applyRow ?p x" | o1 where "o1 \<in> set (tpInserts ?p)" "e = newRow ident o1"
        by (auto simp: applyPlan_def)
      then show ?thesis
      proof cases
        case 1
        with applyRow_unreported [OF assms 1(1)] e(2) show ?thesis by simp
      next
        case 2
        then have "o1 \<in> set os" using firsts_sub [of "[]" os] unfolding parts(1) by auto
        with 2 e(2) show ?thesis by simp
      qed
    qed
    then show ?thesis unfolding now(3) by blast
  qed
  ultimately show ?thesis by (cases "planTransfers ?es os gone resc") simp
qed

definition demoStored :: "existingTransfer list" where
  "demoStored = [\<lparr>etId = ''1'', etTxid = ''aa'', etOutputRef = ''in:0'', etAsset = ''BTC'', etStatus = TPending, etConfirmations = 0, etBlockHeight = None, etBlockHash = None\<rparr>,
     \<lparr>etId = ''2'', etTxid = ''bb'', etOutputRef = ''in:0'', etAsset = ''BTC'', etStatus = TPending, etConfirmations = 0, etBlockHeight = None, etBlockHash = None\<rparr>]"

definition demoReport :: "string \<Rightarrow> transferObservation" where
  "demoReport t = \<lparr>obDirection = ''in'', obAsset = ''BTC'', obAmount = 5, obTxid = t, obOutputRef = ''in:0'', obAddress = [], obCounterparty = None,
     obBlockHeight = Some 9, obBlockHash = Some ''h'', obBlockTime = None, obConfirmations = 1, obStatus = TConfirmed\<rparr>"

theorem plan_settles_report_witness:
  "\<exists>p. planTransfers demoStored [demoReport ''aa'', demoReport ''cc''] [''bb''] None = p \<and> map tuId (tpUpdates p) = [''1''] \<and> map obTxid (tpInserts p) = [''cc''] \<and>
     tpDrops p = [(''2'', ''bb'')] \<and>
     planTransfers (applyPlan (\<lambda>o1. ''3'') demoStored p) [demoReport ''aa'', demoReport ''cc''] [''bb''] None = \<lparr>tpInserts = [], tpUpdates = [], tpDrops = []\<rparr>"
proof -
  let ?p = "planTransfers demoStored [demoReport ''aa'', demoReport ''cc''] [''bb''] None"
  have d: "distinct (map etKey demoStored)" "distinct (map etId demoStored)" by code_simp+
  have p: "map tuId (tpUpdates ?p) = [''1'']" "map obTxid (tpInserts ?p) = [''cc'']" "tpDrops ?p = [(''2'', ''bb'')]" by code_simp+
  show ?thesis by (intro exI [of _ ?p] conjI refl p plan_settles_report [OF d])
qed

end
