(* ===== verification/Custody.thy ===== *)
theory Custody
  imports Amount
begin

text \<open>
  \<open>lib/custody/decimal.ts\<close>, \<open>reconcile.ts\<close> and \<open>wallet-rules.ts\<close>: the daily reconciliation of client assets.
  The holdings on chain and the client book are summed per symbol; a gap beyond the tolerance is a shortfall
  or a surplus. The collation of the runtime (\<open>localeCompare\<close>) is the argument \<open>ck\<close>, a sort key of a
  symbol; calendar days are day numbers since 1970-01-01.
\<close>

section \<open>Decimals\<close>

definition SCALE :: nat where
  "SCALE = 18"

definition FACTOR :: int where
  "FACTOR = 10 ^ SCALE"

text \<open>\<open>/^(-)?(\d{1,24})(?:[.,](\d{1,18}))?$/\<close>: the sign, the whole digits, the fraction digits.\<close>

definition decimalPattern :: "string \<Rightarrow> (bool \<times> string \<times> string) option" where
  "decimalPattern s =
     (let neg = startsWith s ''-''; r = (if neg then drop 1 s else s);
          whole = takeWhile is_digit r; rest = dropWhile is_digit r in
      if whole = [] \<or> length whole > 24 then None
      else case rest of [] \<Rightarrow> Some (neg, whole, [])
        | c # fr \<Rightarrow>
            if (c = CHR ''.'' \<or> c = CHR '','') \<and> fr \<noteq> [] \<and> list_all is_digit fr \<and> length fr \<le> 18
            then Some (neg, whole, fr) else None)"

definition isDecimal :: "string \<Rightarrow> bool" where
  "isDecimal raw \<longleftrightarrow> decimalPattern (trim raw) \<noteq> None"

definition parseDecimal :: "string \<Rightarrow> int res" where
  "parseDecimal raw =
     (case decimalPattern (trim raw) of None \<Rightarrow> Inl (PlainError (''Kein Dezimalbetrag: '' @ raw))
      | Some (neg, whole, fr) \<Rightarrow>
          let v = bigInt whole * FACTOR + bigInt (padEnd SCALE fr) in Inr (if neg then - v else v))"

definition formatDecimal :: "int \<Rightarrow> string" where
  "formatDecimal v =
     (let neg = v < 0; a = (if neg then - v else v); whole = a div FACTOR;
          fr = stripZeros (padStart SCALE (show_int (a mod FACTOR))) in
      (if neg then ''-'' else []) @ show_int whole @ (if fr = [] then [] else CHR ''.'' # fr))"

definition absDecimal :: "int \<Rightarrow> int" where
  "absDecimal v = (if v < 0 then - v else v)"

section \<open>The reconciliation\<close>

record custodyLine =
  clSymbol :: string
  clWalletId :: "string option"
  clOnChain :: string
  clLedger :: string
  clTolerance :: string

record totals =
  toOnChain :: int
  toLedger :: int
  toTolerance :: int

datatype custodyState = SymbolOk | SymbolShortfall | SymbolSurplus

record symbolResult =
  srSymbol :: string
  srOnChain :: string
  srLedger :: string
  srDifference :: string
  srTolerance :: string
  srState :: custodyState

record reconcileResult =
  rrSymbols :: "symbolResult list"
  rrMatched :: bool
  rrShortfall :: bool

definition symbolKey :: "custodyLine \<Rightarrow> string" where
  "symbolKey l = toUpperCase (trim (clSymbol l))"

definition noTotals :: totals where
  "noTotals = \<lparr>toOnChain = 0, toLedger = 0, toTolerance = 0\<rparr>"

definition totalsAt :: "(string, totals) jsmap \<Rightarrow> string \<Rightarrow> totals" where
  "totalsAt m k = (case mapGet m k of None \<Rightarrow> noTotals | Some c \<Rightarrow> c)"

text \<open>One turn of the loop; the tolerance of a symbol is the largest one given.\<close>

definition bookLine :: "(string, totals) jsmap \<Rightarrow> custodyLine \<Rightarrow> (string, totals) jsmap res" where
  "bookLine m l =
     (let cur = totalsAt m (symbolKey l) in
      andThen (parseDecimal (clOnChain l)) (\<lambda>a.
      andThen (parseDecimal (clLedger l)) (\<lambda>b.
      andThen (parseDecimal (if clTolerance l = [] then ''0'' else clTolerance l)) (\<lambda>t.
        let tol = absDecimal t in
        Inr (mapSet m (symbolKey l) \<lparr>toOnChain = toOnChain cur + a, toLedger = toLedger cur + b,
          toTolerance = (if tol > toTolerance cur then tol else toTolerance cur)\<rparr>)))))"

fun bookAll :: "(string, totals) jsmap \<Rightarrow> custodyLine list \<Rightarrow> (string, totals) jsmap res" where
  "bookAll m [] = Inr m"
| "bookAll m (l # ls) = andThen (bookLine m l) (\<lambda>m'. bookAll m' ls)"

definition stateOf :: "totals \<Rightarrow> custodyState" where
  "stateOf v = (let diff = toOnChain v - toLedger v in
     if absDecimal diff \<le> toTolerance v then SymbolOk else if diff < 0 then SymbolShortfall else SymbolSurplus)"

definition symbolOf :: "string \<times> totals \<Rightarrow> symbolResult" where
  "symbolOf e = (let v = snd e in
     \<lparr>srSymbol = fst e, srOnChain = formatDecimal (toOnChain v), srLedger = formatDecimal (toLedger v),
      srDifference = formatDecimal (toOnChain v - toLedger v), srTolerance = formatDecimal (toTolerance v), srState = stateOf v\<rparr>)"

definition reconcile :: "(string \<Rightarrow> 'k::linorder) \<Rightarrow> custodyLine list \<Rightarrow> reconcileResult res" where
  "reconcile ck ls = andThen (bookAll [] ls) (\<lambda>m.
     let symbols = map symbolOf (sort_key (ck \<circ> fst) m) in
     Inr \<lparr>rrSymbols = symbols, rrMatched = list_all (\<lambda>s. srState s = SymbolOk) symbols,
       rrShortfall = list_ex (\<lambda>s. srState s = SymbolShortfall) symbols\<rparr>)"

text \<open>\<open>getUTCDay\<close> of a day number (day 0 was a Thursday), and the \<open>do \<dots> while\<close> loop.\<close>

definition utcDay :: "int \<Rightarrow> int" where
  "utcDay d = (d + 4) mod 7"

function previousBusinessDay :: "int \<Rightarrow> int" where
  "previousBusinessDay d =
     (if utcDay (d - 1) = 0 \<or> utcDay (d - 1) = 6 then previousBusinessDay (d - 1) else d - 1)"
  by pat_completeness auto
termination
proof (relation "measure (\<lambda>d. if utcDay d = 1 then 2 else if utcDay d = 0 then 1 else 0)")
  fix d :: int
  assume a: "utcDay (d - 1) = 0 \<or> utcDay (d - 1) = 6"
  have "utcDay (d - 1) = 0 \<Longrightarrow> utcDay d = 1" "utcDay (d - 1) = 6 \<Longrightarrow> utcDay d = 0"
    unfolding utcDay_def by presburger+
  with a show "(d - 1, d) \<in> measure (\<lambda>d. if utcDay d = 1 then 2 else if utcDay d = 0 then 1 else 0)" by auto
qed simp

declare previousBusinessDay.simps [simp del]

definition reviewerAllowed :: "string option \<Rightarrow> string \<Rightarrow> int \<Rightarrow> bool" where
  "reviewerAllowed preparedBy reviewer memberCount \<longleftrightarrow> memberCount \<le> 1 \<or> preparedBy \<noteq> Some reviewer"

section \<open>The wallet register\<close>

datatype walletKind = Hot | Warm | Cold
datatype walletTechnology = Multisig | Mpc | SingleKey | Hsm | SubCustodian
datatype walletPurpose = ForClients | ForOwn | ForOperations
datatype holderRole = SignerRole | BackupRole | RecoveryRole
datatype holderStatus = HolderProposed | HolderActive | HolderRejected | HolderRevoked
datatype walletIssue = QuorumExceedsSigners | SingleSignerClient | SingleKeyClient | SameSite | HolderNotVetted | HolderExpired
  | BackupTestOverdue | BackupTestMissing

record walletFacts =
  waKind :: walletKind
  waTechnology :: walletTechnology
  waPurpose :: walletPurpose
  waQuorumRequired :: int
  waQuorumTotal :: int
  waRetired :: bool
  waNextBackupTestDue :: "string option"
  waLastBackupTestAt :: "string option"

record holderFacts =
  hoRole :: holderRole
  hoStatus :: holderStatus
  hoSiteId :: "string option"
  hoVettedAt :: "string option"
  hoUntil :: "string option"

text \<open>A text field read as a condition: \<open>null\<close> and the empty text count as absent.\<close>

definition isSet :: "string option \<Rightarrow> bool" where
  "isSet x \<longleftrightarrow> (case x of None \<Rightarrow> False | Some s \<Rightarrow> s \<noteq> [])"

definition isPast :: "string option \<Rightarrow> string \<Rightarrow> bool" where
  "isPast x today \<longleftrightarrow> (case x of None \<Rightarrow> False | Some s \<Rightarrow> s \<noteq> [] \<and> s < today)"

definition walletIssues :: "walletFacts \<Rightarrow> holderFacts list \<Rightarrow> string \<Rightarrow> walletIssue list" where
  "walletIssues w holders today =
     (if waRetired w then [] else
      let active = filter (\<lambda>h. hoStatus h = HolderActive) holders;
          signers = filter (\<lambda>h. hoRole h = SignerRole) active;
          own = waTechnology w \<noteq> SubCustodian;
          sites = uniq (map hoSiteId (filter (\<lambda>h. isSet (hoSiteId h)) signers)) in
      (if own \<and> int (length signers) < waQuorumRequired w then [QuorumExceedsSigners] else []) @
      (if own \<and> waPurpose w = ForClients \<and> waQuorumRequired w < 2 then [SingleSignerClient] else []) @
      (if waPurpose w = ForClients \<and> waTechnology w = SingleKey then [SingleKeyClient] else []) @
      (if own \<and> length signers \<ge> 2 \<and> length sites = 1 \<and> list_all (\<lambda>h. isSet (hoSiteId h)) signers then [SameSite] else []) @
      (if list_ex (\<lambda>h. \<not> isSet (hoVettedAt h)) active then [HolderNotVetted] else []) @
      (if list_ex (\<lambda>h. isPast (hoUntil h) today) active then [HolderExpired] else []) @
      (if \<not> own then []
       else if \<not> isSet (waLastBackupTestAt w) then [BackupTestMissing]
       else if isPast (waNextBackupTestDue w) today then [BackupTestOverdue] else []))"

definition backupTestIntervalMonths :: "walletKind \<Rightarrow> nat" where
  "backupTestIntervalMonths k = (if k = Hot then 12 else 6)"

section \<open>Lemmas\<close>

lemma absDecimal_abs [simp]: "absDecimal v = \<bar>v\<bar>"
  by (simp add: absDecimal_def)

lemma formatDecimal_amount: "formatDecimal v = formatAmount v SCALE"
  by (auto simp: formatDecimal_def formatAmount_def FACTOR_def Let_def abs_if)

lemma decimalPattern_parts:
  assumes "list_all is_digit w" "w \<noteq> []" "length w \<le> 24" "list_all is_digit f" "length f \<le> 18"
  shows "decimalPattern ((if neg then ''-'' else []) @ w @ (if f = [] then [] else CHR ''.'' # f)) = Some (neg, w, f)"
proof -
  let ?t = "if f = [] then [] else CHR ''.'' # f"
  have t: "takeWhile is_digit (w @ ?t) = w \<and> dropWhile is_digit (w @ ?t) = ?t"
    by (rule takeWhile_digits_append [OF assms(1)]) (auto simp: not_digit_seps split: if_splits)
  have m: "\<not> is_digit (CHR ''-'')" by (simp add: is_digit_def cval_def)
  obtain c cs where w: "w = c # cs" using assms(2) by (cases w) auto
  have s: "startsWith (w @ ?t) ''-'' = False" using assms(1) m by (auto simp: w startsWith_def)
  show ?thesis
  proof (cases neg)
    case True
    then show ?thesis using t assms by (simp add: decimalPattern_def startsWith_def)
  next
    case False
    then show ?thesis using t s assms by (simp add: decimalPattern_def)
  qed
qed

lemma trim_decimal:
  assumes "list_all is_digit w" "list_all is_digit f"
  shows "trim ((if neg then ''-'' else []) @ w @ (if f = [] then [] else CHR ''.'' # f)) =
    (if neg then ''-'' else []) @ w @ (if f = [] then [] else CHR ''.'' # f)"
proof (rule trim_no_space)
  have "\<not> is_space (CHR ''.'')" "\<not> is_space (CHR ''-'')" by (simp_all add: is_space_def cval_def)
  with assms show "list_all (\<lambda>c. \<not> is_space c) ((if neg then ''-'' else []) @ w @ (if f = [] then [] else CHR ''.'' # f))"
    by (auto simp: list_all_iff digit_not_space)
qed

lemma parse_formatDecimal:
  assumes "\<bar>v\<bar> < 10 ^ 42"
  shows "parseDecimal (formatDecimal v) = Inr v"
proof -
  define a where "a = \<bar>v\<bar>"
  define w where "w = show_int (a div 10 ^ 18)"
  define f where "f = stripZeros (fracDigits a 18)"
  have a: "0 \<le> a" "a < 10 ^ 42" using assms by (simp_all add: a_def)
  then have q: "0 \<le> a div 10 ^ 18" "a div 10 ^ 18 < 10 ^ 24" by simp_all
  have w: "list_all is_digit w" "w \<noteq> []" "length w \<le> 24"
    using show_int_digits [OF q(1)] show_int_length [OF q] q(1) by (simp_all add: w_def show_int_def)
  have f: "list_all is_digit f" "length f \<le> 18" using frac_strip [OF a(1)] by (simp_all add: f_def)
  have t: "formatDecimal v = (if v < 0 then ''-'' else []) @ w @ (if f = [] then [] else CHR ''.'' # f)"
    by (simp add: formatDecimal_amount formatAmount_def SCALE_def Let_def w_def f_def fracDigits_def a_def)
  have "bigInt w * 10 ^ 18 + bigInt (padEnd 18 f) = a"
    using q(1) padEnd_frac [OF a(1), of 18] by (simp add: w_def f_def)
  then have "(if v < 0 then - (bigInt w * FACTOR + bigInt (padEnd SCALE f)) else bigInt w * FACTOR + bigInt (padEnd SCALE f)) = v"
    by (simp add: FACTOR_def SCALE_def a_def)
  then show ?thesis
    by (simp add: parseDecimal_def t trim_decimal [OF w(1) f(1)] decimalPattern_parts [OF w f] Let_def)
qed

text \<open>What the lines say of one symbol, as a specification.\<close>

definition decimalOf :: "string \<Rightarrow> int" where
  "decimalOf s = (case parseDecimal s of Inl e \<Rightarrow> 0 | Inr v \<Rightarrow> v)"

definition linesOf :: "string \<Rightarrow> custodyLine list \<Rightarrow> custodyLine list" where
  "linesOf k ls = filter (\<lambda>l. symbolKey l = k) ls"

definition gapOf :: "string \<Rightarrow> custodyLine list \<Rightarrow> int" where
  "gapOf k ls = (\<Sum>l\<leftarrow>linesOf k ls. decimalOf (clOnChain l) - decimalOf (clLedger l))"

definition toleranceOf :: "string \<Rightarrow> custodyLine list \<Rightarrow> int" where
  "toleranceOf k ls = Max (insert 0 ((\<lambda>l. \<bar>decimalOf (if clTolerance l = [] then ''0'' else clTolerance l)\<bar>) ` set (linesOf k ls)))"

lemma toleranceOf_Cons:
  "toleranceOf k (l # ls) = (if symbolKey l = k
     then max \<bar>decimalOf (if clTolerance l = [] then ''0'' else clTolerance l)\<bar> (toleranceOf k ls) else toleranceOf k ls)"
  by (simp add: toleranceOf_def linesOf_def insert_commute [of 0])

lemma toleranceOf_Nil: "toleranceOf k [] = 0"
  by (simp add: toleranceOf_def linesOf_def)

lemma toleranceOf_nonneg [simp]: "0 \<le> toleranceOf k ls"
  by (simp add: toleranceOf_def)

lemma gapOf_Cons:
  "gapOf k (l # ls) = (if symbolKey l = k then decimalOf (clOnChain l) - decimalOf (clLedger l) else 0) + gapOf k ls"
  by (simp add: gapOf_def linesOf_def)

definition gapAt :: "totals \<Rightarrow> int" where
  "gapAt v = toOnChain v - toLedger v"

lemma bookLine_Inr:
  assumes "bookLine m l = Inr m'"
  shows "mapKeys m' = mapKeys (mapSet m (symbolKey l) noTotals)"
    "gapAt (totalsAt m' k) = gapAt (totalsAt m k) + gapOf k [l]"
    "0 \<le> toTolerance (totalsAt m k) \<Longrightarrow> toTolerance (totalsAt m' k) = max (toTolerance (totalsAt m k)) (toleranceOf k [l])"
proof -
  define c where "c = totalsAt m (symbolKey l)"
  from assms obtain a b t where p: "parseDecimal (clOnChain l) = Inr a" "parseDecimal (clLedger l) = Inr b"
      "parseDecimal (if clTolerance l = [] then ''0'' else clTolerance l) = Inr t"
    and m': "m' = mapSet m (symbolKey l) \<lparr>toOnChain = toOnChain c + a, toLedger = toLedger c + b,
      toTolerance = (if \<bar>t\<bar> > toTolerance c then \<bar>t\<bar> else toTolerance c)\<rparr>"
    unfolding bookLine_def Let_def c_def [symmetric] by (auto simp only: andThen_eq_Inr sum.inject absDecimal_abs)
  have v: "decimalOf (clOnChain l) = a" "decimalOf (clLedger l) = b" "decimalOf (if clTolerance l = [] then ''0'' else clTolerance l) = t"
    using p by (simp_all only: decimalOf_def sum.case)
  show "mapKeys m' = mapKeys (mapSet m (symbolKey l) noTotals)" by (simp add: m' update_keys)
  show "gapAt (totalsAt m' k) = gapAt (totalsAt m k) + gapOf k [l]"
    by (simp add: m' totalsAt_def gapAt_def gapOf_def linesOf_def v c_def)
  show "0 \<le> toTolerance (totalsAt m k) \<Longrightarrow> toTolerance (totalsAt m' k) = max (toTolerance (totalsAt m k)) (toleranceOf k [l])"
    using v(3) by (auto simp: m' totalsAt_def toleranceOf_Cons toleranceOf_Nil c_def)
qed

lemma bookAll_totals:
  assumes "bookAll m ls = Inr m'" "distinct (mapKeys m)" "\<And>k. 0 \<le> toTolerance (totalsAt m k)"
  shows "distinct (mapKeys m') \<and> (\<forall>k. gapAt (totalsAt m' k) = gapAt (totalsAt m k) + gapOf k ls \<and>
    toTolerance (totalsAt m' k) = max (toTolerance (totalsAt m k)) (toleranceOf k ls))"
  using assms
proof (induction ls arbitrary: m)
  case Nil
  then show ?case by (simp add: gapOf_def linesOf_def toleranceOf_Nil max.absorb1)
next
  case (Cons l ls)
  from Cons.prems(1) obtain n where n: "bookLine m l = Inr n" "bookAll n ls = Inr m'" by (auto simp: andThen_eq_Inr)
  note b = bookLine_Inr [OF n(1)]
  have d: "distinct (mapKeys n)" unfolding b(1) by (rule distinct_mapKeys_mapSet [OF Cons.prems(2)])
  have t: "toTolerance (totalsAt n k) = max (toTolerance (totalsAt m k)) (toleranceOf k [l])" for k by (rule b(3) [OF Cons.prems(3)])
  have z: "0 \<le> toTolerance (totalsAt n k)" for k using Cons.prems(3) by (simp add: t le_max_iff_disj)
  have "distinct (mapKeys m')" and
    "gapAt (totalsAt m' k) = gapAt (totalsAt n k) + gapOf k ls"
    "toTolerance (totalsAt m' k) = max (toTolerance (totalsAt n k)) (toleranceOf k ls)" for k
    using Cons.IH [OF n(2) d z] by simp_all
  then show ?case using toleranceOf_nonneg
    by (simp add: b(2) t gapOf_Cons [of _ l ls] gapOf_Cons [of _ l "[]"] gapOf_def [of _ "[]"] linesOf_def [of _ "[]"]
      toleranceOf_Cons [of _ l ls] toleranceOf_Cons [of _ l "[]"] toleranceOf_Nil max.assoc max.absorb1)
qed

lemma totals_of_all:
  assumes "bookAll [] ls = Inr m"
  shows "distinct (mapKeys m)" "gapAt (totalsAt m k) = gapOf k ls" "toTolerance (totalsAt m k) = toleranceOf k ls"
  using bookAll_totals [OF assms] by (simp_all add: totalsAt_def noTotals_def gapAt_def max_def)

lemma stateOf_cases:
  "0 \<le> toTolerance v \<Longrightarrow> stateOf v = SymbolOk \<longleftrightarrow> \<bar>gapAt v\<bar> \<le> toTolerance v"
  "0 \<le> toTolerance v \<Longrightarrow> stateOf v = SymbolShortfall \<longleftrightarrow> gapAt v < - toTolerance v"
  by (auto simp: stateOf_def gapAt_def Let_def)

lemma entries_at: "distinct (mapKeys m) \<Longrightarrow> (\<exists>e\<in>set m. P (snd e)) \<longleftrightarrow> (\<exists>k\<in>set (mapKeys m). P (totalsAt m k))"
  by (force simp: totalsAt_def)

lemma previousBusinessDay_step: "previousBusinessDay d = (if utcDay (d - 1) \<in> {0, 6} then previousBusinessDay (d - 1) else d - 1)"
  by (subst previousBusinessDay.simps) simp

lemma if_single_Nil:
  "(if c then [x] else []) = [] \<longleftrightarrow> \<not> c"
  "(if c then [x] else if d then [y] else []) = [] \<longleftrightarrow> \<not> c \<and> \<not> d"
  by simp_all

lemma utcDay_before: "utcDay (e - 1) = (if utcDay e = 0 then 6 else utcDay e - 1)"
proof -
  define q where "q = (e + 4) div 7"
  have e: "e - 1 + 4 = 7 * q + (utcDay e - 1)" by (simp add: q_def utcDay_def minus_mod_eq_mult_div [symmetric])
  have b: "0 \<le> utcDay e" "utcDay e < 7" by (simp_all add: utcDay_def)
  show ?thesis
  proof (cases "utcDay e = 0")
    case True
    with e have "e - 1 + 4 = 7 * (q - 1) + 6" by simp
    then have "utcDay (e - 1) = 6" unfolding utcDay_def by (rule int_mod_pos_eq) simp_all
    with True show ?thesis by simp
  next
    case False
    with e b have "utcDay (e - 1) = utcDay e - 1" unfolding utcDay_def [of "e - 1"] by (intro int_mod_pos_eq) simp_all
    with False show ?thesis by simp
  qed
qed

lemma utcDay_range: "0 \<le> utcDay e" "utcDay e \<le> 6"
  using pos_mod_bound [of 7 "e + 4"] by (simp_all add: utcDay_def)

lemma length_uniq_card: "length (uniq xs) = card (set xs)"
  by (metis distinct_card distinct_uniq set_uniq)

section \<open>The properties\<close>

text \<open>
  C36. A reconciliation finds what the lines say: it is matched exactly when for every symbol the holdings on
  chain and the client book agree within the tolerance of that symbol, and it reports a shortfall exactly
  when the client book of a symbol exceeds the holdings by more than the tolerance.
\<close>

theorem reconcile_is_exact:
  assumes "reconcile ck ls = Inr r"
  shows "(rrMatched r \<longleftrightarrow> (\<forall>k. \<bar>gapOf k ls\<bar> \<le> toleranceOf k ls)) \<and> (rrShortfall r \<longleftrightarrow> (\<exists>k. gapOf k ls < - toleranceOf k ls))"
proof -
  from assms obtain m where m: "bookAll [] ls = Inr m"
    and r: "rrMatched r \<longleftrightarrow> \<not> (\<exists>e\<in>set m. stateOf (snd e) \<noteq> SymbolOk)" "rrShortfall r \<longleftrightarrow> (\<exists>e\<in>set m. stateOf (snd e) = SymbolShortfall)"
    by (auto simp: reconcile_def andThen_eq_Inr Let_def list_all_iff list_ex_iff symbolOf_def)
  note t = totals_of_all [OF m]
  have z: "0 \<le> toTolerance (totalsAt m k)" for k by (simp add: t)
  have out: "gapOf k ls = 0" if "k \<notin> set (mapKeys m)" for k
    using that t(2) [of k, symmetric] by (simp add: totalsAt_def mapGet_None_iff [THEN iffD2] noTotals_def gapAt_def)
  have "rrMatched r \<longleftrightarrow> (\<forall>k\<in>set (mapKeys m). \<bar>gapOf k ls\<bar> \<le> toleranceOf k ls)"
    unfolding r(1) entries_at [OF t(1), where P = "\<lambda>v. stateOf v \<noteq> SymbolOk"] using stateOf_cases(1) [OF z] by (simp add: t)
  moreover have "rrShortfall r \<longleftrightarrow> (\<exists>k\<in>set (mapKeys m). gapOf k ls < - toleranceOf k ls)"
    unfolding r(2) entries_at [OF t(1), where P = "\<lambda>v. stateOf v = SymbolShortfall"] using stateOf_cases(2) [OF z] by (simp add: t)
  moreover have "\<bar>gapOf k ls\<bar> \<le> toleranceOf k ls" "\<not> gapOf k ls < - toleranceOf k ls" if "k \<notin> set (mapKeys m)" for k
    using out [OF that] by (simp_all add: not_less)
  ultimately show ?thesis by blast
qed

definition demoLines :: "custodyLine list" where
  "demoLines =
     [\<lparr>clSymbol = ''btc '', clWalletId = Some ''hot'', clOnChain = ''1,5'', clLedger = ''2'', clTolerance = []\<rparr>,
      \<lparr>clSymbol = ''BTC'', clWalletId = Some ''cold'', clOnChain = ''3'', clLedger = ''2.7'', clTolerance = ''0.1''\<rparr>,
      \<lparr>clSymbol = ''ETH'', clWalletId = None, clOnChain = ''10'', clLedger = ''10'', clTolerance = ''0''\<rparr>]"

theorem reconcile_is_exact_witness:
  "gapOf ''BTC'' demoLines < - toleranceOf ''BTC'' demoLines \<and>
   (\<exists>r. reconcile length demoLines = Inr r \<and> rrShortfall r \<and> map srSymbol (rrSymbols r) = [''BTC'', ''ETH''] \<and>
     map srDifference (rrSymbols r) = [''-0.2'', ''0''])"
proof -
  have g: "gapOf ''BTC'' demoLines = - 2 * 10 ^ 17" by code_simp
  have t: "toleranceOf ''BTC'' demoLines = 10 ^ 17" by code_simp
  have r: "case reconcile length demoLines of Inl e \<Rightarrow> False | Inr r \<Rightarrow> map srSymbol (rrSymbols r) = [''BTC'', ''ETH''] \<and>
     map srDifference (rrSymbols r) = [''-0.2'', ''0'']" by code_simp
  then obtain r where r: "reconcile length demoLines = Inr r" "map srSymbol (rrSymbols r) = [''BTC'', ''ETH'']"
      "map srDifference (rrSymbols r) = [''-0.2'', ''0'']" by (auto split: sum.splits)
  have b: "gapOf ''BTC'' demoLines < - toleranceOf ''BTC'' demoLines" by (simp add: g t)
  with reconcile_is_exact [OF r(1)] have "rrShortfall r" by blast
  with b r show ?thesis by (intro conjI exI [of _ r])
qed

text \<open>
  An amount in the client book is read back as it was printed: the eighteen decimals of a difference
  are exact, negative amounts included.
\<close>

theorem decimal_roundtrip:
  assumes "\<bar>v\<bar> < 10 ^ 42"
  shows "parseDecimal (formatDecimal v) = Inr v"
  using assms by (rule parse_formatDecimal)

theorem decimal_roundtrip_witness:
  "formatDecimal (- 1500000000000000000) = ''-1.5'' \<and> parseDecimal (formatDecimal (- 1500000000000000000)) = Inr (- 1500000000000000000)"
proof -
  have "formatDecimal (- 1500000000000000000) = ''-1.5''" by code_simp
  with decimal_roundtrip [of "- 1500000000000000000"] show ?thesis by simp
qed

text \<open>
  The search for the day of a reconciliation ends: it is a day from Monday to Friday, at most three days
  back, and only days of a weekend are skipped.
\<close>

theorem business_day_is_found:
  "utcDay (previousBusinessDay d) \<in> {1..5} \<and> d - 3 \<le> previousBusinessDay d \<and> previousBusinessDay d < d \<and>
   (\<forall>e. previousBusinessDay d < e \<and> e < d \<longrightarrow> utcDay e \<in> {0, 6})"
proof -
  have u: "utcDay (d - 2) = (if utcDay (d - 1) = 0 then 6 else utcDay (d - 1) - 1)"
      "utcDay (d - 3) = (if utcDay (d - 2) = 0 then 6 else utcDay (d - 2) - 1)"
    using utcDay_before [of "d - 1"] utcDay_before [of "d - 2"] by simp_all
  note r = utcDay_range [of "d - 1"] utcDay_range [of "d - 2"]
  have e: "e = d - 1" if "d - 2 < e" "e < d" for e using that by simp
  have f: "e = d - 1 \<or> e = d - 2" if "d - 3 < e" "e < d" for e using that by presburger
  consider (one) "utcDay (d - 1) \<notin> {0, 6}" | (two) "utcDay (d - 1) \<in> {0, 6}" "utcDay (d - 2) \<notin> {0, 6}"
    | (three) "utcDay (d - 1) \<in> {0, 6}" "utcDay (d - 2) \<in> {0, 6}" by blast
  then show ?thesis
  proof cases
    case one
    then have "previousBusinessDay d = d - 1" by (simp add: previousBusinessDay_step [of d])
    with one r show ?thesis by auto
  next
    case two
    then have p: "previousBusinessDay d = d - 2" by (simp add: previousBusinessDay_step [of d] previousBusinessDay_step [of "d - 1"])
    with two r show ?thesis by (auto dest: e)
  next
    case three
    with u have "utcDay (d - 3) = 5" by auto
    with three have "previousBusinessDay d = d - 3"
      by (simp add: previousBusinessDay_step [of d] previousBusinessDay_step [of "d - 1"] previousBusinessDay_step [of "d - 2"])
    with three \<open>utcDay (d - 3) = 5\<close> show ?thesis by (auto dest: f)
  qed
qed

theorem business_day_is_found_witness: "previousBusinessDay 20458 = 20455 \<and> utcDay 20455 \<in> {1..5}"
proof -
  have "previousBusinessDay 20458 = 20455" by code_simp
  with business_day_is_found [of 20458] show ?thesis by simp
qed

text \<open>
  A wallet of client assets without a finding really is shared: two or more signatures are needed, there
  are as many signers, not all of them at one known site, everyone was vetted and no term of office is over,
  and the backup was tested in time.
\<close>

theorem wallet_without_findings_is_shared:
  assumes "walletIssues w hs today = []" "\<not> waRetired w" "waPurpose w = ForClients" "waTechnology w \<noteq> SubCustodian"
  shows "2 \<le> waQuorumRequired w \<and> waTechnology w \<noteq> SingleKey \<and>
    waQuorumRequired w \<le> int (length (filter (\<lambda>h. hoStatus h = HolderActive \<and> hoRole h = SignerRole) hs)) \<and>
    \<not> (\<exists>site. isSet site \<and> (\<forall>h\<in>set hs. hoStatus h = HolderActive \<and> hoRole h = SignerRole \<longrightarrow> hoSiteId h = site)) \<and>
    (\<forall>h\<in>set hs. hoStatus h = HolderActive \<longrightarrow> isSet (hoVettedAt h) \<and> \<not> isPast (hoUntil h) today) \<and>
    isSet (waLastBackupTestAt w) \<and> \<not> isPast (waNextBackupTestDue w) today"
proof -
  define signers where "signers = filter (\<lambda>h. hoStatus h = HolderActive \<and> hoRole h = SignerRole) hs"
  have sg: "filter (\<lambda>h. hoRole h = SignerRole) (filter (\<lambda>h. hoStatus h = HolderActive) hs) = signers" by (simp add: signers_def conj_commute)
  have i: "waQuorumRequired w \<le> int (length signers)" "2 \<le> waQuorumRequired w" "waTechnology w \<noteq> SingleKey"
    "\<not> (length signers \<ge> 2 \<and> length (uniq (map hoSiteId (filter (\<lambda>h. isSet (hoSiteId h)) signers))) = 1 \<and> list_all (\<lambda>h. isSet (hoSiteId h)) signers)"
    "\<forall>h\<in>set hs. hoStatus h = HolderActive \<longrightarrow> isSet (hoVettedAt h) \<and> \<not> isPast (hoUntil h) today"
    "isSet (waLastBackupTestAt w)" "\<not> isPast (waNextBackupTestDue w) today"
    using assms(1) unfolding walletIssues_def Let_def sg
    by (simp_all add: assms(2,3,4) if_single_Nil list_ex_iff not_less)
  have "False" if p: "isSet site" and a: "\<forall>h\<in>set hs. hoStatus h = HolderActive \<and> hoRole h = SignerRole \<longrightarrow> hoSiteId h = site" for site
  proof -
    have s: "\<forall>h\<in>set signers. hoSiteId h = site" using a by (simp add: signers_def)
    have l: "length signers \<ge> 2" using i(1,2) by simp
    then obtain x xs where x: "signers = x # xs" by (cases signers) auto
    have "filter (\<lambda>h. isSet (hoSiteId h)) signers = signers" using s p by (simp add: filter_id_conv)
    moreover have "map hoSiteId signers = site # map (\<lambda>_. site) xs" using s by (simp add: x)
    moreover have "list_all (\<lambda>h. isSet (hoSiteId h)) signers" using s p by (simp add: list_all_iff)
    moreover have "length (uniq (site # map (\<lambda>_. site) xs)) = 1"
    proof -
      have "set (site # map (\<lambda>_. site) xs) = {site}" by auto
      then show ?thesis by (simp only: length_uniq_card) simp
    qed
    ultimately show False using i(4) l by simp
  qed
  with i show ?thesis unfolding signers_def by blast
qed

definition demoWallet :: walletFacts where
  "demoWallet = \<lparr>waKind = Cold, waTechnology = Multisig, waPurpose = ForClients, waQuorumRequired = 2, waQuorumTotal = 3, waRetired = False,
     waNextBackupTestDue = Some ''2026-06-01'', waLastBackupTestAt = Some ''2025-12-01''\<rparr>"

definition demoHolders :: "holderFacts list" where
  "demoHolders =
     [\<lparr>hoRole = SignerRole, hoStatus = HolderActive, hoSiteId = Some ''bern'', hoVettedAt = Some ''2025-01-01'', hoUntil = None\<rparr>,
      \<lparr>hoRole = SignerRole, hoStatus = HolderActive, hoSiteId = Some ''chur'', hoVettedAt = Some ''2025-01-01'', hoUntil = Some ''2027-01-01''\<rparr>]"

theorem wallet_without_findings_is_shared_witness:
  "walletIssues demoWallet demoHolders ''2026-01-01'' = [] \<and> 2 \<le> waQuorumRequired demoWallet \<and> isSet (waLastBackupTestAt demoWallet)"
proof -
  have n: "walletIssues demoWallet demoHolders ''2026-01-01'' = []" by code_simp
  have "\<not> waRetired demoWallet" "waPurpose demoWallet = ForClients" "waTechnology demoWallet \<noteq> SubCustodian" by (simp_all add: demoWallet_def)
  from wallet_without_findings_is_shared [OF n this] n show ?thesis by simp
qed

end
