(* ===== verification/Entity_States.thy ===== *)
theory Entity_States
  imports Prelude
begin

text \<open>
  \<open>lib/entities\<close>: the status machines of the compliance objects. \<open>status-machine.ts\<close> decides which changes of status are
  offered and allowed; every kind of object has its table of states and transitions. A status is the text the
  code uses for it; \<open>undefined\<close> is \<open>None\<close>.
\<close>

section \<open>Machines\<close>

datatype tone = Muted | DefaultTone | Warning | Success | Destructive

record transitionT =
  trFrom :: string
  trTo :: string
  trLabelKey :: string
  trRequires :: "string option"
  trPrimary :: "bool option"

record machine =
  smStates :: "string list"
  smInitial :: string
  smLabelKey :: "(string \<times> string) list"
  smTone :: "(string \<times> tone) list"
  smTransitions :: "transitionT list"
  smDone :: "string list"

record transitionCtx =
  txHasNote :: "bool option"
  txApprovals :: "bool option"

record available =
  avTransition :: transitionT
  avEnabled :: bool
  avBlockedBy :: "string option"

datatype changeVerdict = Allowed | Refused string

definition offer :: "transitionCtx \<Rightarrow> transitionT \<Rightarrow> available" where
  "offer ctx t =
     (case trRequires t of
        None \<Rightarrow> \<lparr>avTransition = t, avEnabled = True, avBlockedBy = None\<rparr>
      | Some r \<Rightarrow>
          if r = ''note'' then
            \<lparr>avTransition = t, avEnabled = (txHasNote ctx = Some True), avBlockedBy = (if txHasNote ctx = Some True then None else Some ''note'')\<rparr>
          else if startsWith r ''approval:'' then
            \<lparr>avTransition = t, avEnabled = (txApprovals ctx = Some True), avBlockedBy = (if txApprovals ctx = Some True then None else Some ''approval'')\<rparr>
          else \<lparr>avTransition = t, avEnabled = True, avBlockedBy = None\<rparr>)"

definition nextTransitions :: "machine \<Rightarrow> string \<Rightarrow> transitionCtx \<Rightarrow> available list" where
  "nextTransitions m status ctx = map (offer ctx) (filter (\<lambda>t. trFrom t = status) (smTransitions m))"

definition primaryTransition :: "machine \<Rightarrow> string \<Rightarrow> transitionCtx \<Rightarrow> available option" where
  "primaryTransition m status ctx =
     (let list = nextTransitions m status ctx in
      case List.find (\<lambda>a. trPrimary (avTransition a) = Some True) list of
        Some a \<Rightarrow> Some a
      | None \<Rightarrow> (case list of [] \<Rightarrow> None | a # r \<Rightarrow> Some a))"

definition canTransition :: "machine \<Rightarrow> string \<Rightarrow> string \<Rightarrow> transitionCtx \<Rightarrow> changeVerdict" where
  "canTransition m a b ctx =
     (case List.find (\<lambda>x. trTo (avTransition x) = b) (nextTransitions m a ctx) of
        None \<Rightarrow> Refused ''invalid''
      | Some t \<Rightarrow>
          if \<not> avEnabled t then Refused (case avBlockedBy t of None \<Rightarrow> ''invalid'' | Some r \<Rightarrow> r) else Allowed)"

definition isDone :: "machine \<Rightarrow> string \<Rightarrow> bool" where
  "isDone m status \<longleftrightarrow> status \<in> set (smDone m)"

definition transitions :: "(string \<times> string \<times> string \<times> string option \<times> bool option) list \<Rightarrow> transitionT list" where
  "transitions rows = map (\<lambda>(a, b, l, r, p). \<lparr>trFrom = a, trTo = b, trLabelKey = l, trRequires = r, trPrimary = p\<rparr>) rows"

section \<open>The machines of the objects\<close>

definition TASK_STATUS :: machine where
  "TASK_STATUS = \<lparr>
     smStates = [''todo'', ''doing'', ''blocked'', ''done''],
     smInitial = ''todo'',
     smLabelKey = [(''todo'', ''todo''), (''doing'', ''doing''), (''blocked'', ''blocked''), (''done'', ''done'')],
     smTone = [(''todo'', Muted), (''doing'', Warning), (''blocked'', Destructive), (''done'', Success)],
     smTransitions = transitions
      [(''todo'', ''doing'', ''startWork'', None, Some True),
       (''todo'', ''done'', ''complete'', None, None),
       (''doing'', ''done'', ''complete'', None, Some True),
       (''doing'', ''blocked'', ''block'', Some ''note'', None),
       (''doing'', ''todo'', ''pause'', None, None),
       (''blocked'', ''doing'', ''unblock'', None, Some True),
       (''done'', ''todo'', ''reopen'', None, Some True)],
     smDone = [''done'']\<rparr>"

definition CONTROL_STATUS :: machine where
  "CONTROL_STATUS = \<lparr>
     smStates = [''not_started'', ''planned'', ''in_progress'', ''implemented'', ''not_applicable''],
     smInitial = ''not_started'',
     smLabelKey = [(''not_started'', ''notStarted''), (''planned'', ''planned''), (''in_progress'', ''inProgress''), (''implemented'', ''implemented''), (''not_applicable'', ''notApplicable'')],
     smTone = [(''not_started'', Muted), (''planned'', DefaultTone), (''in_progress'', Warning), (''implemented'', Success), (''not_applicable'', Muted)],
     smTransitions = transitions
      [(''not_started'', ''planned'', ''plan'', None, Some True),
       (''not_started'', ''in_progress'', ''startWork'', None, None),
       (''not_started'', ''not_applicable'', ''markNotApplicable'', Some ''note'', None),
       (''planned'', ''in_progress'', ''startWork'', None, Some True),
       (''planned'', ''implemented'', ''markImplemented'', None, None),
       (''planned'', ''not_started'', ''unplan'', None, None),
       (''planned'', ''not_applicable'', ''markNotApplicable'', Some ''note'', None),
       (''in_progress'', ''implemented'', ''markImplemented'', None, Some True),
       (''in_progress'', ''planned'', ''backToPlanned'', None, None),
       (''in_progress'', ''not_applicable'', ''markNotApplicable'', Some ''note'', None),
       (''implemented'', ''in_progress'', ''reopen'', Some ''note'', Some True),
       (''not_applicable'', ''not_started'', ''reactivate'', Some ''note'', Some True)],
     smDone = [''implemented'', ''not_applicable'']\<rparr>"

definition DOCUMENT_STATUS_MACHINE :: machine where
  "DOCUMENT_STATUS_MACHINE = \<lparr>
     smStates = [''draft'', ''in_review'', ''approved'', ''published'', ''retired'', ''superseded''],
     smInitial = ''draft'',
     smLabelKey = [(''draft'', ''docDraft''), (''in_review'', ''docInReview''), (''approved'', ''docApproved''), (''published'', ''docPublished''), (''retired'', ''docRetired''), (''superseded'', ''docSuperseded'')],
     smTone = [(''draft'', Muted), (''in_review'', Warning), (''approved'', DefaultTone), (''published'', Success), (''retired'', Muted), (''superseded'', Muted)],
     smTransitions = transitions
      [(''draft'', ''in_review'', ''submitReview'', Some ''approval:document_publish'', Some True),
       (''in_review'', ''draft'', ''backToDraft'', Some ''note'', None),
       (''in_review'', ''approved'', ''approveDoc'', Some ''approval:document_publish'', Some True),
       (''approved'', ''published'', ''publishDoc'', None, Some True),
       (''approved'', ''draft'', ''backToDraft'', Some ''note'', None),
       (''published'', ''retired'', ''retireDoc'', Some ''note'', Some True),
       (''published'', ''draft'', ''newVersion'', None, None),
       (''retired'', ''draft'', ''newVersion'', None, Some True)],
     smDone = [''published'', ''retired'', ''superseded'']\<rparr>"

definition RISK_STATUS :: machine where
  "RISK_STATUS = \<lparr>
     smStates = [''proposed'', ''open'', ''in_treatment'', ''accepted'', ''closed''],
     smInitial = ''open'',
     smLabelKey = [(''proposed'', ''riskProposed''), (''open'', ''riskOpen''), (''in_treatment'', ''riskInTreatment''), (''accepted'', ''riskAccepted''), (''closed'', ''riskClosed'')],
     smTone = [(''proposed'', Muted), (''open'', Warning), (''in_treatment'', DefaultTone), (''accepted'', Success), (''closed'', Muted)],
     smTransitions = transitions
      [(''proposed'', ''closed'', ''closeRisk'', Some ''note'', None),
       (''open'', ''in_treatment'', ''startTreatment'', None, Some True),
       (''open'', ''accepted'', ''acceptRisk'', Some ''note'', None),
       (''in_treatment'', ''accepted'', ''acceptRisk'', Some ''note'', Some True),
       (''in_treatment'', ''closed'', ''closeRisk'', Some ''note'', None),
       (''in_treatment'', ''open'', ''reopen'', None, None),
       (''accepted'', ''in_treatment'', ''reopen'', None, Some True),
       (''accepted'', ''closed'', ''closeRisk'', Some ''note'', None),
       (''closed'', ''open'', ''reopen'', Some ''note'', Some True)],
     smDone = [''accepted'', ''closed'']\<rparr>"

definition INCIDENT_STATUS :: machine where
  "INCIDENT_STATUS = \<lparr>
     smStates = [''open'', ''contained'', ''resolved'', ''closed''],
     smInitial = ''open'',
     smLabelKey = [(''open'', ''incOpen''), (''contained'', ''incContained''), (''resolved'', ''incResolved''), (''closed'', ''incClosed'')],
     smTone = [(''open'', Destructive), (''contained'', Warning), (''resolved'', DefaultTone), (''closed'', Muted)],
     smTransitions = transitions
      [(''open'', ''contained'', ''contain'', None, Some True),
       (''contained'', ''resolved'', ''resolve'', None, Some True),
       (''contained'', ''open'', ''reopen'', Some ''note'', None),
       (''resolved'', ''closed'', ''closeIncident'', Some ''approval:incident_closure'', Some True),
       (''resolved'', ''open'', ''reopen'', Some ''note'', None),
       (''closed'', ''open'', ''reopen'', Some ''note'', Some True)],
     smDone = [''closed'']\<rparr>"

definition NONCONFORMITY_STATUS :: machine where
  "NONCONFORMITY_STATUS = \<lparr>
     smStates = [''open'', ''in_progress'', ''verified'', ''closed''],
     smInitial = ''open'',
     smLabelKey = [(''open'', ''ncOpen''), (''in_progress'', ''ncInProgress''), (''verified'', ''ncVerified''), (''closed'', ''ncClosed'')],
     smTone = [(''open'', Destructive), (''in_progress'', Warning), (''verified'', DefaultTone), (''closed'', Muted)],
     smTransitions = transitions
      [(''open'', ''in_progress'', ''startWork'', None, Some True),
       (''in_progress'', ''verified'', ''verifyNc'', Some ''note'', Some True),
       (''in_progress'', ''open'', ''reopen'', Some ''note'', None),
       (''verified'', ''closed'', ''closeNc'', None, Some True),
       (''verified'', ''in_progress'', ''reopen'', Some ''note'', None),
       (''closed'', ''open'', ''reopen'', Some ''note'', Some True)],
     smDone = [''closed'']\<rparr>"

definition FINDING_STATUS_MACHINE :: machine where
  "FINDING_STATUS_MACHINE = \<lparr>
     smStates = [''open'', ''in_progress'', ''accepted'', ''resolved'', ''false_positive''],
     smInitial = ''open'',
     smLabelKey = [(''open'', ''sfOpen''), (''in_progress'', ''sfInProgress''), (''accepted'', ''sfAccepted''), (''resolved'', ''sfResolved''), (''false_positive'', ''sfFalsePositive'')],
     smTone = [(''open'', Destructive), (''in_progress'', Warning), (''accepted'', Muted), (''resolved'', Success), (''false_positive'', Muted)],
     smTransitions = transitions
      [(''open'', ''in_progress'', ''startWork'', None, Some True),
       (''open'', ''resolved'', ''markFixed'', Some ''note'', None),
       (''open'', ''false_positive'', ''markFalsePositive'', Some ''note'', None),
       (''in_progress'', ''resolved'', ''markFixed'', None, Some True),
       (''in_progress'', ''open'', ''reopen'', None, None),
       (''in_progress'', ''false_positive'', ''markFalsePositive'', Some ''note'', None),
       (''accepted'', ''open'', ''reopen'', Some ''note'', Some True),
       (''resolved'', ''open'', ''reopen'', Some ''note'', Some True),
       (''false_positive'', ''open'', ''reopen'', Some ''note'', Some True)],
     smDone = [''resolved'', ''false_positive'', ''accepted'']\<rparr>"

definition PROCESS_STATUS :: machine where
  "PROCESS_STATUS = \<lparr>
     smStates = [''draft'', ''active'', ''retired''],
     smInitial = ''draft'',
     smLabelKey = [(''draft'', ''procDraft''), (''active'', ''procActive''), (''retired'', ''procRetired'')],
     smTone = [(''draft'', Muted), (''active'', Success), (''retired'', Muted)],
     smTransitions = transitions
      [(''draft'', ''active'', ''activate'', None, Some True),
       (''active'', ''retired'', ''retire'', Some ''note'', Some True),
       (''active'', ''draft'', ''backToDraft'', None, None),
       (''retired'', ''active'', ''reactivate'', Some ''note'', Some True)],
     smDone = [''retired'']\<rparr>"

definition PRODUCT_STATUS :: machine where
  "PRODUCT_STATUS = \<lparr>
     smStates = [''development'', ''on_market'', ''end_of_support'', ''withdrawn''],
     smInitial = ''development'',
     smLabelKey = [(''development'', ''prdDevelopment''), (''on_market'', ''prdOnMarket''), (''end_of_support'', ''prdEndOfSupport''), (''withdrawn'', ''prdWithdrawn'')],
     smTone = [(''development'', DefaultTone), (''on_market'', Success), (''end_of_support'', Warning), (''withdrawn'', Muted)],
     smTransitions = transitions
      [(''development'', ''on_market'', ''placeOnMarket'', None, Some True),
       (''on_market'', ''end_of_support'', ''endSupport'', Some ''note'', Some True),
       (''on_market'', ''withdrawn'', ''withdrawProduct'', Some ''note'', None),
       (''end_of_support'', ''withdrawn'', ''withdrawProduct'', Some ''note'', Some True),
       (''end_of_support'', ''on_market'', ''reactivate'', Some ''note'', None),
       (''withdrawn'', ''on_market'', ''reactivate'', Some ''note'', Some True),
       (''development'', ''withdrawn'', ''withdrawProduct'', Some ''note'', None)],
     smDone = [''withdrawn'']\<rparr>"

definition ENGAGEMENT_STATUS_MACHINE :: machine where
  "ENGAGEMENT_STATUS_MACHINE = \<lparr>
     smStates = [''planned'', ''authorized'', ''in_progress'', ''reporting'', ''delivered'', ''retest'', ''closed'', ''cancelled''],
     smInitial = ''planned'',
     smLabelKey = [(''planned'', ''egPlanned''), (''authorized'', ''egAuthorized''), (''in_progress'', ''egInProgress''), (''reporting'', ''egReporting''), (''delivered'', ''egDelivered''), (''retest'', ''egRetest''), (''closed'', ''egClosed''), (''cancelled'', ''egCancelled'')],
     smTone = [(''planned'', Muted), (''authorized'', DefaultTone), (''in_progress'', Warning), (''reporting'', Warning), (''delivered'', Success), (''retest'', Warning), (''closed'', Success), (''cancelled'', Muted)],
     smTransitions = transitions
      [(''planned'', ''authorized'', ''egAuthorize'', None, Some True),
       (''planned'', ''cancelled'', ''egCancel'', Some ''note'', None),
       (''authorized'', ''in_progress'', ''egStart'', None, Some True),
       (''authorized'', ''planned'', ''egBackToPlanning'', Some ''note'', None),
       (''authorized'', ''cancelled'', ''egCancel'', Some ''note'', None),
       (''in_progress'', ''reporting'', ''egReport'', None, Some True),
       (''in_progress'', ''cancelled'', ''egCancel'', Some ''note'', None),
       (''reporting'', ''delivered'', ''egDeliver'', None, Some True),
       (''reporting'', ''in_progress'', ''egBackToTesting'', None, None),
       (''delivered'', ''retest'', ''egStartRetest'', None, Some True),
       (''delivered'', ''closed'', ''egClose'', None, None),
       (''retest'', ''closed'', ''egClose'', None, Some True),
       (''closed'', ''retest'', ''egReopenRetest'', Some ''note'', None),
       (''cancelled'', ''planned'', ''egReopen'', Some ''note'', None)],
     smDone = [''closed'', ''cancelled'']\<rparr>"

definition machines :: "machine list" where
  "machines = [TASK_STATUS, CONTROL_STATUS, DOCUMENT_STATUS_MACHINE, RISK_STATUS, INCIDENT_STATUS, NONCONFORMITY_STATUS,
     FINDING_STATUS_MACHINE, PROCESS_STATUS, PRODUCT_STATUS, ENGAGEMENT_STATUS_MACHINE]"

section \<open>Histories\<close>

text \<open>
  A sequence of changes that \<open>canTransition\<close> decides, each with its context; a refused change ends it. It says
  what the table offers; a server action may set a status of its own (a document is approved at once when its
  workflow is disabled).
\<close>

fun statusAfter :: "machine \<Rightarrow> string \<Rightarrow> (string \<times> transitionCtx) list \<Rightarrow> string option" where
  "statusAfter m s [] = Some s"
| "statusAfter m s ((b, ctx) # cs) = (if canTransition m s b ctx = Allowed then statusAfter m b cs else None)"

text \<open>What a transition asks for, as a specification.\<close>

definition fulfilled :: "transitionCtx \<Rightarrow> string option \<Rightarrow> bool" where
  "fulfilled ctx r \<longleftrightarrow> (r = Some ''note'' \<longrightarrow> txHasNote ctx = Some True) \<and>
     (\<forall>k. r = Some (''approval:'' @ k) \<longrightarrow> txApprovals ctx = Some True)"

text \<open>A table is well formed: its statuses are declared, named and coloured, no change is listed twice, and no status has
  two primary changes.\<close>

definition wellFormed :: "machine \<Rightarrow> bool" where
  "wellFormed m \<longleftrightarrow> distinct (smStates m) \<and> smInitial m \<in> set (smStates m) \<and> set (smDone m) \<subseteq> set (smStates m) \<and>
     map fst (smLabelKey m) = smStates m \<and> map fst (smTone m) = smStates m \<and>
     list_all (\<lambda>t. trFrom t \<in> set (smStates m) \<and> trTo t \<in> set (smStates m) \<and> trFrom t \<noteq> trTo t) (smTransitions m) \<and>
     distinct (map (\<lambda>t. (trFrom t, trTo t)) (smTransitions m)) \<and>
     distinct (map trFrom (filter (\<lambda>t. trPrimary t = Some True) (smTransitions m)))"

text \<open>Some done status is at most \<open>n\<close> changes away.\<close>

fun near :: "machine \<Rightarrow> nat \<Rightarrow> string \<Rightarrow> bool" where
  "near m 0 s = (s \<in> set (smDone m))"
| "near m (Suc n) s = (s \<in> set (smDone m) \<or> list_ex (\<lambda>t. trFrom t = s \<and> near m n (trTo t)) (smTransitions m))"

section \<open>Lemmas\<close>

lemma offer_transition [simp]: "avTransition (offer ctx t) = t"
  by (simp add: offer_def split: option.split)

lemma startsWith_iff: "startsWith s p \<longleftrightarrow> (\<exists>r. s = p @ r)"
  by (metis append_eq_conv_conj append_take_drop_id startsWith_def)

lemma offer_enabled: "avEnabled (offer ctx t) \<longleftrightarrow> fulfilled ctx (trRequires t)"
proof (cases "trRequires t")
  case None
  then show ?thesis by (simp add: offer_def fulfilled_def)
next
  case (Some r)
  have "\<not> startsWith ''note'' ''approval:''" by (simp add: startsWith_def)
  then show ?thesis by (auto simp: Some offer_def fulfilled_def startsWith_iff)
qed

lemma find_map: "List.find P (map f xs) = map_option f (List.find (P \<circ> f) xs)"
  by (induction xs) simp_all

lemma find_filter: "List.find P (filter Q xs) = List.find (\<lambda>x. Q x \<and> P x) xs"
  by (induction xs) auto

lemma find_SomeD: "List.find P xs = Some x \<Longrightarrow> x \<in> set xs \<and> P x"
  by (induction xs) (auto split: if_splits)

lemma canTransition_find:
  "canTransition m a b ctx =
     (case List.find (\<lambda>t. trFrom t = a \<and> trTo t = b) (smTransitions m) of None \<Rightarrow> Refused ''invalid''
      | Some t \<Rightarrow> if fulfilled ctx (trRequires t) then Allowed
          else Refused (case avBlockedBy (offer ctx t) of None \<Rightarrow> ''invalid'' | Some r \<Rightarrow> r))"
  by (auto simp: canTransition_def nextTransitions_def find_map find_filter comp_def offer_enabled split: option.split)

lemma allowed_edge:
  assumes "canTransition m a b ctx = Allowed"
  obtains t where "t \<in> set (smTransitions m)" "trFrom t = a" "trTo t = b" "fulfilled ctx (trRequires t)"
  using assms by (auto simp: canTransition_find dest: find_SomeD split: option.splits if_splits)

lemma edge_allowed:
  assumes "t \<in> set (smTransitions m)" "txHasNote ctx = Some True" "txApprovals ctx = Some True"
  shows "canTransition m (trFrom t) (trTo t) ctx = Allowed"
proof -
  have "List.find (\<lambda>x. trFrom x = trFrom t \<and> trTo x = trTo t) (smTransitions m) \<noteq> None"
    using assms(1) by (auto simp: find_None_iff)
  then obtain x where "List.find (\<lambda>x. trFrom x = trFrom t \<and> trTo x = trTo t) (smTransitions m) = Some x" by blast
  then show ?thesis using assms(2,3) by (simp add: canTransition_find fulfilled_def)
qed

lemma near_finishes:
  "near m n s \<Longrightarrow> \<exists>cs d. length cs \<le> n \<and> statusAfter m s cs = Some d \<and> isDone m d"
proof (induction n arbitrary: s)
  case 0
  then have "statusAfter m s [] = Some s \<and> isDone m s" by (simp add: isDone_def)
  then show ?case by (metis list.size(3) order_refl)
next
  case (Suc n)
  show ?case
  proof (cases "s \<in> set (smDone m)")
    case True
    then have "statusAfter m s [] = Some s \<and> isDone m s" by (simp add: isDone_def)
    then show ?thesis by (metis list.size(3) zero_le)
  next
    case False
    with Suc.prems obtain t where t: "t \<in> set (smTransitions m)" "trFrom t = s" "near m n (trTo t)" by (auto simp: list_ex_iff)
    let ?c = "\<lparr>txHasNote = Some True, txApprovals = Some True\<rparr>"
    have e: "canTransition m s (trTo t) ?c = Allowed" using edge_allowed [OF t(1), of ?c] t(2) by simp
    from Suc.IH [OF t(3)] obtain cs d where "length cs \<le> n" "statusAfter m (trTo t) cs = Some d" "isDone m d" by blast
    with e show ?thesis by (intro exI [of _ "(trTo t, ?c) # cs"] exI [of _ d]) simp
  qed
qed

lemma machines_wellFormed: "list_all wellFormed machines"
  by code_simp

lemma machines_near: "list_all (\<lambda>m. list_all (near m 3) (smStates m)) machines"
  by code_simp

lemma edge_unique:
  assumes "wellFormed m" "t \<in> set (smTransitions m)" "u \<in> set (smTransitions m)" "trFrom t = trFrom u" "trTo t = trTo u"
  shows "t = u"
  using assms by (auto simp: wellFormed_def distinct_map dest: inj_onD)

section \<open>The properties\<close>

definition approving :: transitionCtx where
  "approving = \<lparr>txHasNote = None, txApprovals = Some True\<rparr>"

text \<open>
  C38. No object is stuck: from every status of every machine some status that counts as done is at most three
  allowed changes away, given notes and approvals.
\<close>

theorem every_status_can_be_finished:
  assumes "m \<in> set machines" "s \<in> set (smStates m)"
  shows "\<exists>cs d. length cs \<le> 3 \<and> statusAfter m s cs = Some d \<and> isDone m d"
  using assms machines_near by (intro near_finishes) (simp add: list_all_iff)

theorem every_status_can_be_finished_witness:
  "\<exists>cs d. length cs \<le> 3 \<and> statusAfter ENGAGEMENT_STATUS_MACHINE ''planned'' cs = Some d \<and> isDone ENGAGEMENT_STATUS_MACHINE d"
  by (rule every_status_can_be_finished) (simp_all add: machines_def ENGAGEMENT_STATUS_MACHINE_def)

text \<open>
  C39. The decision on a change is exact: it is allowed exactly if the table lists it and what it asks for is there, it is
  invalid exactly if the table does not list it, and a status without a primary change is one that nothing leaves.
\<close>

theorem change_is_exact:
  assumes "m \<in> set machines"
  shows "(canTransition m a b ctx = Allowed \<longleftrightarrow> (\<exists>t\<in>set (smTransitions m). trFrom t = a \<and> trTo t = b \<and> fulfilled ctx (trRequires t))) \<and>
    (canTransition m a b ctx = Refused ''invalid'' \<longleftrightarrow> \<not> (\<exists>t\<in>set (smTransitions m). trFrom t = a \<and> trTo t = b)) \<and>
    (primaryTransition m a ctx = None \<longleftrightarrow> \<not> (\<exists>t\<in>set (smTransitions m). trFrom t = a))"
proof (intro conjI)
  have w: "wellFormed m" using assms machines_wellFormed by (simp add: list_all_iff)
  show "canTransition m a b ctx = Allowed \<longleftrightarrow> (\<exists>t\<in>set (smTransitions m). trFrom t = a \<and> trTo t = b \<and> fulfilled ctx (trRequires t))"
  proof
    assume "\<exists>t\<in>set (smTransitions m). trFrom t = a \<and> trTo t = b \<and> fulfilled ctx (trRequires t)"
    then obtain t where t: "t \<in> set (smTransitions m)" "trFrom t = a" "trTo t = b" "fulfilled ctx (trRequires t)" by blast
    then obtain x where x: "List.find (\<lambda>t. trFrom t = a \<and> trTo t = b) (smTransitions m) = Some x"
      by (cases "List.find (\<lambda>t. trFrom t = a \<and> trTo t = b) (smTransitions m)") (auto simp: find_None_iff)
    then have "x \<in> set (smTransitions m)" "trFrom x = a" "trTo x = b" by (auto dest: find_SomeD)
    with t edge_unique [OF w] have "x = t" by simp
    with x t(4) show "canTransition m a b ctx = Allowed" by (simp add: canTransition_find)
  qed (auto elim: allowed_edge)
  show "canTransition m a b ctx = Refused ''invalid'' \<longleftrightarrow> \<not> (\<exists>t\<in>set (smTransitions m). trFrom t = a \<and> trTo t = b)"
  proof (cases "List.find (\<lambda>t. trFrom t = a \<and> trTo t = b) (smTransitions m)")
    case None
    then have "\<not> (\<exists>t\<in>set (smTransitions m). trFrom t = a \<and> trTo t = b)" by (auto simp: find_None_iff)
    moreover have "canTransition m a b ctx = Refused ''invalid''" using None by (simp add: canTransition_find)
    ultimately show ?thesis by blast
  next
    case (Some x)
    then have "\<exists>t\<in>set (smTransitions m). trFrom t = a \<and> trTo t = b" by (auto dest: find_SomeD)
    moreover have "fulfilled ctx (trRequires x) \<or> avBlockedBy (offer ctx x) \<in> {Some ''note'', Some ''approval''}"
      unfolding offer_enabled [symmetric] by (auto simp: offer_def split: option.split)
    ultimately show ?thesis using Some by (auto simp: canTransition_find)
  qed
  show "primaryTransition m a ctx = None \<longleftrightarrow> \<not> (\<exists>t\<in>set (smTransitions m). trFrom t = a)"
  proof -
    have "primaryTransition m a ctx = None \<longleftrightarrow> nextTransitions m a ctx = []"
      by (cases "nextTransitions m a ctx") (simp_all add: primaryTransition_def Let_def split: option.split)
    also have "\<dots> \<longleftrightarrow> filter (\<lambda>t. trFrom t = a) (smTransitions m) = []" by (simp add: nextTransitions_def)
    also have "\<dots> \<longleftrightarrow> \<not> (\<exists>t\<in>set (smTransitions m). trFrom t = a)" by (auto simp: filter_empty_conv)
    finally show ?thesis .
  qed
qed

theorem change_is_exact_witness:
  "canTransition TASK_STATUS ''doing'' ''blocked'' \<lparr>txHasNote = Some True, txApprovals = None\<rparr> = Allowed \<and>
   canTransition TASK_STATUS ''doing'' ''blocked'' approving = Refused ''note'' \<and>
   (\<exists>t\<in>set (smTransitions TASK_STATUS). trFrom t = ''doing'' \<and> trTo t = ''blocked'')"
proof -
  have a: "canTransition TASK_STATUS ''doing'' ''blocked'' \<lparr>txHasNote = Some True, txApprovals = None\<rparr> = Allowed"
    and b: "canTransition TASK_STATUS ''doing'' ''blocked'' approving = Refused ''note''" by code_simp+
  have "TASK_STATUS \<in> set machines" by (simp add: machines_def)
  from change_is_exact [OF this, of "''doing''" "''blocked''"] a b show ?thesis by blast
qed

end
