(* ===== verification/Prices.thy ===== *)
theory Prices
  imports Spend Amount
begin

text \<open>
  \<open>lib/wallet/core/feeds.ts\<close>, \<open>lib/wallet/prices.ts\<close> and \<open>lib/wallet/screening.ts\<close>: the price feeds and the pairs made of
  them, prices in integers of eight decimals, and the check of senders against the list of sanctions. A time is a
  number of milliseconds; the division of \<open>bigint\<close> throws on zero and cuts towards zero.
\<close>

section \<open>Feeds and pairs\<close>

record feed =
  feKey :: string
  feAddress :: string
  feDescription :: string

definition FEEDS :: "string \<Rightarrow> feed list option" where
  "FEEDS n =
     (if n = ''ethereum_sepolia'' then Some
        [\<lparr>feKey = ''BTC/USD'', feAddress = ''0x1b44F3514812d835EB1BDB0acB33d3fA3351Ee43'', feDescription = ''BTC / USD''\<rparr>,
         \<lparr>feKey = ''ETH/USD'', feAddress = ''0x694AA1769357215DE4FAC081bf1f309aDC325306'', feDescription = ''ETH / USD''\<rparr>,
         \<lparr>feKey = ''USDC/USD'', feAddress = ''0xA2F78ab2355fe2f984D808B5CeE7FD0A93D5270E'', feDescription = ''USDC / USD''\<rparr>,
         \<lparr>feKey = ''EUR/USD'', feAddress = ''0x1a81afB8146aeFfCFc5E50e8479e826E7D55b910'', feDescription = ''EUR / USD''\<rparr>]
      else if n = ''ethereum_mainnet'' then Some
        [\<lparr>feKey = ''BTC/USD'', feAddress = ''0xF4030086522a5bEEa4988F8cA5B36dbC97BeE88c'', feDescription = ''BTC / USD''\<rparr>,
         \<lparr>feKey = ''ETH/USD'', feAddress = ''0x5f4eC3Df9cbd43714FE2740f5E3616155c5b8419'', feDescription = ''ETH / USD''\<rparr>,
         \<lparr>feKey = ''USDC/USD'', feAddress = ''0x8fFfFfd4AfB6115b954Bd326cbe7B4BA576818f6'', feDescription = ''USDC / USD''\<rparr>,
         \<lparr>feKey = ''EUR/USD'', feAddress = ''0xb49f677943BC038e9857d61E7d053CaA2C1734C1'', feDescription = ''EUR / USD''\<rparr>]
      else None)"

definition PAIRS :: "string list" where
  "PAIRS = [''BTC/EUR'', ''ETH/EUR'', ''USDC/EUR'', ''BTC/USD'', ''ETH/USD'', ''EUR/USD'']"

definition DEFAULT_WATCHLIST :: "string list" where
  "DEFAULT_WATCHLIST = [''BTC/EUR'', ''ETH/EUR'', ''USDC/EUR'']"

definition isPair :: "string \<Rightarrow> bool" where
  "isPair v \<longleftrightarrow> v \<in> set PAIRS"

definition feedsOfPair :: "string \<Rightarrow> string \<times> string option" where
  "feedsOfPair pair =
     (let parts = split_on (CHR ''/'') pair; asset = parts ! 0 in
      if length parts > 1 \<and> parts ! 1 = ''USD'' then (asset @ ''/USD'', None) else (asset @ ''/USD'', Some ''EUR/USD''))"

definition getRoundDataCall :: string where
  "getRoundDataCall = ''0x9a6fc8f5''"

section \<open>Prices\<close>

definition PRICE_DECIMALS :: nat where
  "PRICE_DECIMALS = 8"

definition PRICE_SCALE :: int where
  "PRICE_SCALE = 10 ^ PRICE_DECIMALS"

definition bigDiv :: "int \<Rightarrow> int \<Rightarrow> int res" where
  "bigDiv a b = (if b = 0 then Inl RangeErr else Inr (sgn a * sgn b * (\<bar>a\<bar> div \<bar>b\<bar>)))"

definition wordAt :: "string \<Rightarrow> nat \<Rightarrow> string" where
  "wordAt hex i = take 64 (drop (2 + i * 64) hex)"

definition int256 :: "string \<Rightarrow> int" where
  "int256 w = (let v = int (read_hex w) in if v \<ge> 2 ^ 255 then v - 2 ^ 256 else v)"

record roundData =
  rdRoundId :: int
  rdAnswer :: int
  rdUpdatedAt :: int

definition decodeRoundData :: "string \<Rightarrow> roundData option" where
  "decodeRoundData hex =
     (if \<not> (startsWith hex ''0x'' \<and> list_all is_hex (drop 2 hex) \<and> 320 \<le> length (drop 2 hex)) then None
      else let answer = int256 (wordAt hex 1); updatedAt = int (read_hex (wordAt hex 3)) in
        if updatedAt = 0 \<or> answer \<le> 0 then None
        else Some \<lparr>rdRoundId = int (read_hex (wordAt hex 0)), rdAnswer = answer, rdUpdatedAt = updatedAt\<rparr>)"

definition encodeGetRoundData :: "nat \<Rightarrow> string" where
  "encodeGetRoundData roundId = getRoundDataCall @ padStart 64 (show_hex roundId)"

definition phaseOf :: "int \<Rightarrow> int" where
  "phaseOf roundId = roundId div 2 ^ 64"

definition aggregatorRound :: "int \<Rightarrow> int" where
  "aggregatorRound roundId = roundId mod 2 ^ 64"

definition toScale :: "int \<Rightarrow> nat \<Rightarrow> int res" where
  "toScale answer dec =
     (if dec = PRICE_DECIMALS then Inr answer
      else if dec > PRICE_DECIMALS then bigDiv answer (10 ^ (dec - PRICE_DECIMALS))
      else Inr (answer * 10 ^ (PRICE_DECIMALS - dec)))"

record tick =
  tkAt :: int
  tkValue :: int

text \<open>The \<open>while\<close> loop over the divisor, and the loop over the base.\<close>

function seek :: "tick list \<Rightarrow> nat \<Rightarrow> int \<Rightarrow> nat" where
  "seek d j t = (if j + 1 < length d \<and> tkAt (d ! (j + 1)) \<le> t then seek d (j + 1) t else j)"
  by pat_completeness auto
termination
  by (relation "measure (\<lambda>(d, j, t). length d - j)") auto

declare seek.simps [simp del]

fun crossFrom :: "tick list \<Rightarrow> nat \<Rightarrow> tick list \<Rightarrow> tick list res" where
  "crossFrom d j [] = Inr []"
| "crossFrom d j (t # ts) =
     (let k = seek d j (tkAt t); dv = d ! k in
      if tkAt dv > tkAt t \<and> k = 0 then crossFrom d k ts
      else andThen (bigDiv (tkValue t * PRICE_SCALE) (tkValue dv)) (\<lambda>v.
        andThen (crossFrom d k ts) (\<lambda>r. Inr (\<lparr>tkAt = tkAt t, tkValue = v\<rparr> # r))))"

definition pairSeries :: "string \<Rightarrow> (string \<Rightarrow> tick list option) \<Rightarrow> tick list res" where
  "pairSeries pair ticks =
     (let (base, divisor) = feedsOfPair pair; b = sort_key tkAt (case ticks base of None \<Rightarrow> [] | Some xs \<Rightarrow> xs) in
      case divisor of None \<Rightarrow> Inr b
      | Some dv \<Rightarrow>
          let d = sort_key tkAt (case ticks dv of None \<Rightarrow> [] | Some xs \<Rightarrow> xs) in
          if d = [] then Inr [] else crossFrom d 0 b)"

fun priceUntil :: "int option \<Rightarrow> tick list \<Rightarrow> int \<Rightarrow> int option" where
  "priceUntil best [] t = best"
| "priceUntil best (x # xs) t = (if tkAt x \<le> t then priceUntil (Some (tkValue x)) xs t else best)"

definition priceAt :: "tick list \<Rightarrow> int \<Rightarrow> int option" where
  "priceAt series t = priceUntil None series t"

definition changeBp :: "tick list \<Rightarrow> int \<Rightarrow> int res option" where
  "changeBp series since =
     (case series of [] \<Rightarrow> None
      | x # xs \<Rightarrow>
          let before = (case priceAt series since of Some v \<Rightarrow> v | None \<Rightarrow> tkValue x) in
          if before = 0 then None else Some (bigDiv ((tkValue (last series) - before) * 10000) before))"

definition amountValue :: "int \<Rightarrow> nat \<Rightarrow> int \<Rightarrow> int res" where
  "amountValue amount dec price = bigDiv (amount * price) (10 ^ dec)"

definition formatScaled :: "int \<Rightarrow> nat \<Rightarrow> string res" where
  "formatScaled v fraction =
     (if fraction > PRICE_DECIMALS then Inl RangeErr
      else let neg = v < 0; a = (if neg then - v else v); unit = 10 ^ (PRICE_DECIMALS - fraction);
        rounded = (a + unit div 2) div unit; s = padStart (fraction + 1) (show_int rounded);
        whole = groupDots (take (length s - fraction) s); fr = drop (length s - fraction) s in
      Inr ((if neg then ''-'' else []) @ whole @ (if fraction > 0 then CHR '','' # fr else [])))"

section \<open>Screening\<close>

record sanctionEntry =
  seReference :: "string option"
  seSource :: string

definition chainName :: "chain \<Rightarrow> string" where
  "chainName c = (case c of Bitcoin \<Rightarrow> ''bitcoin'' | Ethereum \<Rightarrow> ''ethereum'')"

definition sanctionKey :: "chain \<Rightarrow> string \<Rightarrow> string" where
  "sanctionKey c address = chainName c @ '':'' @ (if c = Ethereum then toLowerCase address else trim address)"

datatype screening = Clear | Hit string

definition hitOf :: "chain \<Rightarrow> (string, sanctionEntry) jsmap \<Rightarrow> string \<Rightarrow> sanctionEntry option" where
  "hitOf c m s = (case mapGet m (sanctionKey c s) of Some e \<Rightarrow> Some e
     | None \<Rightarrow> if c = Bitcoin then mapGet m (sanctionKey c (toLowerCase s)) else None)"

fun screenSources :: "chain \<Rightarrow> string option list \<Rightarrow> (string, sanctionEntry) jsmap \<Rightarrow> screening" where
  "screenSources c [] m = Clear"
| "screenSources c (x # xs) m =
     (case x of None \<Rightarrow> screenSources c xs m
      | Some s \<Rightarrow>
          if s = [] then screenSources c xs m
          else case hitOf c m s of
            Some e \<Rightarrow> Hit (seSource e @ '':'' @ s @
              (case seReference e of None \<Rightarrow> [] | Some r \<Rightarrow> if r = [] then [] else '' ('' @ r @ '')''))
          | None \<Rightarrow> screenSources c xs m)"

section \<open>Lemmas\<close>

text \<open>The last tick that is not after a time, as a specification.\<close>

definition lastAt :: "tick list \<Rightarrow> int \<Rightarrow> tick option" where
  "lastAt d t = (case filter (\<lambda>x. tkAt x \<le> t) d of [] \<Rightarrow> None | x # xs \<Rightarrow> Some (last (x # xs)))"

definition cross :: "tick \<Rightarrow> tick \<Rightarrow> tick res" where
  "cross t dv = andThen (bigDiv (tkValue t * PRICE_SCALE) (tkValue dv)) (\<lambda>v. Inr \<lparr>tkAt = tkAt t, tkValue = v\<rparr>)"

lemma lastAt_Some:
  assumes "k < length d" "tkAt (d ! k) \<le> t" "\<And>i. k < i \<Longrightarrow> i < length d \<Longrightarrow> t < tkAt (d ! i)"
  shows "lastAt d t = Some (d ! k)"
proof -
  have "filter (\<lambda>x. tkAt x \<le> t) (drop (Suc k) d) = []"
    using assms(3) by (auto simp: filter_empty_conv in_set_conv_nth not_le)
  then have "filter (\<lambda>x. tkAt x \<le> t) d = filter (\<lambda>x. tkAt x \<le> t) (take k d) @ [d ! k]"
    using assms(1,2) by (subst id_take_nth_drop [OF assms(1)]) simp
  then show ?thesis by (cases "filter (\<lambda>x. tkAt x \<le> t) (take k d)") (simp_all add: lastAt_def)
qed

lemma lastAt_None: "\<forall>x\<in>set d. t < tkAt x \<Longrightarrow> lastAt d t = None"
proof -
  assume "\<forall>x\<in>set d. t < tkAt x"
  then have "filter (\<lambda>x. tkAt x \<le> t) d = []" by (auto simp: filter_empty_conv not_le)
  then show ?thesis by (simp add: lastAt_def)
qed

lemma seek_last:
  assumes "sorted (map tkAt d)" "j < length d" "j = 0 \<or> tkAt (d ! j) \<le> t"
  shows "seek d j t < length d \<and> (seek d j t = 0 \<or> tkAt (d ! seek d j t) \<le> t) \<and>
    lastAt d t = (if tkAt (d ! seek d j t) \<le> t then Some (d ! seek d j t) else None)"
  using assms
proof (induction d j t rule: seek.induct)
  case (1 d j t)
  show ?case
  proof (cases "j + 1 < length d \<and> tkAt (d ! (j + 1)) \<le> t")
    case True
    then have "seek d j t = seek d (j + 1) t" by (subst seek.simps) simp
    with "1.IH" [OF True "1.prems"(1)] True show ?thesis by simp
  next
    case False
    then have k: "seek d j t = j" by (subst seek.simps) (rule if_not_P)
    have later: "t < tkAt (d ! i)" if "j < i" "i < length d" for i
    proof -
      have "tkAt (d ! (j + 1)) \<le> tkAt (d ! i)" using sorted_nth_mono [OF "1.prems"(1), of "j + 1" i] that by simp
      with False that show ?thesis by simp
    qed
    show ?thesis
    proof (cases "tkAt (d ! j) \<le> t")
      case True
      with lastAt_Some [OF "1.prems"(2) True later] "1.prems" show ?thesis by (simp add: k)
    next
      case over: False
      with "1.prems"(3) have "j = 0" by simp
      with over later have "\<forall>x\<in>set d. t < tkAt x" by (metis gr0I in_set_conv_nth not_le)
      moreover have "seek d 0 t = 0" using k \<open>j = 0\<close> by simp
      ultimately show ?thesis using over \<open>j = 0\<close> "1.prems"(2) by (simp add: lastAt_None)
    qed
  qed
qed

definition matched :: "tick list \<Rightarrow> tick list \<Rightarrow> (tick \<times> tick) list" where
  "matched d ts = concat (map (\<lambda>t. case lastAt d (tkAt t) of None \<Rightarrow> [] | Some dv \<Rightarrow> [(t, dv)]) ts)"

lemma crossFrom_matched:
  assumes "sorted (map tkAt d)" "j < length d" "sorted (map tkAt ts)" "j = 0 \<or> (\<forall>t\<in>set ts. tkAt (d ! j) \<le> tkAt t)"
  shows "crossFrom d j ts = mapR (\<lambda>(t, dv). cross t dv) (matched d ts)"
  using assms(2-)
proof (induction ts arbitrary: j)
  case Nil
  then show ?case by (simp add: matched_def)
next
  case (Cons t ts)
  define k where "k = seek d j (tkAt t)"
  have k: "k < length d" "k = 0 \<or> tkAt (d ! k) \<le> tkAt t"
    "lastAt d (tkAt t) = (if tkAt (d ! k) \<le> tkAt t then Some (d ! k) else None)"
    using seek_last [OF assms(1) Cons.prems(1), of "tkAt t"] Cons.prems(3) by (auto simp: k_def)
  have "k = 0 \<or> (\<forall>x\<in>set ts. tkAt (d ! k) \<le> tkAt x)" using k(2) Cons.prems(2) by force
  then have IH: "crossFrom d k ts = mapR (\<lambda>(t, dv). cross t dv) (matched d ts)" using Cons.IH k(1) Cons.prems(2) by simp
  have c: "crossFrom d j (t # ts) = (if tkAt (d ! k) > tkAt t \<and> k = 0 then crossFrom d k ts
      else andThen (bigDiv (tkValue t * PRICE_SCALE) (tkValue (d ! k))) (\<lambda>v.
        andThen (crossFrom d k ts) (\<lambda>r. Inr (\<lparr>tkAt = tkAt t, tkValue = v\<rparr> # r))))"
    unfolding crossFrom.simps Let_def k_def ..
  show ?case
  proof (cases "tkAt (d ! k) \<le> tkAt t")
    case True
    have "cross t (d ! k) = andThen (bigDiv (tkValue t * PRICE_SCALE) (tkValue (d ! k))) (\<lambda>v. Inr \<lparr>tkAt = tkAt t, tkValue = v\<rparr>)"
      by (simp add: cross_def)
    with True show ?thesis unfolding c IH
      by (cases "bigDiv (tkValue t * PRICE_SCALE) (tkValue (d ! k))") (simp_all add: k(3) matched_def)
  next
    case False
    with k(2) have "k = 0" by simp
    with False show ?thesis unfolding c IH by (simp add: k(3) matched_def)
  qed
qed

section \<open>The properties\<close>

text \<open>
  C40. The single pass over both series gives the exact cross rates: each price of the base, in the order of time, is divided by the last
  price of the divisor that is not later, and is left out exactly if there is none.
\<close>

theorem pair_series_is_exact:
  "pairSeries pair ticks =
     (let (base, divisor) = feedsOfPair pair; ticksOf = (\<lambda>k. sort_key tkAt (case ticks k of None \<Rightarrow> [] | Some xs \<Rightarrow> xs)) in
      case divisor of None \<Rightarrow> Inr (ticksOf base)
      | Some dv \<Rightarrow> mapR (\<lambda>(t, d). cross t d) (concat (map (\<lambda>t. case lastAt (ticksOf dv) (tkAt t) of None \<Rightarrow> [] | Some d \<Rightarrow> [(t, d)]) (ticksOf base))))"
proof -
  obtain base divisor where f: "feedsOfPair pair = (base, divisor)" by (cases "feedsOfPair pair")
  let ?ticks = "\<lambda>k. sort_key tkAt (case ticks k of None \<Rightarrow> [] | Some xs \<Rightarrow> xs)"
  show ?thesis
  proof (cases divisor)
    case None
    then show ?thesis by (simp add: pairSeries_def f)
  next
    case (Some dv)
    define d where "d = ?ticks dv"
    define b where "b = ?ticks base"
    have s: "sorted (map tkAt d)" "sorted (map tkAt b)" by (simp_all add: d_def b_def)
    have p: "pairSeries pair ticks = (if d = [] then Inr [] else crossFrom d 0 b)"
      by (simp add: pairSeries_def f Some Let_def d_def b_def)
    have "(if d = [] then Inr [] else crossFrom d 0 b) = mapR (\<lambda>(t, dv). cross t dv) (matched d b)"
    proof (cases "d = []")
      case True
      then have "matched d b = []" by (simp add: matched_def lastAt_def)
      with True show ?thesis by simp
    next
      case False
      with crossFrom_matched [OF s(1) _ s(2), of 0] show ?thesis by simp
    qed
    then show ?thesis unfolding p by (simp only: f Some Let_def case_prod_conv option.case d_def b_def matched_def)
  qed
qed

text \<open>The price at a time is the one of the last tick that is not later.\<close>

lemma priceUntil_last:
  "sorted (map tkAt xs) \<Longrightarrow> priceUntil best xs t = (case lastAt xs t of None \<Rightarrow> best | Some x \<Rightarrow> Some (tkValue x))"
proof (induction xs arbitrary: best)
  case Nil
  show ?case by (simp add: lastAt_def)
next
  case (Cons x xs)
  show ?case
  proof (cases "tkAt x \<le> t")
    case True
    then have "lastAt (x # xs) t = (case lastAt xs t of None \<Rightarrow> Some x | Some y \<Rightarrow> Some y)"
      by (simp add: lastAt_def split: list.split)
    with True Cons show ?thesis by (simp split: option.split)
  next
    case False
    with Cons.prems have "\<forall>y\<in>set (x # xs). t < tkAt y" by auto
    with False show ?thesis by (simp add: lastAt_None)
  qed
qed

lemma price_at_is_last: "sorted (map tkAt series) \<Longrightarrow> priceAt series t = map_option tkValue (lastAt series t)"
  by (simp add: priceAt_def priceUntil_last split: option.split)

text \<open>No listed sender passes the screening.\<close>

lemma cleared_is_unlisted:
  "screenSources c xs m = Clear \<longleftrightarrow> (\<forall>s\<in>set (List.map_filter id xs). s \<noteq> [] \<longrightarrow> hitOf c m s = None)"
  by (induction xs) (auto simp: map_filter_simps split: option.splits)

end
