(* ===== verification/Spec2Isabelle.thy ===== *)
theory Spec2Isabelle
  imports Amount Payout_Plan Keys Journal Validate Journal_Chain Signer_Limits Signer_Restart Signer_Ledger Signer_Witness
    Merkle_Trees Audit_Chain Sign_Text Approval_Route Sync_Plan Custody Entity_States Prices
begin

text \<open>
  The payment core of the repository: the wallet library under \<open>src/lib/wallet/core\<close> with
  \<open>src/lib/wallet/payouts/plan.ts\<close>, and the signer under \<open>src/signer\<close>, a process of its own that holds the
  seeds and signs payments only when its policy and its security keys allow it; and the parts of the compliance
  platform around it that decide and prove: approval routes (\<open>lib/approvals\<close>), signed texts and collective signatures
  (\<open>lib/signatures\<close>), the ledger of the audit chains (\<open>lib/ledger\<close>, \<open>lib/audit-hash.ts\<close>), the comparison of stored
  transfers with the chain (\<open>lib/wallet/sync\<close>), prices and screening (\<open>prices.ts\<close>, \<open>screening.ts\<close>), the reconciliation of
  client assets (\<open>lib/custody\<close>) and the status machines of the compliance objects (\<open>lib/entities\<close>).

  \<^bold>\<open>The parts and how they work together.\<close> The app plans a payout (\<open>planPayout\<close>, coin selection,
  fee levels) and sends lines of JSON to a socket of the signer. The signer answers every line
  (\<open>protocol.ts\<close>), checks the arguments (\<open>validate.ts\<close>), decides in \<open>service.ts\<close>, and every decision that
  changes anything is one event (\<open>events.ts\<close>) that is appended to the journal (\<open>journal.ts\<close>) before it is
  applied to the state (\<open>state.ts\<close>). A payment passes four commands: \<open>intent.create\<close> writes
  its canonical text (\<open>intent.ts\<close>), \<open>approve\<close> takes WebAuthn confirmations over that text
  (\<open>webauthn.ts\<close>), \<open>sign\<close> builds the transaction (\<open>btc-spend.ts\<close>, \<open>eth-spend.ts\<close>) with keys from the sealed
  seeds (\<open>keys.ts\<close>, \<open>derive.ts\<close>). A mandate (\<open>mandate.ts\<close>) replaces the confirmations of single payouts, the
  policy (\<open>policy.ts\<close>) bounds everything. On the platform a request runs along a planned route of steps (\<open>route.ts\<close>,
  \<open>rules.ts\<close>); a decision may be a passkey signature over a canonical text (\<open>canonical.ts\<close>) or over the root of many
  documents (\<open>signatures/merkle.ts\<close>); every change is a row of a hash chain (\<open>audit-hash.ts\<close>), and the heads of all chains are
  the leaves of the tree that is anchored (\<open>ledger/merkle.ts\<close>).

  \<^bold>\<open>The theories.\<close>
  \<^item> \<open>Prelude\<close>: exceptions as values (\<open>'a res\<close>, \<open>andThen\<close>), \<open>Map\<close> objects as lists of pairs in insertion order,
    decimal and hexadecimal text, \<open>BigInt\<close> of text, the record \<open>lib\<close> of the third-party functions, the locales \<open>step_invariant\<close>
    and \<open>canonical_codec\<close>. \<open>Json\<close>: JSON values, \<open>JSON.stringify\<close>, the canonical text and a parser.
  \<^item> \<open>Networks\<close> (\<open>networks.ts\<close>, \<open>assets.ts\<close>, \<open>address.ts\<close>), \<open>Amount\<close> (\<open>amount.ts\<close>), \<open>Payout_Plan\<close> (\<open>coin-select.ts\<close>,
    \<open>plan.ts\<close>), \<open>Intent\<close>, \<open>Mandate\<close>, \<open>Policy\<close>, \<open>Spend\<close> (\<open>btc-spend.ts\<close>, \<open>eth-spend.ts\<close>), \<open>Keys\<close> (\<open>keys.ts\<close>, \<open>derive.ts\<close>),
    \<open>WebAuthn\<close>, \<open>Validate\<close>: one group of definitions per file, with the names of the source.
  \<^item> \<open>Signer_State\<close>: the events (\<open>body\<close>, \<open>event\<close>), the state (\<open>signerState\<close>) and \<open>applyBody\<close>, \<open>replay\<close>.
    \<open>Journal\<close>: the text of the journal. \<open>Signer_Core\<close>, \<open>Signer_Approve\<close>, \<open>Signer_Sign\<close>, \<open>Signer_Admin\<close>: the commands of
    \<open>service.ts\<close>. \<open>Protocol\<close>: the two command tables, \<open>handleLine\<close>, the framing of a connection (\<open>onData\<close>), and the
    sockets of \<open>server.ts\<close>.
  \<^item> \<open>Signer_Facts\<close>, \<open>Signer_Steps\<close>, \<open>Signer_Inv\<close>: what a recorded event implies, the signer as a state machine
    (\<open>commits\<close>, \<open>sstep\<close>, \<open>reachable\<close>) with the locales of its invariants, the invariant of the signatures.
    \<open>Signer_Safety\<close>, \<open>Signer_Limits\<close>, \<open>Signer_Ledger\<close>, \<open>Signer_Restart\<close>, \<open>Journal_Chain\<close>: the properties.
    \<open>Hashing\<close>: hashed sequences and where two of them collide (\<open>clash\<close>, \<open>clashAt\<close>), for all theories with hash chains or trees.
    \<open>Signer_Demo\<close>, \<open>Signer_Run\<close>, \<open>Signer_Witness\<close>: one concrete run of the signer, evaluated in stages, to which the
    properties of the reachable signers are applied.
  \<^item> \<open>Merkle_Trees\<close> (\<open>ledger/merkle.ts\<close>, \<open>signatures/merkle.ts\<close>; both files have a \<open>merkleRoot\<close>, the one of the signatures is
    \<open>sigMerkleRoot\<close>), \<open>Audit_Chain\<close> (\<open>audit-hash.ts\<close>), \<open>Sign_Text\<close> (\<open>canonical.ts\<close>), \<open>Approval_Rules\<close> (\<open>rules.ts\<close>), \<open>Approval_Route\<close>
    (\<open>route.ts\<close>), \<open>Sync_Plan\<close> (\<open>sync/plan.ts\<close>), \<open>Custody\<close> (\<open>decimal.ts\<close>, \<open>reconcile.ts\<close>, \<open>wallet-rules.ts\<close>), \<open>Prices\<close> (\<open>feeds.ts\<close>,
    \<open>prices.ts\<close>, \<open>screening.ts\<close>), \<open>Entity_States\<close> (\<open>status-machine.ts\<close> and the tables of the ten kinds of objects).

  \<^bold>\<open>How the source corresponds.\<close> A TypeScript type is a record with the prefix of its type on the fields
  (\<open>rCancelled\<close> is \<open>cancelled\<close> of \<open>IntentRecord\<close>), an optional field an \<open>option\<close>, a thrown error a value of
  \<open>exn\<close>: \<open>SignerError code detail\<close> with the source's code, and \<open>TypeErr\<close> and the like where the runtime throws. Amounts
  are \<open>bigint\<close> and therefore \<open>int\<close>; numbers of a policy that arrives as JSON are rational until the policy is
  recorded. Bytes are \<open>8 word\<close> lists. A command of the service is a function of the library, the environment
  (\<open>env\<close>: the clock at the start of the command and at the append, and the random bytes), the signer and
  the arguments; it returns an answer or an event to record (\<open>decision\<close>), and \<open>runD\<close> appends and applies
  the event. Shared mutable records (\<open>settle\<close> changes the record it is given) are written back to the map.

  \<^bold>\<open>What is shown.\<close>
  \<^item> In every reachable signer, after any sequence of commands of both sockets and any restarts: no output and no
    nonce is signed for two payments, the signatures of one payment exclude each other on the chain,
    accounts never share keys, intents are bounded in number, mandates in their total. Every command refines a
    step of an abstract ledger of outputs and nonces.
  \<^item> For every first signature: what it requires, two persons under four eyes, the limit per day. For every
    approval: a verified assertion over exactly this intent. For every line on the app socket: the set-up, a freeze and
    revoked keys stay, and a new policy passes the tightening rule and admits no more (\<open>admitsNoMore\<close>: payments, networks,
    delays, keys, fee caps that are numbers; fee caps recorded as text are outside it).
  \<^item> The journal reads back what was appended, shows every change of its lines, or two of its own hashed lines collide, and opens after
    a crash to the state the signer had, as long as every recorded event is storable (an event near the longest size is not).
    Every replayed state has its records under their own ids, and its intents and mandates are what the parsers make of the
    recorded texts. Answers do not depend on the chunks of a stream whose lines fit the limit.
  \<^item> The texts of intents, mandates and amounts are unambiguous and parse to what was encoded; the order of
    policies by tightening; the soundness of the transactions; the exactness of coin selection; the
    acceptance of assertions; the sealing of seeds.
  \<^item> A path of the ledger or of a collective signature leads to the root, and only from a leaf of the tree; the tree built
    level by level is the tree split at powers of two. Two audit chains with the same length and last hash agree
    in every recorded field of every row (not in \<open>seq\<close>, and in the values up to their normal form) or show a collision;
    checking block by block is checking at once. A signed text is read back as its fields, and its challenge binds all of them.
  \<^item> Whoever decides a step is entitled to and is not the requester; every route ends, and an approval has passed every step that applies.
    A plan of transfers settles what was reported; a reconciliation finds exactly the gaps of the lines; amounts survive their text.
  \<^item> A change of status is allowed exactly if the table lists it and its note or approval is there; from every status some done status is near. The pass over two price series gives the exact cross rates.
  \<^item> Six places where the code does not do what it means to: an unknown network in a policy throws, fee caps as text escape
    the comparison, an event of almost the longest size locks the journal, a mode sent as a list
    signs a cancelled payment again, a field \<open>__proto__\<close> escapes the hash of the audit log, and storing a workflow
    forgets that a step asks for a signature.

  \<^bold>\<open>Assumptions.\<close> Code that is not in the repository is a field of \<open>lib\<close>: SHA-256, AES-GCM, BIP32 and BIP39, the
  address codecs, transaction building, signature verification. A property that needs a law of one of them names it:
  \<open>addressLib\<close> (accepted Bitcoin addresses are alphanumeric, checksummed Ethereum addresses match their own pattern),
  \<open>shaLib\<close> (a digest has 32 bytes), \<open>aesLib\<close> (opening what was sealed gives the text back). That the
  hash has no collision is never assumed: a conclusion names the two inputs that would collide as its alternative
  (\<open>clash\<close>, \<open>clashAt\<close>). The collation of the runtime is a sort key (\<open>reconcile\<close>). \<open>reachable\<close> assumes a clock that does not run backwards. A policy that comes in as JSON is
  typed by \<open>policyOf\<close>: fields of another type than the source declares make the command fail in the model, where the code would go
  on with them; \<open>text_caps_defeat_tightening\<close> shows what that means for the caps, which the model keeps as text or number.

  \<^bold>\<open>Loops and bounds.\<close> Every definition is total: recursion is structural or has a proved measure (the CBOR reader
  consumes bytes, the parsers characters), so no fuel is used in the signer. The parser of JSON takes the length of its text as
  fuel. The trees split at the largest power of two below the number of leaves, which makes both halves smaller. The limits of the code (50 open intents, 200 a day, 50 inputs, the longest line) are constants of the model.

  \<^bold>\<open>Not modelled.\<close> Files, sockets and the process (\<open>main.ts\<close>, \<open>client.ts\<close>, listening in \<open>server.ts\<close>), since they only call the
  operating system: the journal and the seed file are values. RPC (network I/O), payment links, the web
  applications and their database access, catalogues of texts, the services around approvals, signatures and the ledger
  (their transactions run in the database; the decisions they take are the modelled functions).
  In the modelled files: the catalogue behind \<open>triggerOf\<close> (a workflow carries its trigger), the calendar text of a day
  (a day is a number), the code and the due date of a wallet of the register, the ABI text of a feed. Facts of a request are booleans, integers
  below \<open>10^21\<close> or texts; the numbers in an audit row are their printed text and its keys are sorted as bytes, which is the
  order of the code for texts within one byte per character; upper case is that of ASCII.
\<close>

end
